theory Spec2Isabelle
  imports Main "HOL-Library.Word"
begin

unbundle bit_operations_syntax

section \<open>Extended attributes of reiserfs (linux/fs/reiserfs/xattr.c)\<close>

text \<open>
  A shallow embedding of the extended-attribute storage engine.  Every function of
  xattr.c that a property below depends on is translated with its own name, branch by
  branch.  Pointer-encoded errors (\<open>ERR_PTR\<close>) and negative \<open>int\<close> returns become
  the left summand of a sum type.  Reference counting (\<open>dget\<close>, \<open>dput\<close>,
  \<open>fput\<close>) and locking (\<open>down\<close>, \<open>up\<close>, \<open>lock_kernel\<close>, the page lock) have no
  effect on the values computed and are left out.
\<close>

subsection \<open>Data\<close>

type_synonym u8 = "8 word"
type_synonym u32 = "32 word"

text \<open>
  The error codes the file uses.  \<open>OOPS\<close> is not an errno: it stands for the
  dereference of a NULL pointer or of an inode that does not exist.
\<close>

datatype errno =
  EIO | ENODATA | EEXIST | ERANGE | ENOMEM | EOPNOTSUPP | ENOENT | ENOTDIR
  | EINVAL | EBUSY | ENOSPC | OOPS

text \<open>A directory entry head with its name (\<open>struct reiserfs_de_head\<close>).\<close>

record dirent =
  deh_offset :: nat
  deh_objectid :: nat
  de_name :: string
  deh_visible :: bool

text \<open>
  The fields of \<open>struct inode\<close> that xattr.c reads or writes.  \<open>i_data\<close> is the
  content of the page cache of the file, byte by byte; the bytes beyond its end are zero.
\<close>

record inode =
  k_objectid :: nat
  i_generation :: nat
  sd_version_v1 :: bool
  i_priv_object :: bool
  i_isdir :: bool
  i_deaddir :: bool
  i_mode :: nat
  i_nlink :: nat
  i_size :: nat
  i_data :: "u8 list"
  i_uid :: nat
  i_gid :: nat
  i_atime :: nat
  i_mtime :: nat
  i_ctime :: nat
  i_entries :: "dirent list"

text \<open>A dentry: its name and its inode, if it has one (it is negative otherwise).\<close>

record dentry =
  d_name :: string
  d_inode :: "nat option"

record iattr =
  ia_valid :: u32
  ia_mode :: nat
  ia_uid :: nat
  ia_gid :: nat
  ia_size :: nat
  ia_atime :: nat
  ia_mtime :: nat
  ia_ctime :: nat

text \<open>
  The primitives of the collaborators (directory and page-cache operations) can fail.
  A failure is decided by \<open>s_fault\<close>, a fixed table from the primitive and its
  arguments to the error it returns.
\<close>

datatype prim =
  P_lookup nat string
  | P_mkdir nat string
  | P_create nat string
  | P_unlink nat string
  | P_rmdir nat string
  | P_notify_change nat
  | P_dentry_open nat
  | P_read_cache_page nat nat
  | P_page_not_uptodate nat nat
  | P_page_error nat nat
  | P_prepare_write nat nat
  | P_commit_write nat nat
  | P_search_by_entry_key nat nat
  | P_kmalloc nat

text \<open>
  The super block with everything reachable from it: the inodes by object id, the
  dentry of the private root, the cached dentry of the attribute root, and the mount
  options.
\<close>

record super_block =
  s_inodes :: "(nat \<times> inode) list"
  priv_root :: "dentry option"
  xattr_root :: "dentry option"
  s_xattrs :: bool
  s_old_format_only :: bool
  s_max_name :: nat
  s_fault :: "prim \<Rightarrow> errno option"

subsection \<open>Constants of the headers\<close>

text \<open>
  Modelled from the spec: the headers that define these constants
  (linux/xattr.h, linux/fs.h, linux/reiserfs_fs.h, linux/reiserfs_xattr.h,
  asm/page.h) are not under src/.  The values are those of the kernel the file belongs
  to; the header is 8 bytes (magic, checksum) as the spec says.
\<close>

definition XATTR_CREATE :: u32 where "XATTR_CREATE = 1"
definition XATTR_REPLACE :: u32 where "XATTR_REPLACE = 2"
definition FL_READONLY :: u32 where "FL_READONLY = 128"
definition FL_DIR_SEM_HELD :: u32 where "FL_DIR_SEM_HELD = 256"

definition PRIVROOT_NAME :: string where "PRIVROOT_NAME = ''.reiserfs_priv''"
definition XAROOT_NAME :: string where "XAROOT_NAME = ''xattrs''"

definition ATTR_MODE :: u32 where "ATTR_MODE = 1"
definition ATTR_UID :: u32 where "ATTR_UID = 2"
definition ATTR_GID :: u32 where "ATTR_GID = 4"
definition ATTR_SIZE :: u32 where "ATTR_SIZE = 8"
definition ATTR_ATIME :: u32 where "ATTR_ATIME = 16"
definition ATTR_MTIME :: u32 where "ATTR_MTIME = 32"
definition ATTR_CTIME :: u32 where "ATTR_CTIME = 64"

definition PAGE_CACHE_SHIFT :: nat where "PAGE_CACHE_SHIFT = 12"
definition PAGE_CACHE_SIZE :: nat where "PAGE_CACHE_SIZE = 4096"

definition REISERFS_XATTR_MAGIC :: u32 where "REISERFS_XATTR_MAGIC = 0x52465841"
definition sizeof_reiserfs_xattr_header :: nat where "sizeof_reiserfs_xattr_header = 8"

text \<open>The mode bits \<open>0700\<close> and \<open>S_IFREG\<close> (octal \<open>0100000\<close>).\<close>

definition S_IRWXU :: nat where "S_IRWXU = 448"
definition S_IFREG :: nat where "S_IFREG = 32768"

definition DOT_OFFSET :: nat where "DOT_OFFSET = 1"
definition DOT_DOT_OFFSET :: nat where "DOT_DOT_OFFSET = 2"

text \<open>\<open>max_reiserfs_offset\<close> of a directory in the 3.6 key format: \<open>~0ULL >> 4\<close>.\<close>

definition max_reiserfs_offset :: nat where "max_reiserfs_offset = 2 ^ 60 - 1"

text \<open>
  \<open>size_t\<close> is 32 bits wide.  Sizes are natural numbers below \<open>2 ^ 32\<close>; the
  subtractions of the file that can go below zero wrap around as they do in C.
\<close>

definition size_sub :: "nat \<Rightarrow> nat \<Rightarrow> nat" where
  "size_sub a b = (if b \<le> a then a - b else (a + 2 ^ 32) - b)"

text \<open>The value of a \<open>size_t\<close> once it is assigned to a (signed) \<open>ssize_t\<close>.\<close>

definition ssize_of :: "nat \<Rightarrow> int" where
  "ssize_of n = (if n < 2 ^ 31 then int n else int n - 2 ^ 32)"

subsection \<open>The collaborators: inodes, directories, the page cache\<close>

definition iget :: "super_block \<Rightarrow> nat \<Rightarrow> inode option" where
  "iget sb n = map_of (s_inodes sb) n"

fun alist_update :: "nat \<Rightarrow> inode \<Rightarrow> (nat \<times> inode) list \<Rightarrow> (nat \<times> inode) list" where
  "alist_update k v [] = [(k, v)]"
| "alist_update k v (p # ps) = (if fst p = k then (k, v) # ps else p # alist_update k v ps)"

definition iput :: "nat \<Rightarrow> inode \<Rightarrow> super_block \<Rightarrow> super_block" where
  "iput n i sb = sb\<lparr>s_inodes := alist_update n i (s_inodes sb)\<rparr>"

text \<open>An object id that no inode of the super block has.\<close>

definition new_objectid :: "super_block \<Rightarrow> nat" where
  "new_objectid sb = Suc (fold max (map fst (s_inodes sb)) 0)"

text \<open>
  Modelled from the spec: \<open>lookup_one_len\<close> (fs/namei.c, not under src/), the
  lookup-by-name primitive.  It returns an error, or a dentry that is negative when the
  directory has no visible entry of that name.  An entry whose inode cannot be read is
  an I/O error.
\<close>

definition lookup_one_len :: "string \<Rightarrow> dentry \<Rightarrow> super_block \<Rightarrow> errno + dentry" where
  "lookup_one_len name base sb =
     (case d_inode base of
        None \<Rightarrow> Inl OOPS
      | Some dir \<Rightarrow>
          (case iget sb dir of
             None \<Rightarrow> Inl OOPS
           | Some di \<Rightarrow>
               (case s_fault sb (P_lookup dir name) of
                  Some e \<Rightarrow> Inl e
                | None \<Rightarrow>
                    (case find (\<lambda>de. de_name de = name \<and> deh_visible de) (i_entries di) of
                       None \<Rightarrow> Inr \<lparr>d_name = name, d_inode = None\<rparr>
                     | Some de \<Rightarrow>
                         (case iget sb (deh_objectid de) of
                            None \<Rightarrow> Inl EIO
                          | Some _ \<Rightarrow>
                              Inr \<lparr>d_name = name, d_inode = Some (deh_objectid de)\<rparr>)))))"

text \<open>The offset a new entry of a directory gets: above every offset in use.\<close>

definition new_offset :: "dirent list \<Rightarrow> nat" where
  "new_offset es = Suc (fold max (map deh_offset es) DOT_DOT_OFFSET)"

definition add_entry :: "string \<Rightarrow> nat \<Rightarrow> inode \<Rightarrow> inode" where
  "add_entry name n di =
     di\<lparr>i_entries := i_entries di @
          [\<lparr>deh_offset = new_offset (i_entries di), deh_objectid = n, de_name = name,
            deh_visible = True\<rparr>]\<rparr>"

definition new_inode :: "inode \<Rightarrow> nat \<Rightarrow> bool \<Rightarrow> nat \<Rightarrow> inode" where
  "new_inode dir n isdir mode =
     \<lparr>k_objectid = n, i_generation = 0, sd_version_v1 = False,
      i_priv_object = i_priv_object dir, i_isdir = isdir, i_deaddir = False,
      i_mode = mode, i_nlink = (if isdir then 2 else 1), i_size = 0, i_data = [],
      i_uid = i_uid dir, i_gid = i_gid dir, i_atime = 0, i_mtime = 0, i_ctime = 0,
      i_entries =
        (if isdir then
           [\<lparr>deh_offset = DOT_OFFSET, deh_objectid = n, de_name = ''.'', deh_visible = True\<rparr>,
            \<lparr>deh_offset = DOT_DOT_OFFSET, deh_objectid = k_objectid dir, de_name = ''..'',
             deh_visible = True\<rparr>]
         else [])\<rparr>"

text \<open>
  Modelled from the spec: the \<open>mkdir\<close> and \<open>create\<close> inode operations of the
  directory (fs/reiserfs/namei.c, not under src/).  On success the dentry becomes
  positive; the new object belongs to the private tree when its directory does.
\<close>

definition i_op_mkdir ::
  "nat \<Rightarrow> dentry \<Rightarrow> nat \<Rightarrow> super_block \<Rightarrow> (errno + dentry) \<times> super_block" where
  "i_op_mkdir dir de mode sb =
     (case iget sb dir of
        None \<Rightarrow> (Inl OOPS, sb)
      | Some di \<Rightarrow>
          (case s_fault sb (P_mkdir dir (d_name de)) of
             Some e \<Rightarrow> (Inl e, sb)
           | None \<Rightarrow>
               (let n = new_objectid sb;
                    sb1 = iput dir ((add_entry (d_name de) n di)\<lparr>i_nlink := Suc (i_nlink di)\<rparr>) sb;
                    sb2 = iput n (new_inode di n True mode) sb1
                in (Inr (de\<lparr>d_inode := Some n\<rparr>), sb2))))"

definition i_op_create ::
  "nat \<Rightarrow> dentry \<Rightarrow> nat \<Rightarrow> super_block \<Rightarrow> (errno + dentry) \<times> super_block" where
  "i_op_create dir de mode sb =
     (case iget sb dir of
        None \<Rightarrow> (Inl OOPS, sb)
      | Some di \<Rightarrow>
          (case s_fault sb (P_create dir (d_name de)) of
             Some e \<Rightarrow> (Inl e, sb)
           | None \<Rightarrow>
               (let n = new_objectid sb;
                    sb1 = iput dir (add_entry (d_name de) n di) sb;
                    sb2 = iput n (new_inode di n False mode) sb1
                in (Inr (de\<lparr>d_inode := Some n\<rparr>), sb2))))"

text \<open>
  Modelled from the spec: the \<open>unlink\<close> inode operation (not under src/).  It removes
  the entry and drops one link of the inode, which stays in memory for those who
  still hold it.
\<close>

definition i_op_unlink :: "nat \<Rightarrow> dentry \<Rightarrow> super_block \<Rightarrow> (errno + unit) \<times> super_block" where
  "i_op_unlink dir de sb =
     (case iget sb dir of
        None \<Rightarrow> (Inl OOPS, sb)
      | Some di \<Rightarrow>
          (case s_fault sb (P_unlink dir (d_name de)) of
             Some e \<Rightarrow> (Inl e, sb)
           | None \<Rightarrow>
               (case d_inode de of
                  None \<Rightarrow> (Inl OOPS, sb)
                | Some n \<Rightarrow>
                    (let sb1 = iput dir (di\<lparr>i_entries :=
                                 filter (\<lambda>e. \<not> (de_name e = d_name de \<and> deh_visible e))
                                   (i_entries di)\<rparr>) sb
                     in (case iget sb1 n of
                           None \<Rightarrow> (Inl OOPS, sb1)
                         | Some i \<Rightarrow> (Inr (), iput n (i\<lparr>i_nlink := i_nlink i - 1\<rparr>) sb1))))))"

text \<open>
  Modelled from the spec: \<open>notify_change\<close> (fs/attr.c, not under src/), the
  change-attributes primitive.  It applies the fields of the attribute set that
  \<open>ia_valid\<close> selects; a change of size cuts the content at the new size.
\<close>

definition inode_setattr :: "iattr \<Rightarrow> inode \<Rightarrow> inode" where
  "inode_setattr a i =
     (let i1 = (if ia_valid a AND ATTR_MODE \<noteq> 0 then i\<lparr>i_mode := ia_mode a\<rparr> else i);
          i2 = (if ia_valid a AND ATTR_UID \<noteq> 0 then i1\<lparr>i_uid := ia_uid a\<rparr> else i1);
          i3 = (if ia_valid a AND ATTR_GID \<noteq> 0 then i2\<lparr>i_gid := ia_gid a\<rparr> else i2);
          i4 = (if ia_valid a AND ATTR_SIZE \<noteq> 0
                then i3\<lparr>i_size := ia_size a, i_data := take (ia_size a) (i_data i3)\<rparr> else i3);
          i5 = (if ia_valid a AND ATTR_ATIME \<noteq> 0 then i4\<lparr>i_atime := ia_atime a\<rparr> else i4);
          i6 = (if ia_valid a AND ATTR_MTIME \<noteq> 0 then i5\<lparr>i_mtime := ia_mtime a\<rparr> else i5)
      in (if ia_valid a AND ATTR_CTIME \<noteq> 0 then i6\<lparr>i_ctime := ia_ctime a\<rparr> else i6))"

definition notify_change :: "dentry \<Rightarrow> iattr \<Rightarrow> super_block \<Rightarrow> (errno + unit) \<times> super_block" where
  "notify_change de a sb =
     (case d_inode de of
        None \<Rightarrow> (Inl OOPS, sb)
      | Some n \<Rightarrow>
          (case iget sb n of
             None \<Rightarrow> (Inl OOPS, sb)
           | Some i \<Rightarrow>
               (case s_fault sb (P_notify_change n) of
                  Some e \<Rightarrow> (Inl e, sb)
                | None \<Rightarrow> (Inr (), iput n (inode_setattr a i) sb))))"

text \<open>
  Modelled from the spec: \<open>dentry_open\<close> (fs/open.c, not under src/).  The open file
  is its dentry.
\<close>

definition dentry_open :: "dentry \<Rightarrow> super_block \<Rightarrow> errno + dentry" where
  "dentry_open de sb =
     (case d_inode de of
        None \<Rightarrow> Inl OOPS
      | Some n \<Rightarrow> (case s_fault sb (P_dentry_open n) of Some e \<Rightarrow> Inl e | None \<Rightarrow> Inr de))"

subsection \<open>Path resolver\<close>

text \<open>The conversion \<open>%X\<close> of \<open>snprintf\<close>: capital hexadecimal digits of a 32-bit value.\<close>

definition hex_digit :: "nat \<Rightarrow> char" where
  "hex_digit d = ''0123456789ABCDEF'' ! (d mod 16)"

fun hex_digits :: "nat \<Rightarrow> nat \<Rightarrow> string" where
  "hex_digits 0 n = []"
| "hex_digits (Suc k) n =
     (if n < 16 then [hex_digit n] else hex_digits k (n div 16) @ [hex_digit n])"

definition fmt_X :: "nat \<Rightarrow> string" where
  "fmt_X n = hex_digits 8 (n mod 2 ^ 32)"

text \<open>
  The name of the attribute directory of an object: \<open>snprintf\<close> into a buffer of 17
  bytes keeps at most 16 characters.
\<close>

definition namebuf :: "inode \<Rightarrow> string" where
  "namebuf inode = take 16 (fmt_X (k_objectid inode) @ ''.'' @ fmt_X (i_generation inode))"

definition create_xa_root :: "super_block \<Rightarrow> (errno + dentry) \<times> super_block" where
  "create_xa_root sb =
     (case priv_root sb of
        None \<Rightarrow> (Inl EOPNOTSUPP, sb)
      | Some privroot \<Rightarrow>
          (case lookup_one_len XAROOT_NAME privroot sb of
             Inl e \<Rightarrow> (Inl e, sb)
           | Inr xaroot \<Rightarrow>
               (case d_inode xaroot of
                  Some _ \<Rightarrow> (Inr xaroot, sb)
                | None \<Rightarrow>
                    (case d_inode privroot of
                       None \<Rightarrow> (Inl OOPS, sb)
                     | Some pr \<Rightarrow>
                         (case i_op_mkdir pr xaroot S_IRWXU sb of
                            (Inl err, sb1) \<Rightarrow> (Inl err, sb1)
                          | (Inr xaroot1, sb1) \<Rightarrow>
                              (Inr xaroot1, sb1\<lparr>xattr_root := Some xaroot1\<rparr>))))))"

definition get_xa_root_aux :: "super_block \<Rightarrow> (errno + dentry option) \<times> super_block" where
  \<comment> \<open>\<open>__get_xa_root\<close>\<close>
  "get_xa_root_aux s =
     (case priv_root s of
        None \<Rightarrow> (Inr None, s)
      | Some privroot \<Rightarrow>
          (case lookup_one_len XAROOT_NAME privroot s of
             Inl e \<Rightarrow> (Inl e, s)
           | Inr xaroot \<Rightarrow>
               (case d_inode xaroot of
                  None \<Rightarrow> (Inr None, s)
                | Some _ \<Rightarrow> (Inr (Some xaroot), s\<lparr>xattr_root := Some xaroot\<rparr>))))"

definition get_xa_root :: "super_block \<Rightarrow> (errno + dentry option) \<times> super_block" where
  "get_xa_root s =
     (case xattr_root s of
        None \<Rightarrow> get_xa_root_aux s
      | Some dentry \<Rightarrow> (Inr (Some dentry), s))"

definition reiserfs_get_xa_root :: "super_block \<Rightarrow> dentry option \<times> super_block" where
  "reiserfs_get_xa_root sb =
     (case get_xa_root sb of
        (Inl e, sb1) \<Rightarrow> (None, sb1)
      | (Inr None, sb1) \<Rightarrow> (None, sb1)
      | (Inr (Some dentry), sb1) \<Rightarrow>
          (if d_inode dentry = None then (None, sb1) else (Some dentry, sb1)))"

text \<open>
  \<open>open_xa_dir\<close>, in two parts: first the attribute root (created if the flags
  allow), then the directory of the object under it.
\<close>

definition open_xa_dir_root ::
  "u32 \<Rightarrow> super_block \<Rightarrow> (errno + dentry) \<times> super_block" where
  "open_xa_dir_root flags sb =
     (case get_xa_root sb of
        (Inl e, sb1) \<Rightarrow> (Inl e, sb1)
      | (Inr (Some xaroot), sb1) \<Rightarrow> (Inr xaroot, sb1)
      | (Inr None, sb1) \<Rightarrow>
          (if flags = 0 \<or> flags AND XATTR_CREATE \<noteq> 0
           then create_xa_root sb1
           else (Inl ENODATA, sb1)))"

definition open_xa_dir :: "inode \<Rightarrow> u32 \<Rightarrow> super_block \<Rightarrow> (errno + dentry) \<times> super_block" where
  "open_xa_dir inode flags sb =
     (case open_xa_dir_root flags sb of
        (Inl e, sb1) \<Rightarrow> (Inl e, sb1)
      | (Inr xaroot, sb1) \<Rightarrow>
          (case lookup_one_len (namebuf inode) xaroot sb1 of
             Inl e \<Rightarrow> (Inl e, sb1)
           | Inr xadir \<Rightarrow>
               (case d_inode xadir of
                  Some _ \<Rightarrow> (Inr xadir, sb1)
                | None \<Rightarrow>
                    (if flags = 0 \<or> flags AND XATTR_CREATE \<noteq> 0
                     then
                       (case d_inode xaroot of
                          None \<Rightarrow> (Inl OOPS, sb1)
                        | Some xr \<Rightarrow>
                            (case i_op_mkdir xr xadir S_IRWXU sb1 of
                               (Inl err, sb2) \<Rightarrow> (Inl err, sb2)
                             | (Inr xadir1, sb2) \<Rightarrow>
                                 (if d_inode xadir1 = None then (Inl ENODATA, sb2)
                                  else (Inr xadir1, sb2))))
                     else (Inl ENODATA, sb1)))))"

subsection \<open>Attribute file accessor\<close>


definition get_xa_file_dentry ::
  "inode \<Rightarrow> string \<Rightarrow> u32 \<Rightarrow> super_block \<Rightarrow> (errno + dentry) \<times> super_block" where
  "get_xa_file_dentry inode name flags sb =
     (case open_xa_dir inode flags sb of
        (Inl e, sb1) \<Rightarrow> (Inl e, sb1)
      | (Inr xadir, sb1) \<Rightarrow>
          (case d_inode xadir of
             None \<Rightarrow> (Inl ENODATA, sb1)
           | Some xd \<Rightarrow>
               (case lookup_one_len name xadir sb1 of
                  Inl e \<Rightarrow> (Inl e, sb1)
                | Inr xafile \<Rightarrow>
                    (if d_inode xafile \<noteq> None
                     then (if flags AND XATTR_CREATE \<noteq> 0 then (Inl EEXIST, sb1)
                           else (Inr xafile, sb1))
                     else if flags AND XATTR_REPLACE \<noteq> 0 \<or> flags AND FL_READONLY \<noteq> 0
                     then (Inr xafile, sb1)
                     else i_op_create xd xafile (S_IRWXU + S_IFREG) sb1))))"

definition open_xa_file ::
  "inode \<Rightarrow> string \<Rightarrow> u32 \<Rightarrow> super_block \<Rightarrow> (errno + dentry) \<times> super_block" where
  "open_xa_file inode name flags sb =
     (case get_xa_file_dentry inode name flags sb of
        (Inl e, sb1) \<Rightarrow> (Inl e, sb1)
      | (Inr xafile, sb1) \<Rightarrow>
          (if d_inode xafile = None then (Inl ENODATA, sb1)
           else (dentry_open xafile sb1, sb1)))"

subsection \<open>Deleting an attribute\<close>

text \<open>
  The length of a name travels with the name, so \<open>namelen\<close> is not a parameter of
  its own.
\<close>

definition reiserfs_xattr_del_aux ::
  "dentry \<Rightarrow> string \<Rightarrow> super_block \<Rightarrow> (errno + unit) \<times> super_block" where
  \<comment> \<open>\<open>__reiserfs_xattr_del\<close>\<close>
  "reiserfs_xattr_del_aux xadir name sb =
     (case lookup_one_len name xadir sb of
        Inl e \<Rightarrow> (Inl e, sb)
      | Inr file \<Rightarrow>
          (case d_inode file of
             None \<Rightarrow> (Inl ENODATA, sb)
           | Some f \<Rightarrow>
               (case iget sb f of
                  None \<Rightarrow> (Inl OOPS, sb)
                | Some fi \<Rightarrow>
                    (if i_isdir fi then (Inr (), sb)
                     else if \<not> i_priv_object fi then (Inl EIO, sb)
                     else (case d_inode xadir of
                             None \<Rightarrow> (Inl OOPS, sb)
                           | Some dir \<Rightarrow> i_op_unlink dir file sb)))))"

definition reiserfs_xattr_del ::
  "inode \<Rightarrow> string \<Rightarrow> super_block \<Rightarrow> (errno + unit) \<times> super_block" where
  "reiserfs_xattr_del inode name sb =
     (case open_xa_dir inode FL_READONLY sb of
        (Inl e, sb1) \<Rightarrow> (Inl e, sb1)
      | (Inr dir, sb1) \<Rightarrow> reiserfs_xattr_del_aux dir name sb1)"

subsection \<open>Chunked I/O: pages, header, checksum\<close>

text \<open>
  Copying in and out of byte arrays.  \<open>bytes_at d pos len\<close> are the \<open>len\<close> bytes
  of \<open>d\<close> from \<open>pos\<close> on, and \<open>memcpy_at d pos src\<close> is \<open>d\<close> with
  \<open>src\<close> copied to \<open>pos\<close>; beyond its end a page-cache content reads as zero.
\<close>

definition bytes_at :: "u8 list \<Rightarrow> nat \<Rightarrow> nat \<Rightarrow> u8 list" where
  "bytes_at d pos len = take len (drop pos d @ replicate len 0)"

definition memcpy_at :: "u8 list \<Rightarrow> nat \<Rightarrow> u8 list \<Rightarrow> u8 list" where
  "memcpy_at d pos src =
     take pos (d @ replicate (pos - length d) 0) @ src @ drop (pos + length src) d"

text \<open>
  A page of the page cache is a window on the content of its file: the inode and the
  index of the page.  What is written through \<open>page_address\<close> is written to the file
  content at once; \<open>commit_write\<close> makes the size of the file follow.

  Modelled from the spec: \<open>read_cache_page\<close>, the page flags, \<open>prepare_write\<close> and
  \<open>commit_write\<close> (mm/filemap.c, fs/buffer.c, not under src/).
\<close>

type_synonym page = "nat \<times> nat"

definition read_cache_page :: "nat \<Rightarrow> nat \<Rightarrow> super_block \<Rightarrow> errno + page" where
  "read_cache_page x n sb =
     (case s_fault sb (P_read_cache_page x n) of Some e \<Rightarrow> Inl e | None \<Rightarrow> Inr (x, n))"

definition Page_Uptodate :: "page \<Rightarrow> super_block \<Rightarrow> bool" where
  "Page_Uptodate pg sb = (s_fault sb (P_page_not_uptodate (fst pg) (snd pg)) = None)"

definition PageError :: "page \<Rightarrow> super_block \<Rightarrow> bool" where
  "PageError pg sb = (s_fault sb (P_page_error (fst pg) (snd pg)) \<noteq> None)"

definition page_address :: "page \<Rightarrow> nat" where
  "page_address pg = snd pg * PAGE_CACHE_SIZE"

definition page_read :: "page \<Rightarrow> nat \<Rightarrow> nat \<Rightarrow> super_block \<Rightarrow> u8 list" where
  "page_read pg off len sb =
     (case iget sb (fst pg) of
        None \<Rightarrow> replicate len 0
      | Some i \<Rightarrow> bytes_at (i_data i) (page_address pg + off) len)"

definition page_write :: "page \<Rightarrow> nat \<Rightarrow> u8 list \<Rightarrow> super_block \<Rightarrow> super_block" where
  "page_write pg off src sb =
     (case iget sb (fst pg) of
        None \<Rightarrow> sb
      | Some i \<Rightarrow>
          iput (fst pg) (i\<lparr>i_data := memcpy_at (i_data i) (page_address pg + off) src\<rparr>) sb)"

definition prepare_write :: "page \<Rightarrow> nat \<Rightarrow> nat \<Rightarrow> super_block \<Rightarrow> errno + unit" where
  "prepare_write pg from to sb =
     (case s_fault sb (P_prepare_write (fst pg) (snd pg)) of
        Some e \<Rightarrow> Inl e
      | None \<Rightarrow> Inr ())"

definition commit_write ::
  "page \<Rightarrow> nat \<Rightarrow> nat \<Rightarrow> super_block \<Rightarrow> (errno + unit) \<times> super_block" where
  "commit_write pg from to sb =
     (case s_fault sb (P_commit_write (fst pg) (snd pg)) of
        Some e \<Rightarrow> (Inl e, sb)
      | None \<Rightarrow>
          (case iget sb (fst pg) of
             None \<Rightarrow> (Inl OOPS, sb)
           | Some i \<Rightarrow>
               (Inr (), iput (fst pg) (i\<lparr>i_size := max (i_size i) (page_address pg + to)\<rparr>) sb)))"

definition reiserfs_get_page :: "nat \<Rightarrow> nat \<Rightarrow> super_block \<Rightarrow> errno + page" where
  "reiserfs_get_page dir n sb =
     (case read_cache_page dir n sb of
        Inl e \<Rightarrow> Inl e
      | Inr pg \<Rightarrow>
          (if \<not> Page_Uptodate pg sb then Inl EIO
           else if PageError pg sb then Inl EIO
           else Inr pg))"

text \<open>The two 32-bit fields of the header are stored little-endian.\<close>

definition cpu_to_le32 :: "u32 \<Rightarrow> u8 list" where
  "cpu_to_le32 w =
     [ucast w, ucast (drop_bit 8 w), ucast (drop_bit 16 w), ucast (drop_bit 24 w)]"

definition le32_to_cpu :: "u8 list \<Rightarrow> u32" where
  "le32_to_cpu bs =
     (ucast (bs ! 0) OR push_bit 8 (ucast (bs ! 1)) OR push_bit 16 (ucast (bs ! 2))
      OR push_bit 24 (ucast (bs ! 3)))"

text \<open>
  Modelled from the spec: \<open>csum_partial\<close> (asm/checksum.h, not under src/), the
  Internet-style additive checksum: the bytes are summed as 16-bit little-endian words
  into a 32-bit sum, and a carry out of the sum is added back in.
\<close>

fun csum_words :: "u8 list \<Rightarrow> nat list" where
  "csum_words (a # b # r) = (unat a + 256 * unat b) # csum_words r"
| "csum_words [a] = [unat a]"
| "csum_words [] = []"

definition csum_add :: "nat \<Rightarrow> u32 \<Rightarrow> u32" where
  "csum_add w s =
     (let t = unat s + w in word_of_nat (if t < 2 ^ 32 then t else t - 2 ^ 32 + 1))"

definition csum_partial :: "u8 list \<Rightarrow> nat \<Rightarrow> u32 \<Rightarrow> u32" where
  "csum_partial buff len csum = fold csum_add (csum_words (take len buff)) csum"

definition xattr_hash :: "u8 list \<Rightarrow> nat \<Rightarrow> u32" where
  "xattr_hash msg len = csum_partial msg len 0"

subsection \<open>Writing an attribute\<close>

text \<open>
  One turn of the loop of \<open>reiserfs_xattr_set\<close>.  It returns \<open>err\<close> and the new
  values of \<open>file_pos\<close> and \<open>buffer_pos\<close>.
\<close>

definition xattr_set_iter ::
  "nat \<Rightarrow> u8 list option \<Rightarrow> nat \<Rightarrow> u32 \<Rightarrow> nat \<Rightarrow> nat \<Rightarrow> super_block
   \<Rightarrow> (errno + unit) \<times> nat \<times> nat \<times> super_block" where
  "xattr_set_iter xinode buffer buffer_size xahash file_pos buffer_pos sb =
     (let page_offset = file_pos AND (PAGE_CACHE_SIZE - 1);
          chunk = (if buffer_size - buffer_pos > PAGE_CACHE_SIZE then PAGE_CACHE_SIZE
                   else buffer_size - buffer_pos)
      in case reiserfs_get_page xinode (drop_bit PAGE_CACHE_SHIFT file_pos) sb of
           Inl e \<Rightarrow> (Inl e, file_pos, buffer_pos, sb)
         | Inr pg \<Rightarrow>
             (let skip = (if file_pos = 0 then sizeof_reiserfs_xattr_header else 0);
                  file_pos1 = (if file_pos = 0 then sizeof_reiserfs_xattr_header else file_pos);
                  chunk1 = (if file_pos = 0 \<and> chunk + skip > PAGE_CACHE_SIZE
                            then PAGE_CACHE_SIZE - skip else chunk);
                  sb1 = (if file_pos = 0
                         then page_write pg 0
                                (cpu_to_le32 REISERFS_XATTR_MAGIC @ cpu_to_le32 xahash) sb
                         else sb);
                  (err, sb2) =
                    (case prepare_write pg page_offset (page_offset + chunk1 + skip) sb1 of
                       Inl e \<Rightarrow> (Inl e, sb1)
                     | Inr _ \<Rightarrow>
                         commit_write pg page_offset (page_offset + chunk1 + skip)
                           (case buffer of
                              None \<Rightarrow> sb1
                            | Some b \<Rightarrow> page_write pg skip (take chunk1 (drop buffer_pos b)) sb1))
              in (err, file_pos1 + chunk1, buffer_pos + chunk1, sb2)))"

lemma xattr_set_iter_advance:
  assumes "xattr_set_iter xinode buffer buffer_size xahash file_pos buffer_pos sb
             = (Inr (), file_pos1, buffer_pos1, sb1)"
    and "buffer_pos < buffer_size"
  shows "buffer_pos < buffer_pos1 \<and> buffer_pos1 \<le> buffer_size"
  using assms
  by (auto simp: xattr_set_iter_def Let_def PAGE_CACHE_SIZE_def sizeof_reiserfs_xattr_header_def
      split: sum.splits prod.splits if_splits)

function xattr_set_loop ::
  "nat \<Rightarrow> u8 list option \<Rightarrow> nat \<Rightarrow> u32 \<Rightarrow> nat \<Rightarrow> nat \<Rightarrow> super_block
   \<Rightarrow> (errno + unit) \<times> super_block" where
  "xattr_set_loop xinode buffer buffer_size xahash file_pos buffer_pos sb =
     (if buffer_pos < buffer_size \<or> buffer_pos = 0
      then
        (case xattr_set_iter xinode buffer buffer_size xahash file_pos buffer_pos sb of
           (err, file_pos1, buffer_pos1, sb1) \<Rightarrow>
             (if err \<noteq> Inr () \<or> buffer_size = 0 \<or> buffer = None then (err, sb1)
              else xattr_set_loop xinode buffer buffer_size xahash file_pos1 buffer_pos1 sb1))
      else (Inr (), sb))"
  by pat_completeness auto
termination
  apply (relation "measure (\<lambda>(xinode, buffer, buffer_size, xahash, file_pos, buffer_pos, sb).
                   buffer_size - buffer_pos)")
   apply simp
  apply (simp add: eq_commute [of "(_, _)"])
  subgoal for xinode buffer buffer_size xahash file_pos buffer_pos sb y xa ya xb yb
    using xattr_set_iter_advance [of xinode buffer buffer_size xahash file_pos buffer_pos sb xa xb yb]
    by auto
  done

declare xattr_set_loop.simps [simp del]

text \<open>
  The part of \<open>reiserfs_xattr_set\<close> after the file is open and is not shared: the
  resize and the loop.  \<open>newattrs\<close> is a local variable of which the code sets
  \<open>ia_size\<close> and \<open>ia_valid\<close> only; its other fields, among them \<open>ia_ctime\<close> that
  \<open>ia_valid\<close> selects, are what the stack held, and that is the parameter
  \<open>newattrs\<close>.
\<close>

definition xattr_set_write ::
  "dentry \<Rightarrow> nat \<Rightarrow> u8 list option \<Rightarrow> nat \<Rightarrow> u32 \<Rightarrow> iattr \<Rightarrow> super_block
   \<Rightarrow> (errno + unit) \<times> super_block" where
  "xattr_set_write fp xinode buffer buffer_size xahash newattrs sb =
     (let newattrs1 = newattrs\<lparr>ia_size := buffer_size, ia_valid := ATTR_SIZE OR ATTR_CTIME\<rparr>
      in case notify_change fp newattrs1 sb of
           (Inl e, sb1) \<Rightarrow> (Inl e, sb1)
         | (Inr _, sb1) \<Rightarrow> xattr_set_loop xinode buffer buffer_size xahash 0 0 sb1)"

text \<open>
  From the label \<open>open_file\<close> on.  The jump back to the label can be taken any number
  of times, so the function is partial: \<open>None\<close> is the call that does not return.
\<close>

partial_function (option) xattr_set_open_file ::
  "inode \<Rightarrow> string \<Rightarrow> u8 list option \<Rightarrow> nat \<Rightarrow> u32 \<Rightarrow> u32 \<Rightarrow> iattr \<Rightarrow> super_block
   \<Rightarrow> ((errno + unit) \<times> super_block) option" where
  "xattr_set_open_file inode name buffer buffer_size xahash flags newattrs sb =
     (case open_xa_file inode name flags sb of
        (Inl e, sb1) \<Rightarrow> Some (Inl e, sb1)
      | (Inr fp, sb1) \<Rightarrow>
          (case d_inode fp of
             None \<Rightarrow> Some (Inl OOPS, sb1)
           | Some x \<Rightarrow>
               (case iget sb1 x of
                  None \<Rightarrow> Some (Inl OOPS, sb1)
                | Some xinode \<Rightarrow>
                    (if i_nlink xinode > 1
                     then
                       (case reiserfs_xattr_del inode name sb1 of
                          (Inl e, sb2) \<Rightarrow> Some (Inl e, sb2)
                        | (Inr _, sb2) \<Rightarrow>
                            xattr_set_open_file inode name buffer buffer_size xahash
                              (if flags AND XATTR_REPLACE \<noteq> 0 then flags AND NOT XATTR_REPLACE
                               else flags) newattrs sb2)
                     else Some (xattr_set_write fp x buffer buffer_size xahash newattrs sb1)))))"

definition reiserfs_xattr_set ::
  "inode \<Rightarrow> string \<Rightarrow> u8 list option \<Rightarrow> nat \<Rightarrow> u32 \<Rightarrow> iattr \<Rightarrow> super_block
   \<Rightarrow> ((errno + unit) \<times> super_block) option" where
  "reiserfs_xattr_set inode name buffer buffer_size flags newattrs sb =
     (if sd_version_v1 inode then Some (Inl EOPNOTSUPP, sb)
      else
        (let xahash = (case buffer of
                         None \<Rightarrow> 0
                       | Some b \<Rightarrow> if buffer_size \<noteq> 0 then xattr_hash b buffer_size else 0)
         in xattr_set_open_file inode name buffer buffer_size xahash flags newattrs sb))"

subsection \<open>Reading an attribute\<close>

text \<open>
  One turn of the loop of \<open>reiserfs_xattr_get\<close>.  It returns the new values of
  \<open>file_pos\<close>, \<open>buffer_pos\<close>, \<open>hash\<close> and the buffer.
\<close>

definition xattr_get_iter ::
  "nat \<Rightarrow> nat \<Rightarrow> nat \<Rightarrow> nat \<Rightarrow> u32 \<Rightarrow> u8 list \<Rightarrow> super_block
   \<Rightarrow> errno + (nat \<times> nat \<times> u32 \<times> u8 list)" where
  "xattr_get_iter xinode isize file_pos buffer_pos hash buffer sb =
     (let chunk = (if isize - file_pos > PAGE_CACHE_SIZE then PAGE_CACHE_SIZE
                   else isize - file_pos)
      in case reiserfs_get_page xinode (drop_bit PAGE_CACHE_SHIFT file_pos) sb of
           Inl e \<Rightarrow> Inl e
         | Inr pg \<Rightarrow>
             (if file_pos = 0
              then
                (let skip = sizeof_reiserfs_xattr_header;
                     file_pos1 = sizeof_reiserfs_xattr_header;
                     chunk1 = size_sub chunk skip
                 in if page_read pg 0 4 sb \<noteq> cpu_to_le32 REISERFS_XATTR_MAGIC then Inl EIO
                    else
                      Inr (file_pos1 + chunk1, buffer_pos + chunk1,
                           le32_to_cpu (page_read pg 4 4 sb),
                           memcpy_at buffer buffer_pos (page_read pg skip chunk1 sb)))
              else
                Inr (file_pos + chunk, buffer_pos + chunk, hash,
                     memcpy_at buffer buffer_pos (page_read pg 0 chunk sb))))"

lemma xattr_get_iter_advance:
  assumes "xattr_get_iter xinode isize file_pos buffer_pos hash buffer sb
             = Inr (file_pos1, buffer_pos1, hash1, buffer1)"
    and "file_pos < isize"
  shows "isize - file_pos1 < isize - file_pos"
  using assms
  by (auto simp: xattr_get_iter_def Let_def PAGE_CACHE_SIZE_def sizeof_reiserfs_xattr_header_def
      size_sub_def split: sum.splits if_splits)

function xattr_get_loop ::
  "nat \<Rightarrow> nat \<Rightarrow> nat \<Rightarrow> nat \<Rightarrow> u32 \<Rightarrow> u8 list \<Rightarrow> super_block
   \<Rightarrow> (errno + u32) \<times> u8 list" where
  "xattr_get_loop xinode isize file_pos buffer_pos hash buffer sb =
     (if file_pos < isize
      then
        (case xattr_get_iter xinode isize file_pos buffer_pos hash buffer sb of
           Inl e \<Rightarrow> (Inl e, buffer)
         | Inr (file_pos1, buffer_pos1, hash1, buffer1) \<Rightarrow>
             xattr_get_loop xinode isize file_pos1 buffer_pos1 hash1 buffer1 sb)
      else (Inr hash, buffer))"
  by pat_completeness auto
termination
proof (relation "measure (\<lambda>(xinode, isize, file_pos, buffer_pos, hash, buffer, sb).
                   isize - file_pos)", goal_cases)
  case 1
  show ?case by simp
next
  case (2 xinode isize file_pos buffer_pos hash buffer sb x file_pos1 y buffer_pos1 z hash1 buffer1)
  then have it: "xattr_get_iter xinode isize file_pos buffer_pos hash buffer sb
                   = Inr (file_pos1, buffer_pos1, hash1, buffer1)"
    by simp
  from xattr_get_iter_advance [OF it] 2 show ?case by simp
qed

declare xattr_get_loop.simps [simp del]

text \<open>
  \<open>reiserfs_xattr_get\<close> returns \<open>err\<close>, the buffer of the caller as the call leaves
  it, and the super block (the lookup may have cached the attribute root).  \<open>isize\<close>
  is a \<open>size_t\<close> and takes the low 32 bits of \<open>i_size\<close>.
\<close>

definition reiserfs_xattr_get ::
  "inode \<Rightarrow> string \<Rightarrow> u8 list option \<Rightarrow> nat \<Rightarrow> super_block
   \<Rightarrow> (errno + int) \<times> u8 list option \<times> super_block" where
  "reiserfs_xattr_get inode name buffer buffer_size sb =
     (if sd_version_v1 inode then (Inl EOPNOTSUPP, buffer, sb)
      else
        (case open_xa_file inode name FL_READONLY sb of
           (Inl e, sb1) \<Rightarrow> (Inl e, buffer, sb1)
         | (Inr fp, sb1) \<Rightarrow>
             (case d_inode fp of
                None \<Rightarrow> (Inl OOPS, buffer, sb1)
              | Some x \<Rightarrow>
                  (case iget sb1 x of
                     None \<Rightarrow> (Inl OOPS, buffer, sb1)
                   | Some xinode \<Rightarrow>
                       (let isize = i_size xinode mod 2 ^ 32
                        in case buffer of
                             None \<Rightarrow>
                               (Inr (ssize_of (size_sub isize sizeof_reiserfs_xattr_header)),
                                buffer, sb1)
                           | Some b \<Rightarrow>
                               (if buffer_size < size_sub isize sizeof_reiserfs_xattr_header
                                then (Inl ERANGE, buffer, sb1)
                                else
                                  (case xattr_get_loop x isize 0 0 0 b sb1 of
                                     (Inl e, b1) \<Rightarrow> (Inl e, Some b1, sb1)
                                   | (Inr hash, b1) \<Rightarrow>
                                       (if xattr_hash b1
                                             (size_sub isize sizeof_reiserfs_xattr_header) \<noteq> hash
                                        then (Inl EIO, Some b1, sb1)
                                        else
                                          (Inr (ssize_of
                                                  (size_sub isize sizeof_reiserfs_xattr_header)),
                                           Some b1, sb1)))))))))"

subsection \<open>Enumerating a directory\<close>

text \<open>
  Modelled from the spec: \<open>search_by_entry_key\<close> (fs/reiserfs/namei.c, not under
  src/) together with the step back that \<open>__xattr_readdir\<close> takes after
  \<open>NAME_NOT_FOUND\<close>: the search gives the entry of the greatest offset that is not
  above the key.  A directory without such an entry gives no directory item.
\<close>

fun entry_at_or_before :: "dirent list \<Rightarrow> nat \<Rightarrow> dirent option" where
  "entry_at_or_before [] pos = None"
| "entry_at_or_before (e # es) pos =
     (case entry_at_or_before es pos of
        None \<Rightarrow> if deh_offset e \<le> pos then Some e else None
      | Some m \<Rightarrow> if deh_offset e \<le> pos \<and> deh_offset m \<le> deh_offset e then Some e else Some m)"

definition search_by_entry_key :: "nat \<Rightarrow> nat \<Rightarrow> super_block \<Rightarrow> errno + dirent option" where
  "search_by_entry_key dir pos sb =
     (case iget sb dir of
        None \<Rightarrow> Inl EIO
      | Some di \<Rightarrow>
          (case s_fault sb (P_search_by_entry_key dir pos) of
             Some _ \<Rightarrow> Inl EIO
           | None \<Rightarrow> Inr (entry_at_or_before (i_entries di) pos)))"

lemma entry_at_or_before_le:
  "entry_at_or_before es pos = Some e \<Longrightarrow> deh_offset e \<le> pos"
  by (induction es arbitrary: e) (auto split: option.splits if_splits)

lemma search_by_entry_key_le:
  "search_by_entry_key dir pos sb = Inr (Some e) \<Longrightarrow> deh_offset e \<le> pos"
  by (auto simp: search_by_entry_key_def entry_at_or_before_le split: option.splits)

text \<open>The entry with the object id of the private root, \<open>.reiserfs_priv\<close>, is not reported.\<close>

definition is_privroot_deh :: "dirent \<Rightarrow> super_block \<Rightarrow> bool" where
  "is_privroot_deh deh sb =
     (s_xattrs sb \<and> \<not> s_old_format_only sb \<and>
      (case priv_root sb of
         None \<Rightarrow> False
       | Some pr \<Rightarrow> d_inode pr = Some (deh_objectid deh)))"

text \<open>
  A filler gets the buffer of its caller and, of an entry, the name, the length of the
  name, the offset and the object id; a negative return value is an error.  The name is
  a pointer into the buffer that the name was copied to, and the buffer is not
  terminated: the argument of the model holds the characters of the buffer from its
  start to its end, of which the first \<open>namelen\<close> are the name.
\<close>

type_synonym 'b filldir_t =
  "'b \<Rightarrow> string \<Rightarrow> nat \<Rightarrow> nat \<Rightarrow> nat \<Rightarrow> super_block
   \<Rightarrow> (errno + unit) \<times> 'b \<times> super_block"

text \<open>
  The loop of \<open>__xattr_readdir\<close> from the position \<open>next_pos\<close> downwards.
  \<open>item_moved\<close> (not under src/) tells whether the tree was rebalanced while
  \<open>reiserfs_kmalloc\<close> slept; its answers are the parameter \<open>mv\<close>, one for each time
  it is asked, and \<open>False\<close> once the list is used up.  \<open>small_buf\<close> holds the 32
  characters of the local array of that name, which the code does not initialise and
  uses again for every name of at most 32 characters; a longer name gets a buffer of its
  own length.
\<close>

definition local_buf_of :: "string \<Rightarrow> string \<Rightarrow> string" where
  "local_buf_of small_buf name =
     (if length name \<le> 32 then name @ drop (length name) small_buf else name)"

function xattr_readdir_loop ::
  "nat \<Rightarrow> 'b filldir_t \<Rightarrow> bool list \<Rightarrow> string \<Rightarrow> 'b \<Rightarrow> nat \<Rightarrow> super_block
   \<Rightarrow> (errno + unit) \<times> 'b \<times> super_block" where
  "xattr_readdir_loop dir filldir mv small_buf buf next_pos sb =
     (if next_pos \<le> DOT_DOT_OFFSET then (Inr (), buf, sb)
      else
        (case search_by_entry_key dir next_pos sb of
           Inl e \<Rightarrow> (Inl EIO, buf, sb)
         | Inr None \<Rightarrow> (Inr (), buf, sb)
         | Inr (Some deh) \<Rightarrow>
             (if deh_offset deh \<le> DOT_DOT_OFFSET then (Inr (), buf, sb)
              else if \<not> deh_visible deh
              then xattr_readdir_loop dir filldir mv small_buf buf (deh_offset deh - 1) sb
              else if length (de_name deh) > s_max_name sb
              then xattr_readdir_loop dir filldir mv small_buf buf (deh_offset deh - 1) sb
              else if is_privroot_deh deh sb
              then xattr_readdir_loop dir filldir mv small_buf buf (deh_offset deh - 1) sb
              else if length (de_name deh) > 32
                      \<and> s_fault sb (P_kmalloc (length (de_name deh))) \<noteq> None
              then (Inl ENOMEM, buf, sb)
              else if length (de_name deh) > 32 \<and> mv \<noteq> [] \<and> hd mv
              then xattr_readdir_loop dir filldir (tl mv) small_buf buf (deh_offset deh) sb
              else
                (case filldir buf (local_buf_of small_buf (de_name deh)) (length (de_name deh))
                        (deh_offset deh) (deh_objectid deh) sb of
                   (Inl _, buf1, sb1) \<Rightarrow> (Inr (), buf1, sb1)
                 | (Inr _, buf1, sb1) \<Rightarrow>
                     xattr_readdir_loop dir filldir
                       (if length (de_name deh) > 32 then tl mv else mv)
                       (if length (de_name deh) > 32 then small_buf
                        else local_buf_of small_buf (de_name deh))
                       buf1 (deh_offset deh - 1) sb1))))"
  by pat_completeness auto

termination
  by (relation "measure (\<lambda>(dir, filldir, mv, small_buf, buf, next_pos, sb).
                            next_pos + length mv)")
     (auto dest!: search_by_entry_key_le simp: DOT_DOT_OFFSET_def neq_Nil_conv)

declare xattr_readdir_loop.simps [simp del]

definition xattr_readdir ::
  "dentry \<Rightarrow> 'b filldir_t \<Rightarrow> 'b \<Rightarrow> bool list \<Rightarrow> string \<Rightarrow> super_block
   \<Rightarrow> (errno + unit) \<times> 'b \<times> super_block" where
  "xattr_readdir fp filler buf mv small_buf sb =
     (case d_inode fp of
        None \<Rightarrow> (Inl OOPS, buf, sb)
      | Some dir \<Rightarrow>
          (case iget sb dir of
             None \<Rightarrow> (Inl OOPS, buf, sb)
           | Some di \<Rightarrow>
               (if \<not> i_isdir di then (Inl ENOTDIR, buf, sb)
                else if i_deaddir di then (Inl ENOENT, buf, sb)
                else xattr_readdir_loop dir filler mv small_buf buf max_reiserfs_offset sb)))"

subsection \<open>Propagating a change of ownership\<close>

record reiserfs_chown_buf =
  cb_inode :: inode
  cb_xadir :: dentry
  cb_attrs :: iattr

definition reiserfs_chown_xattrs_filler :: "reiserfs_chown_buf filldir_t" where
  "reiserfs_chown_xattrs_filler buf name namelen offset ino sb =
     (case lookup_one_len (take namelen name) (cb_xadir buf) sb of
        Inl e \<Rightarrow> (Inl e, buf, sb)
      | Inr xafile \<Rightarrow>
          (case d_inode xafile of
             None \<Rightarrow> (Inl ENODATA, buf, sb)
           | Some f \<Rightarrow>
               (case iget sb f of
                  None \<Rightarrow> (Inl OOPS, buf, sb)
                | Some fi \<Rightarrow>
                    (if \<not> i_isdir fi
                     then (case notify_change xafile (cb_attrs buf) sb of
                             (r, sb1) \<Rightarrow> (r, buf, sb1))
                     else (Inr (), buf, sb)))))"

text \<open>
  The result holds \<open>err\<close>, the structure \<open>attrs\<close> of the caller and the state.  The
  answers of \<open>item_moved\<close> and the content of \<open>small_buf\<close> are parameters, as they are
  of the enumeration.
\<close>

definition reiserfs_chown_xattrs ::
  "bool list \<Rightarrow> string \<Rightarrow> inode \<Rightarrow> iattr \<Rightarrow> super_block
   \<Rightarrow> (errno + unit) \<times> iattr \<times> super_block" where
  "reiserfs_chown_xattrs mv small_buf inode attrs sb =
     (let ia_valid0 = ia_valid attrs
      in if i_priv_object inode \<or> sd_version_v1 inode \<or> \<not> s_xattrs sb
         then (Inr (), attrs, sb)
         else
           (case open_xa_dir inode FL_READONLY sb of
              (Inl e, sb1) \<Rightarrow>
                ((if e \<noteq> ENODATA then Inl e else Inr ()), attrs\<lparr>ia_valid := ia_valid0\<rparr>, sb1)
            | (Inr dir, sb1) \<Rightarrow>
                (if d_inode dir = None then (Inr (), attrs\<lparr>ia_valid := ia_valid0\<rparr>, sb1)
                 else
                   (case dentry_open dir sb1 of
                      Inl e \<Rightarrow> (Inl e, attrs\<lparr>ia_valid := ia_valid0\<rparr>, sb1)
                    | Inr fp \<Rightarrow>
                        (let attrs1 = attrs\<lparr>ia_valid :=
                               ia_valid attrs AND (ATTR_UID OR ATTR_GID OR ATTR_CTIME)\<rparr>;
                             buf = \<lparr>cb_inode = inode, cb_xadir = dir, cb_attrs = attrs1\<rparr>
                         in case xattr_readdir fp reiserfs_chown_xattrs_filler buf mv small_buf
                                   sb1 of
                              (Inl e, buf1, sb2) \<Rightarrow> (Inl e, attrs1\<lparr>ia_valid := ia_valid0\<rparr>, sb2)
                            | (Inr _, buf1, sb2) \<Rightarrow>
                                (case notify_change dir attrs1 sb2 of
                                   (r, sb3) \<Rightarrow> (r, attrs1\<lparr>ia_valid := ia_valid0\<rparr>, sb3)))))))"

subsection \<open>Listing the attributes\<close>

text \<open>
  A handler of the plugin infrastructure, as far as listing needs it: its prefix and
  what its \<open>list\<close> operation writes for a name (the value it returns is the length of
  that).  The chain \<open>xattr_handlers\<close> is a parameter.
\<close>

record reiserfs_xattr_handler =
  xah_prefix :: string
  xah_list :: "inode \<Rightarrow> string \<Rightarrow> string"

text \<open>
  \<open>strncmp\<close> of a prefix and the first \<open>strlen (prefix)\<close> characters at \<open>name\<close>.  In
  \<open>reiserfs_listxattr_filler\<close> the argument is the buffer of the enumeration, so the
  characters after the name, left there by an earlier name or never set, are compared as
  well when the prefix is longer than the name.  What lies behind the end of the buffer
  is not a part of the model: a prefix that is longer than the buffer does not match.
\<close>

definition find_xattr_handler_prefix ::
  "reiserfs_xattr_handler list \<Rightarrow> string \<Rightarrow> reiserfs_xattr_handler option" where
  "find_xattr_handler_prefix xattr_handlers name =
     find (\<lambda>xah. take (length (xah_prefix xah)) name = xah_prefix xah) xattr_handlers"

text \<open>
  \<open>r_pos\<close> and \<open>r_size\<close> are of type \<open>int\<close>; \<open>r_buf\<close> is the buffer of the
  caller, \<open>None\<close> for a null pointer.  \<open>name[0]\<close> and \<open>name[1]\<close> are read from the
  buffer of the enumeration; \<open>list\<close> gets the name with its length.
\<close>

record reiserfs_listxattr_buf =
  r_pos :: int
  r_size :: int
  r_buf :: "string option"
  r_inode :: inode

definition NUL :: char where "NUL = CHR 0x00"

text \<open>Copying \<open>src\<close> into a buffer of characters at \<open>pos\<close>.\<close>

definition strcpy_at :: "string \<Rightarrow> nat \<Rightarrow> string \<Rightarrow> string" where
  "strcpy_at b pos src =
     take pos (b @ replicate (pos - length b) NUL) @ src @ drop (pos + length src) b"

definition reiserfs_listxattr_filler ::
  "reiserfs_xattr_handler list \<Rightarrow> reiserfs_listxattr_buf filldir_t" where
  "reiserfs_listxattr_filler xattr_handlers b name namelen offset ino sb =
     (if take 1 name \<noteq> ''.''
         \<or> (namelen \<noteq> 1 \<and> (take 1 (drop 1 name) \<noteq> ''.'' \<or> namelen \<noteq> 2))
      then
        (case find_xattr_handler_prefix xattr_handlers name of
           None \<Rightarrow> (Inr (), b, sb)
         | Some xah \<Rightarrow>
             (let len = int (length (xah_list xah (r_inode b) (take namelen name)))
              in if len \<noteq> 0
                 then
                   (let b1 = (if r_pos b + len + 1 \<le> r_size b
                              then b\<lparr>r_buf := map_option
                                     (\<lambda>p. strcpy_at p (nat (r_pos b))
                                            (xah_list xah (r_inode b) (take namelen name)
                                             @ [NUL]))
                                     (r_buf b)\<rparr>
                              else b)
                    in (Inr (), b1\<lparr>r_pos := r_pos b + len + 1\<rparr>, sb))
                 else (Inr (), b, sb)))
      else (Inr (), b, sb))"

text \<open>
  The result holds the return value, the buffer of the caller and the state.  The
  object is \<open>dentry->d_inode\<close>, \<open>None\<close> for a negative dentry.
\<close>

definition reiserfs_listxattr ::
  "reiserfs_xattr_handler list \<Rightarrow> bool list \<Rightarrow> string \<Rightarrow> inode option \<Rightarrow> string option
   \<Rightarrow> nat \<Rightarrow> super_block \<Rightarrow> (errno + int) \<times> string option \<times> super_block" where
  "reiserfs_listxattr xattr_handlers mv small_buf d_inode_of buffer bsize sb =
     (case d_inode_of of
        None \<Rightarrow> (Inl EINVAL, buffer, sb)
      | Some inode \<Rightarrow>
          (if \<not> s_xattrs sb \<or> sd_version_v1 inode then (Inl EOPNOTSUPP, buffer, sb)
           else
             (case open_xa_dir inode FL_READONLY sb of
                (Inl e, sb1) \<Rightarrow> ((if e = ENODATA then Inr 0 else Inl e), buffer, sb1)
              | (Inr dir, sb1) \<Rightarrow>
                  (case dentry_open dir sb1 of
                     Inl e \<Rightarrow> (Inl e, buffer, sb1)
                   | Inr fp \<Rightarrow>
                       (let buf = \<lparr>r_pos = 0,
                                   r_size = (if buffer \<noteq> None then ssize_of (bsize mod 2 ^ 32)
                                             else 0),
                                   r_buf = buffer, r_inode = inode\<rparr>
                        in case xattr_readdir fp (reiserfs_listxattr_filler xattr_handlers)
                                  buf mv small_buf sb1 of
                             (Inl e, buf1, sb2) \<Rightarrow> (Inl e, r_buf buf1, sb2)
                           | (Inr _, buf1, sb2) \<Rightarrow>
                               (if r_pos buf1 > r_size buf1 \<and> buffer \<noteq> None
                                then (Inl ERANGE, r_buf buf1, sb2)
                                else (Inr (r_pos buf1), r_buf buf1, sb2)))))))"

text \<open>No primitive of the collaborators fails.\<close>

definition no_fault :: "super_block \<Rightarrow> bool" where
  "no_fault sb = (\<forall>p. s_fault sb p = None)"

text \<open>The weight of the byte at index \<open>i\<close> in its 16-bit little-endian word.\<close>

definition byte_weight :: "nat \<Rightarrow> nat" where
  "byte_weight i = (if even i then 1 else 256)"

text \<open>
  The attribute directory of an object, and an attribute file in it, are \<^emph>\<open>resolved\<close>
  in a state when the attribute root is cached and the lookups from it find them.
\<close>

definition xa_dir_resolved :: "inode \<Rightarrow> dentry \<Rightarrow> super_block \<Rightarrow> bool" where
  "xa_dir_resolved inode xadir s =
     (\<exists>xaroot. xattr_root s = Some xaroot
        \<and> lookup_one_len (namebuf inode) xaroot s = Inr xadir \<and> d_inode xadir \<noteq> None)"

definition xa_file_resolved :: "inode \<Rightarrow> string \<Rightarrow> dentry \<Rightarrow> super_block \<Rightarrow> bool" where
  "xa_file_resolved inode name xafile s =
     (\<exists>xadir. xa_dir_resolved inode xadir s
        \<and> lookup_one_len name xadir s = Inr xafile \<and> d_inode xafile \<noteq> None)"

subsection \<open>A small file system\<close>

text \<open>
  The file system of the comment at the head of xattr.c: the object 12648430
  (\<open>C0FFEE\<close>) of generation 0 has its attributes under
  \<open>/.reiserfs_priv/xattrs/C0FFEE.0\<close>.  Inode 1 is the private root, 2 the attribute
  root, 3 the directory of the object.  It holds the attribute \<open>user.a\<close> (inode 4),
  a directory \<open>sub\<close> (inode 5), a file \<open>user.alien\<close> that is not flagged as a part of
  the private tree (inode 6), an attribute \<open>user.shared\<close> with two links (inode 7) and
  two damaged attributes (inodes 8 and 9).
\<close>

definition ex_dir :: "nat \<Rightarrow> nat \<Rightarrow> nat \<Rightarrow> dirent list \<Rightarrow> inode" where
  "ex_dir n parent nlink es =
     \<lparr>k_objectid = n, i_generation = 0, sd_version_v1 = False, i_priv_object = True,
      i_isdir = True, i_deaddir = False, i_mode = S_IRWXU, i_nlink = nlink, i_size = 0,
      i_data = [], i_uid = 0, i_gid = 0, i_atime = 0, i_mtime = 0, i_ctime = 0,
      i_entries =
        \<lparr>deh_offset = DOT_OFFSET, deh_objectid = n, de_name = ''.'', deh_visible = True\<rparr> #
        \<lparr>deh_offset = DOT_DOT_OFFSET, deh_objectid = parent, de_name = ''..'',
         deh_visible = True\<rparr> # es\<rparr>"

definition ex_file :: "nat \<Rightarrow> bool \<Rightarrow> nat \<Rightarrow> u8 list \<Rightarrow> inode" where
  "ex_file n priv nlink bytes =
     \<lparr>k_objectid = n, i_generation = 0, sd_version_v1 = False, i_priv_object = priv,
      i_isdir = False, i_deaddir = False, i_mode = S_IRWXU + S_IFREG, i_nlink = nlink,
      i_size = length bytes, i_data = bytes, i_uid = 0, i_gid = 0, i_atime = 0, i_mtime = 0,
      i_ctime = 0, i_entries = []\<rparr>"

definition ex_entry :: "nat \<Rightarrow> string \<Rightarrow> nat \<Rightarrow> dirent" where
  "ex_entry off name n = \<lparr>deh_offset = off, deh_objectid = n, de_name = name, deh_visible = True\<rparr>"

definition ex_inode :: inode where
  "ex_inode = (ex_file 12648430 False 1 [])"

definition ex_xadir :: dentry where
  "ex_xadir = \<lparr>d_name = ''C0FFEE.0'', d_inode = Some 3\<rparr>"

definition ex_payload :: "u8 list" where
  "ex_payload = [0x68, 0x69, 0x21]"

definition ex_attr :: "u8 list" where
  "ex_attr = cpu_to_le32 REISERFS_XATTR_MAGIC @ cpu_to_le32 (xattr_hash ex_payload 3) @ ex_payload"

text \<open>The same attribute with a wrong magic, and with one byte of the value changed.\<close>

definition ex_badmagic :: "u8 list" where
  "ex_badmagic = [0, 0, 0, 0] @ cpu_to_le32 (xattr_hash ex_payload 3) @ ex_payload"

definition ex_rotten :: "u8 list" where
  "ex_rotten = cpu_to_le32 REISERFS_XATTR_MAGIC @ cpu_to_le32 (xattr_hash ex_payload 3)
                @ ex_payload[1 := 0x6f]"

definition ex_sb :: super_block where
  "ex_sb =
     \<lparr>s_inodes =
        [(1, ex_dir 1 0 3 [ex_entry 3 ''xattrs'' 2]),
         (2, ex_dir 2 1 3 [ex_entry 3 ''C0FFEE.0'' 3]),
         (3, ex_dir 3 2 3
               [ex_entry 3 ''user.a'' 4, ex_entry 4 ''sub'' 5, ex_entry 5 ''user.alien'' 6,
                ex_entry 6 ''user.shared'' 7, ex_entry 7 ''user.badmagic'' 8,
                ex_entry 8 ''user.rotten'' 9]),
         (4, ex_file 4 True 1 ex_attr),
         (5, ex_dir 5 3 2 []),
         (6, ex_file 6 False 1 []),
         (7, ex_file 7 True 2 ex_attr),
         (8, ex_file 8 True 1 ex_badmagic),
         (9, ex_file 9 True 1 ex_rotten)],
      priv_root = Some \<lparr>d_name = PRIVROOT_NAME, d_inode = Some 1\<rparr>,
      xattr_root = None,
      s_xattrs = True, s_old_format_only = False, s_max_name = 255,
      s_fault = (\<lambda>p. None)\<rparr>"

text \<open>What the stack may hold where \<open>reiserfs_xattr_set\<close> has its \<open>newattrs\<close>.\<close>

definition ex_newattrs :: iattr where
  "ex_newattrs = \<lparr>ia_valid = 0xdead, ia_mode = 7, ia_uid = 6, ia_gid = 5, ia_size = 4,
                   ia_atime = 3, ia_mtime = 2, ia_ctime = 1\<rparr>"

text \<open>The same file system once a lookup has cached the attribute root.\<close>

definition ex_sb1 :: super_block where
  "ex_sb1 = ex_sb\<lparr>xattr_root := Some \<lparr>d_name = XAROOT_NAME, d_inode = Some 2\<rparr>\<rparr>"

text \<open>A file system that has its private root and nothing else.\<close>

definition ex_fresh :: super_block where
  "ex_fresh =
     \<lparr>s_inodes = [(1, ex_dir 1 0 2 [])],
      priv_root = Some \<lparr>d_name = PRIVROOT_NAME, d_inode = Some 1\<rparr>,
      xattr_root = None,
      s_xattrs = True, s_old_format_only = False, s_max_name = 255,
      s_fault = (\<lambda>p. None)\<rparr>"

text \<open>An entry that \<open>__xattr_readdir\<close> does not pass over.\<close>

definition deh_reported :: "dirent \<Rightarrow> super_block \<Rightarrow> bool" where
  "deh_reported deh sb =
     (deh_visible deh \<and> length (de_name deh) \<le> s_max_name sb \<and> \<not> is_privroot_deh deh sb)"




subsection \<open>What a change of ownership may touch\<close>

text \<open>The second inode is the first but for the owner, the group and the change time.\<close>

definition owner_frame :: "inode \<Rightarrow> inode \<Rightarrow> bool" where
  "owner_frame i i' = (i' = i\<lparr>i_uid := i_uid i', i_gid := i_gid i', i_ctime := i_ctime i'\<rparr>)"

text \<open>No inode comes or goes, and every inode keeps all but those three fields.\<close>

definition chown_frame :: "super_block \<Rightarrow> super_block \<Rightarrow> bool" where
  "chown_frame sb sb' =
     (\<forall>n. case iget sb n of
            None \<Rightarrow> iget sb' n = None
          | Some i \<Rightarrow> (case iget sb' n of None \<Rightarrow> False | Some i' \<Rightarrow> owner_frame i i'))"

text \<open>
  The entries of an attribute directory that the change is for: those that the
  enumeration reports and that are no directories.
\<close>

definition chown_entries :: "dirent list \<Rightarrow> super_block \<Rightarrow> dirent list" where
  "chown_entries es sb =
     filter (\<lambda>e. DOT_DOT_OFFSET < deh_offset e \<and> deh_reported e sb
                 \<and> (case iget sb (deh_objectid e) of None \<Rightarrow> False | Some i \<Rightarrow> \<not> i_isdir i))
       es"

text \<open>The attribute-change set as \<open>reiserfs_chown_xattrs\<close> passes it on.\<close>

definition chown_attrs :: "iattr \<Rightarrow> iattr" where
  "chown_attrs attrs = attrs\<lparr>ia_valid := ia_valid attrs AND (ATTR_UID OR ATTR_GID OR ATTR_CTIME)\<rparr>"

text \<open>
  The state \<open>s\<close> of a change of ownership that has come down to the position \<open>p\<close> of
  the directory with the entries \<open>es\<close>, from the state \<open>s0\<close>: the change has been
  applied to the inodes of the entries above \<open>p\<close> and nothing else is different.
\<close>

definition chown_done :: "iattr \<Rightarrow> dirent list \<Rightarrow> nat \<Rightarrow> super_block \<Rightarrow> super_block \<Rightarrow> bool" where
  "chown_done a es p s0 s =
     (s\<lparr>s_inodes := s_inodes s0\<rparr> = s0 \<and>
      (\<forall>n. iget s n =
            (if n \<in> deh_objectid ` set (filter (\<lambda>e. p < deh_offset e) (chown_entries es s0))
             then map_option (inode_setattr (chown_attrs a)) (iget s0 n)
             else iget s0 n)))"

section \<open>Properties\<close>

subsection \<open>Facts about the collaborators\<close>

lemma map_of_alist_update: "map_of (alist_update k v ps) = (map_of ps)(k \<mapsto> v)"
  by (induction ps) auto

lemma iget_iput: "iget (iput n i sb) m = (if m = n then Some i else iget sb m)"
  by (simp add: iget_def iput_def map_of_alist_update)

lemma iput_fields:
  "priv_root (iput n i sb) = priv_root sb"
  "xattr_root (iput n i sb) = xattr_root sb"
  "s_fault (iput n i sb) = s_fault sb"
  "s_xattrs (iput n i sb) = s_xattrs sb"
  "s_old_format_only (iput n i sb) = s_old_format_only sb"
  "s_max_name (iput n i sb) = s_max_name sb"
  by (simp_all add: iput_def)

lemma find_filter_None: "(\<And>e. Q e \<Longrightarrow> \<not> P e) \<Longrightarrow> find P (filter Q es) = None"
  by (induction es) auto

lemma hex_digits_numeral:
  "hex_digits (numeral k) n =
     (if n < 16 then [hex_digit n] else hex_digits (pred_numeral k) (n div 16) @ [hex_digit n])"
  by (simp add: numeral_eq_Suc)

lemmas ex_open_defs =
  open_xa_dir_def open_xa_dir_root_def get_xa_root_def get_xa_root_aux_def create_xa_root_def
  XAROOT_NAME_def PRIVROOT_NAME_def namebuf_def fmt_X_def hex_digit_def hex_digits_numeral
  FL_READONLY_def XATTR_CREATE_def XATTR_REPLACE_def

lemmas ex_defs =
  ex_sb_def ex_dir_def ex_file_def ex_entry_def ex_inode_def ex_xadir_def ex_payload_def
  iget_def iput_def lookup_one_len_def DOT_OFFSET_def DOT_DOT_OFFSET_def

subsection \<open>Deleting an attribute\<close>

text \<open>
  C6.  \<open>__reiserfs_xattr_del\<close> looks the name up in the attribute directory.  With no
  entry of that name it fails with \<open>ENODATA\<close>.  An entry that is a directory is left
  alone.  A file that is not flagged as a part of the private tree makes it fail with
  \<open>EIO\<close>; nothing is unlinked.  Any other file is unlinked: when the unlink does not
  fail, the name resolves to nothing afterwards and the file has one link less.
  \<open>reiserfs_xattr_del\<close> does this in the attribute directory of the object.
\<close>

theorem reiserfs_xattr_del_cases:
  "(lookup_one_len name xadir sb = Inr fdentry \<and> d_inode fdentry = None
      \<longrightarrow> reiserfs_xattr_del_aux xadir name sb = (Inl ENODATA, sb))
   \<and> (lookup_one_len name xadir sb = Inr fdentry \<and> d_inode fdentry = Some f
        \<and> iget sb f = Some fi \<and> i_isdir fi
      \<longrightarrow> reiserfs_xattr_del_aux xadir name sb = (Inr (), sb))
   \<and> (lookup_one_len name xadir sb = Inr fdentry \<and> d_inode fdentry = Some f
        \<and> iget sb f = Some fi \<and> \<not> i_isdir fi \<and> \<not> i_priv_object fi
      \<longrightarrow> reiserfs_xattr_del_aux xadir name sb = (Inl EIO, sb))
   \<and> (lookup_one_len name xadir sb = Inr fdentry \<and> d_inode fdentry = Some f
        \<and> iget sb f = Some fi \<and> \<not> i_isdir fi \<and> i_priv_object fi
        \<and> d_inode xadir = Some dir
      \<longrightarrow> reiserfs_xattr_del_aux xadir name sb = i_op_unlink dir fdentry sb
          \<and> (s_fault sb (P_unlink dir name) = None
               \<longrightarrow> (\<exists>sb1. i_op_unlink dir fdentry sb = (Inr (), sb1)
                      \<and> lookup_one_len name xadir sb1 = Inr \<lparr>d_name = name, d_inode = None\<rparr>
                      \<and> map_option i_nlink (iget sb1 f) = Some (i_nlink fi - 1))))
   \<and> (open_xa_dir inode FL_READONLY sb = (Inr xadir, sb2)
      \<longrightarrow> reiserfs_xattr_del inode name sb = reiserfs_xattr_del_aux xadir name sb2)"
proof (intro conjI impI)
  assume "lookup_one_len name xadir sb = Inr fdentry \<and> d_inode fdentry = Some f
        \<and> iget sb f = Some fi \<and> \<not> i_isdir fi \<and> i_priv_object fi
        \<and> d_inode xadir = Some dir"
    and "s_fault sb (P_unlink dir name) = None"
  then show "\<exists>sb1. i_op_unlink dir fdentry sb = (Inr (), sb1)
                      \<and> lookup_one_len name xadir sb1 = Inr \<lparr>d_name = name, d_inode = None\<rparr>
                      \<and> map_option i_nlink (iget sb1 f) = Some (i_nlink fi - 1)"
    by (auto simp: lookup_one_len_def i_op_unlink_def iget_iput iput_fields find_filter_None
        Let_def split: option.splits if_splits)
qed (simp_all add: reiserfs_xattr_del_aux_def reiserfs_xattr_del_def)

theorem reiserfs_xattr_del_cases_witness:
  "lookup_one_len ''user.none'' ex_xadir ex_sb = Inr \<lparr>d_name = ''user.none'', d_inode = None\<rparr>
   \<and> reiserfs_xattr_del_aux ex_xadir ''user.none'' ex_sb = (Inl ENODATA, ex_sb)
   \<and> lookup_one_len ''sub'' ex_xadir ex_sb = Inr \<lparr>d_name = ''sub'', d_inode = Some 5\<rparr>
   \<and> map_option i_isdir (iget ex_sb 5) = Some True
   \<and> reiserfs_xattr_del_aux ex_xadir ''sub'' ex_sb = (Inr (), ex_sb)
   \<and> lookup_one_len ''user.alien'' ex_xadir ex_sb
       = Inr \<lparr>d_name = ''user.alien'', d_inode = Some 6\<rparr>
   \<and> map_option i_priv_object (iget ex_sb 6) = Some False
   \<and> reiserfs_xattr_del_aux ex_xadir ''user.alien'' ex_sb = (Inl EIO, ex_sb)
   \<and> lookup_one_len ''user.a'' ex_xadir ex_sb = Inr \<lparr>d_name = ''user.a'', d_inode = Some 4\<rparr>
   \<and> (\<exists>sb1. reiserfs_xattr_del_aux ex_xadir ''user.a'' ex_sb = (Inr (), sb1)
          \<and> lookup_one_len ''user.a'' ex_xadir sb1 = Inr \<lparr>d_name = ''user.a'', d_inode = None\<rparr>
          \<and> map_option i_nlink (iget sb1 4) = Some 0)
   \<and> (\<exists>sb2. open_xa_dir ex_inode FL_READONLY ex_sb = (Inr ex_xadir, sb2)
          \<and> reiserfs_xattr_del ex_inode ''user.none'' ex_sb
              = reiserfs_xattr_del_aux ex_xadir ''user.none'' sb2)"
proof -
  note c = reiserfs_xattr_del_cases
  have l1: "lookup_one_len ''user.none'' ex_xadir ex_sb
              = Inr \<lparr>d_name = ''user.none'', d_inode = None\<rparr>"
    and l2: "lookup_one_len ''sub'' ex_xadir ex_sb = Inr \<lparr>d_name = ''sub'', d_inode = Some 5\<rparr>"
    and l3: "lookup_one_len ''user.alien'' ex_xadir ex_sb
              = Inr \<lparr>d_name = ''user.alien'', d_inode = Some 6\<rparr>"
    and l4: "lookup_one_len ''user.a'' ex_xadir ex_sb
              = Inr \<lparr>d_name = ''user.a'', d_inode = Some 4\<rparr>"
    by (simp_all add: ex_defs)
  have i5: "iget ex_sb 5 = Some (ex_dir 5 3 2 [])"
    and i6: "iget ex_sb 6 = Some (ex_file 6 False 1 [])"
    and i4': "iget ex_sb 4 = Some (ex_file 4 True 1 ex_attr)"
    by (simp_all add: ex_sb_def iget_def)
  have r1: "reiserfs_xattr_del_aux ex_xadir ''user.none'' ex_sb = (Inl ENODATA, ex_sb)"
    using c [where name = "''user.none''" and xadir = ex_xadir and sb = ex_sb
               and fdentry = "\<lparr>d_name = ''user.none'', d_inode = None\<rparr>"] l1
    by simp
  have r2: "reiserfs_xattr_del_aux ex_xadir ''sub'' ex_sb = (Inr (), ex_sb)"
    using c [where name = "''sub''" and xadir = ex_xadir and sb = ex_sb
               and fdentry = "\<lparr>d_name = ''sub'', d_inode = Some 5\<rparr>" and f = 5
               and fi = "ex_dir 5 3 2 []"] l2 i5
    by (simp add: ex_dir_def)
  have r3: "reiserfs_xattr_del_aux ex_xadir ''user.alien'' ex_sb = (Inl EIO, ex_sb)"
    using c [where name = "''user.alien''" and xadir = ex_xadir and sb = ex_sb
               and fdentry = "\<lparr>d_name = ''user.alien'', d_inode = Some 6\<rparr>" and f = 6
               and fi = "ex_file 6 False 1 []"] l3 i6
    by (simp add: ex_file_def)
  have x: "d_inode ex_xadir = Some 3" by (simp add: ex_xadir_def)
  have nf: "s_fault ex_sb (P_unlink 3 ''user.a'') = None" by (simp add: ex_sb_def)
  have fi: "\<not> i_isdir (ex_file 4 True 1 ex_attr)" "i_priv_object (ex_file 4 True 1 ex_attr)"
    "i_nlink (ex_file 4 True 1 ex_attr) = 1"
    by (simp_all add: ex_file_def)
  have r4: "\<exists>sb1. reiserfs_xattr_del_aux ex_xadir ''user.a'' ex_sb = (Inr (), sb1)
          \<and> lookup_one_len ''user.a'' ex_xadir sb1 = Inr \<lparr>d_name = ''user.a'', d_inode = None\<rparr>
          \<and> map_option i_nlink (iget sb1 4) = Some 0"
    using c [where name = "''user.a''" and xadir = ex_xadir and sb = ex_sb
               and fdentry = "\<lparr>d_name = ''user.a'', d_inode = Some 4\<rparr>" and f = 4
               and fi = "ex_file 4 True 1 ex_attr" and dir = 3] l4 i4' x nf fi
    by simp
  have o: "open_xa_dir ex_inode FL_READONLY ex_sb
             = (Inr ex_xadir, ex_sb\<lparr>xattr_root := Some \<lparr>d_name = XAROOT_NAME, d_inode = Some 2\<rparr>\<rparr>)"
    by (simp add: ex_defs ex_open_defs)
  have r5: "\<exists>sb2. open_xa_dir ex_inode FL_READONLY ex_sb = (Inr ex_xadir, sb2)
          \<and> reiserfs_xattr_del ex_inode ''user.none'' ex_sb
              = reiserfs_xattr_del_aux ex_xadir ''user.none'' sb2"
    using c [where inode = ex_inode and xadir = ex_xadir and sb = ex_sb and name = "''user.none''"
               and ?sb2.0 = "ex_sb\<lparr>xattr_root := Some \<lparr>d_name = XAROOT_NAME, d_inode = Some 2\<rparr>\<rparr>"] o
    by simp
  show ?thesis
    using l1 l2 l3 l4 i5 i6 r1 r2 r3 r4 r5 by (simp add: ex_dir_def ex_file_def)
qed

subsection \<open>Opening without creating\<close>

lemma lookup_one_len_xattr_root [simp]:
  "lookup_one_len name base (sb\<lparr>xattr_root := x\<rparr>) = lookup_one_len name base sb"
  by (simp add: lookup_one_len_def iget_def cong: option.case_cong)

lemma dentry_open_xattr_root [simp]:
  "dentry_open de (sb\<lparr>xattr_root := x\<rparr>) = dentry_open de sb"
  by (simp add: dentry_open_def cong: option.case_cong)

lemma iget_xattr_root [simp]: "iget (sb\<lparr>xattr_root := x\<rparr>) = iget sb"
  by (simp add: iget_def fun_eq_iff)

lemma get_xa_root_cases:
  assumes "get_xa_root sb = (r, sb1)"
  shows "(xattr_root sb \<noteq> None \<and> r = Inr (xattr_root sb) \<and> sb1 = sb)
       \<or> (xattr_root sb = None \<and> (\<exists>x. r = Inr (Some x) \<and> sb1 = sb\<lparr>xattr_root := Some x\<rparr>))
       \<or> (xattr_root sb = None \<and> (\<forall>x. r \<noteq> Inr (Some x)) \<and> sb1 = sb)"
  using assms
  by (auto simp: get_xa_root_def get_xa_root_aux_def split: option.splits sum.splits)

lemma get_xa_root_idem:
  assumes "get_xa_root sb = (r, sb1)"
  shows "get_xa_root sb1 = (r, sb1)"
  using assms
  by (auto simp: get_xa_root_def get_xa_root_aux_def split: option.splits sum.splits)

lemma open_xa_dir_root_ro:
  "flags \<noteq> 0 \<Longrightarrow> flags AND XATTR_CREATE = 0 \<Longrightarrow>
   open_xa_dir_root flags sb =
     (case get_xa_root sb of
        (Inl e, sb1) \<Rightarrow> (Inl e, sb1)
      | (Inr (Some xaroot), sb1) \<Rightarrow> (Inr xaroot, sb1)
      | (Inr None, sb1) \<Rightarrow> (Inl ENODATA, sb1))"
  by (simp add: open_xa_dir_root_def split: prod.splits sum.splits option.splits)

lemma FL_READONLY_flags [simp]: "FL_READONLY \<noteq> 0" "FL_READONLY AND XATTR_CREATE = 0"
  "FL_READONLY AND XATTR_REPLACE = 0" "FL_READONLY AND FL_READONLY \<noteq> 0"
  by (simp_all add: FL_READONLY_def XATTR_CREATE_def XATTR_REPLACE_def)

lemma open_xa_dir_ro:
  "flags \<noteq> 0 \<Longrightarrow> flags AND XATTR_CREATE = 0 \<Longrightarrow>
   open_xa_dir inode flags sb =
     (case get_xa_root sb of
        (Inl e, sb1) \<Rightarrow> (Inl e, sb1)
      | (Inr None, sb1) \<Rightarrow> (Inl ENODATA, sb1)
      | (Inr (Some xaroot), sb1) \<Rightarrow>
          (case lookup_one_len (namebuf inode) xaroot sb1 of
             Inl e \<Rightarrow> (Inl e, sb1)
           | Inr xadir \<Rightarrow> if d_inode xadir = None then (Inl ENODATA, sb1) else (Inr xadir, sb1)))"
  by (simp add: open_xa_dir_def open_xa_dir_root_ro split: prod.splits sum.splits option.splits)

lemma open_xa_dir_no_create:
  "flags \<noteq> 0 \<Longrightarrow> flags AND XATTR_CREATE = 0 \<Longrightarrow> open_xa_dir inode flags sb = open_xa_dir inode FL_READONLY sb"
  by (simp add: open_xa_dir_ro)

lemma open_xa_dir_ro_cache:
  assumes "open_xa_dir inode FL_READONLY sb = (r, sb1)"
  shows "sb1 = sb \<or> (\<exists>x. xattr_root sb = None \<and> sb1 = sb\<lparr>xattr_root := Some x\<rparr>)"
proof -
  obtain r0 sb0 where g: "get_xa_root sb = (r0, sb0)" by (cases "get_xa_root sb")
  from assms g have "sb1 = sb0"
    by (auto simp: open_xa_dir_ro split: sum.splits option.splits if_splits)
  with get_xa_root_cases [OF g] show ?thesis by auto
qed

lemma open_xa_dir_ro_idem:
  assumes "open_xa_dir inode FL_READONLY sb = (r, sb1)"
  shows "open_xa_dir inode FL_READONLY sb1 = (r, sb1)"
proof -
  obtain r0 sb0 where g: "get_xa_root sb = (r0, sb0)" by (cases "get_xa_root sb")
  from assms g have s: "sb1 = sb0"
    by (auto simp: open_xa_dir_ro split: sum.splits option.splits if_splits)
  from get_xa_root_idem [OF g] s have "get_xa_root sb1 = (r0, sb1)" by simp
  with assms g s show ?thesis by (simp add: open_xa_dir_ro)
qed

lemma open_xa_dir_ro_success:
  assumes "open_xa_dir inode FL_READONLY sb = (Inr xadir, sb1)"
  shows "open_xa_dir inode flags sb = (Inr xadir, sb1)"
  using assms
  by (auto simp: open_xa_dir_ro open_xa_dir_def open_xa_dir_root_def
      split: sum.splits option.splits if_splits prod.splits)

lemma get_xa_file_dentry_no_create:
  assumes "flags AND XATTR_REPLACE \<noteq> 0" and "flags AND XATTR_CREATE = 0"
  shows "get_xa_file_dentry inode name flags sb = get_xa_file_dentry inode name FL_READONLY sb"
proof -
  from assms have "flags \<noteq> 0" by auto
  with assms show ?thesis
    by (simp add: get_xa_file_dentry_def open_xa_dir_no_create [of flags]
        split: prod.splits sum.splits option.splits)
qed

lemma get_xa_file_dentry_ro_cache:
  assumes "get_xa_file_dentry inode name FL_READONLY sb = (r, sb1)"
  shows "\<exists>r0. open_xa_dir inode FL_READONLY sb = (r0, sb1)"
  using assms
  by (auto simp: get_xa_file_dentry_def split: prod.splits sum.splits option.splits if_splits)

lemma get_xa_file_dentry_ro_idem:
  assumes "get_xa_file_dentry inode name FL_READONLY sb = (r, sb1)"
  shows "get_xa_file_dentry inode name FL_READONLY sb1 = (r, sb1)"
proof -
  from get_xa_file_dentry_ro_cache [OF assms] obtain r0
    where o: "open_xa_dir inode FL_READONLY sb = (r0, sb1)" ..
  from open_xa_dir_ro_idem [OF o] o assms show ?thesis
    by (simp add: get_xa_file_dentry_def)
qed

lemma xattr_root_update_inodes:
  "sb1 = sb \<or> (\<exists>x. xattr_root sb = None \<and> sb1 = sb\<lparr>xattr_root := Some x\<rparr>)
   \<Longrightarrow> s_inodes sb1 = s_inodes sb \<and> s_fault sb1 = s_fault sb \<and> priv_root sb1 = priv_root sb"
  by auto

lemma reiserfs_xattr_get_ro_idem:
  assumes "open_xa_dir inode FL_READONLY sb = (r, sb1)" and "\<not> sd_version_v1 inode"
  shows "reiserfs_xattr_get inode name b n sb1 = reiserfs_xattr_get inode name b n sb"
proof -
  have "get_xa_file_dentry inode name FL_READONLY sb1
          = get_xa_file_dentry inode name FL_READONLY sb"
    using assms(1) open_xa_dir_ro_idem [OF assms(1)] by (simp add: get_xa_file_dentry_def)
  then have "open_xa_file inode name FL_READONLY sb1 = open_xa_file inode name FL_READONLY sb"
    by (simp add: open_xa_file_def)
  then show ?thesis using assms(2) by (simp add: reiserfs_xattr_get_def)
qed

lemma ex_open_xa_dir:
  "open_xa_dir ex_inode FL_READONLY ex_sb = (Inr ex_xadir, ex_sb1)"
  by (simp add: ex_defs ex_open_defs ex_sb1_def)

lemma ex_sb1_lookup [simp]: "lookup_one_len name base ex_sb1 = lookup_one_len name base ex_sb"
  by (simp add: ex_sb1_def)

lemma ex_lookup:
  "lookup_one_len ''user.a'' ex_xadir ex_sb = Inr \<lparr>d_name = ''user.a'', d_inode = Some 4\<rparr>"
  "lookup_one_len ''user.none'' ex_xadir ex_sb = Inr \<lparr>d_name = ''user.none'', d_inode = None\<rparr>"
  "lookup_one_len ''user.shared'' ex_xadir ex_sb
     = Inr \<lparr>d_name = ''user.shared'', d_inode = Some 7\<rparr>"
  by (simp_all add: ex_defs)

lemma ex_xadir_inode [simp]: "d_inode ex_xadir = Some 3"
  by (simp add: ex_xadir_def)

lemma ex_get_xa_file_dentry:
  "get_xa_file_dentry ex_inode ''user.a'' FL_READONLY ex_sb
     = (Inr \<lparr>d_name = ''user.a'', d_inode = Some 4\<rparr>, ex_sb1)"
  "get_xa_file_dentry ex_inode ''user.none'' FL_READONLY ex_sb
     = (Inr \<lparr>d_name = ''user.none'', d_inode = None\<rparr>, ex_sb1)"
  by (simp_all add: get_xa_file_dentry_def ex_open_xa_dir ex_lookup)

subsection \<open>The flags of setting an attribute\<close>

text \<open>
  C3.  When the attribute file of the name exists, \<open>reiserfs_xattr_set\<close> with the
  flag \<open>XATTR_CREATE\<close> fails with \<open>EEXIST\<close>.  No inode of the file system is
  changed (the lookup may have cached the attribute root), and reading the attribute
  gives what it gave before.  The object is one that can have attributes: its stat data
  is not of version 1.
\<close>

theorem xattr_set_create_exists:
  assumes "\<not> sd_version_v1 inode"
    and "flags AND XATTR_CREATE \<noteq> 0"
    and "get_xa_file_dentry inode name FL_READONLY sb = (Inr xafile, sb1)"
    and "d_inode xafile \<noteq> None"
  shows "reiserfs_xattr_set inode name buffer buffer_size flags newattrs sb = Some (Inl EEXIST, sb1)
       \<and> s_inodes sb1 = s_inodes sb
       \<and> reiserfs_xattr_get inode name b n sb1 = reiserfs_xattr_get inode name b n sb"
proof -
  from get_xa_file_dentry_ro_cache [OF assms(3)] obtain r0
    where o: "open_xa_dir inode FL_READONLY sb = (r0, sb1)" ..
  from o assms(3) obtain xadir where r0: "r0 = Inr xadir"
    by (cases r0) (auto simp: get_xa_file_dentry_def)
  from open_xa_dir_ro_success [OF o [unfolded r0]]
  have o': "open_xa_dir inode flags sb = (Inr xadir, sb1)" .
  from assms(2-4) o r0 o' have "get_xa_file_dentry inode name flags sb = (Inl EEXIST, sb1)"
    by (auto simp: get_xa_file_dentry_def split: option.splits sum.splits if_splits)
  then have "reiserfs_xattr_set inode name buffer buffer_size flags newattrs sb = Some (Inl EEXIST, sb1)"
    unfolding reiserfs_xattr_set_def Let_def
    by (subst xattr_set_open_file.simps) (simp add: assms(1) open_xa_file_def)
  moreover from open_xa_dir_ro_cache [OF o] have "s_inodes sb1 = s_inodes sb" by auto
  ultimately show ?thesis using reiserfs_xattr_get_ro_idem [OF o assms(1)] by simp
qed

theorem xattr_set_create_exists_witness:
  "\<not> sd_version_v1 ex_inode \<and> XATTR_CREATE AND XATTR_CREATE \<noteq> 0
   \<and> get_xa_file_dentry ex_inode ''user.a'' FL_READONLY ex_sb
       = (Inr \<lparr>d_name = ''user.a'', d_inode = Some 4\<rparr>, ex_sb1)
   \<and> reiserfs_xattr_set ex_inode ''user.a'' (Some [1, 2]) 2 XATTR_CREATE ex_newattrs ex_sb
       = Some (Inl EEXIST, ex_sb1)
   \<and> s_inodes ex_sb1 = s_inodes ex_sb
   \<and> reiserfs_xattr_get ex_inode ''user.a'' (Some [0, 0, 0]) 3 ex_sb1
       = reiserfs_xattr_get ex_inode ''user.a'' (Some [0, 0, 0]) 3 ex_sb"
proof -
  have v: "\<not> sd_version_v1 ex_inode" by (simp add: ex_inode_def ex_file_def)
  have f: "XATTR_CREATE AND XATTR_CREATE \<noteq> 0" by (simp add: XATTR_CREATE_def)
  have d: "d_inode \<lparr>d_name = ''user.a'', d_inode = Some 4\<rparr> \<noteq> None" by simp
  from xattr_set_create_exists [OF v f ex_get_xa_file_dentry(1) d] v f ex_get_xa_file_dentry(1)
  show ?thesis by simp
qed

text \<open>
  C4.  When reading finds no attribute of the name, \<open>reiserfs_xattr_set\<close> with the
  flag \<open>XATTR_REPLACE\<close> (and without \<open>XATTR_CREATE\<close>) fails with \<open>ENODATA\<close>.
  No inode is changed, so no file is created, and reading still finds no attribute.
\<close>

theorem xattr_set_replace_missing:
  assumes "\<not> sd_version_v1 inode"
    and "flags AND XATTR_REPLACE \<noteq> 0"
    and "flags AND XATTR_CREATE = 0"
    and "open_xa_file inode name FL_READONLY sb = (Inl ENODATA, sb1)"
  shows "reiserfs_xattr_set inode name buffer buffer_size flags newattrs sb = Some (Inl ENODATA, sb1)
       \<and> s_inodes sb1 = s_inodes sb
       \<and> open_xa_file inode name FL_READONLY sb1 = (Inl ENODATA, sb1)"
proof -
  have e: "open_xa_file inode name flags sb = open_xa_file inode name FL_READONLY sb"
    using assms(2,3) by (simp add: open_xa_file_def get_xa_file_dentry_no_create)
  obtain r0 sb0 where g: "get_xa_file_dentry inode name FL_READONLY sb = (r0, sb0)"
    by (cases "get_xa_file_dentry inode name FL_READONLY sb")
  with assms(4) have s: "sb0 = sb1"
    by (auto simp: open_xa_file_def split: sum.splits if_splits)
  from get_xa_file_dentry_ro_cache [OF g] s obtain r1
    where o: "open_xa_dir inode FL_READONLY sb = (r1, sb1)" by auto
  from open_xa_dir_ro_cache [OF o] have i: "s_inodes sb1 = s_inodes sb" by auto
  from get_xa_file_dentry_ro_idem [OF g] s g assms(4)
  have "open_xa_file inode name FL_READONLY sb1 = (Inl ENODATA, sb1)"
    by (simp add: open_xa_file_def)
  moreover have "reiserfs_xattr_set inode name buffer buffer_size flags newattrs sb
                   = Some (Inl ENODATA, sb1)"
    unfolding reiserfs_xattr_set_def Let_def
    by (subst xattr_set_open_file.simps) (simp add: assms(1,4) e)
  ultimately show ?thesis using i by simp
qed

theorem xattr_set_replace_missing_witness:
  "\<not> sd_version_v1 ex_inode \<and> XATTR_REPLACE AND XATTR_REPLACE \<noteq> 0
   \<and> XATTR_REPLACE AND XATTR_CREATE = 0
   \<and> open_xa_file ex_inode ''user.none'' FL_READONLY ex_sb = (Inl ENODATA, ex_sb1)
   \<and> reiserfs_xattr_set ex_inode ''user.none'' (Some [1, 2]) 2 XATTR_REPLACE ex_newattrs ex_sb
       = Some (Inl ENODATA, ex_sb1)
   \<and> s_inodes ex_sb1 = s_inodes ex_sb
   \<and> open_xa_file ex_inode ''user.none'' FL_READONLY ex_sb1 = (Inl ENODATA, ex_sb1)"
proof -
  have v: "\<not> sd_version_v1 ex_inode" by (simp add: ex_inode_def ex_file_def)
  have f: "XATTR_REPLACE AND XATTR_REPLACE \<noteq> 0" "XATTR_REPLACE AND XATTR_CREATE = 0"
    by (simp_all add: XATTR_CREATE_def XATTR_REPLACE_def)
  have o: "open_xa_file ex_inode ''user.none'' FL_READONLY ex_sb = (Inl ENODATA, ex_sb1)"
    by (simp add: open_xa_file_def ex_get_xa_file_dentry)
  from xattr_set_replace_missing [OF v f o] v f o show ?thesis by simp
qed

subsection \<open>Bytes, header and pages\<close>

lemma length_bytes_at [simp]: "length (bytes_at d pos len) = len"
  by (simp add: bytes_at_def)

lemma nth_bytes_at:
  "k < len \<Longrightarrow> bytes_at d pos len ! k = (if pos + k < length d then d ! (pos + k) else 0)"
  by (auto simp: bytes_at_def nth_append)

lemma bytes_at_append: "bytes_at d p (m + n) = bytes_at d p m @ bytes_at d (p + m) n"
  by (rule nth_equalityI) (auto simp: nth_bytes_at nth_append add.assoc)

lemma memcpy_at_append:
  "memcpy_at (memcpy_at b p xs) (p + length xs) ys = memcpy_at b p (xs @ ys)"
proof -
  define A where "A = take p (b @ replicate (p - length b) 0)"
  define R where "R = drop (p + length xs) b"
  have lA: "length A = p" by (simp add: A_def)
  have m: "memcpy_at b p xs = A @ xs @ R" by (simp add: memcpy_at_def A_def R_def)
  have t: "take (p + length xs) ((A @ xs @ R) @ Z) = A @ xs" for Z
    by (simp add: lA)
  have d: "drop (p + length xs + length ys) (A @ xs @ R) = drop (p + length (xs @ ys)) b"
    by (simp add: lA R_def add.commute add.left_commute)
  show ?thesis
    unfolding m
    by (subst memcpy_at_def) (simp only: t d, simp add: memcpy_at_def A_def)
qed

lemma memcpy_at_0_full: "length b = length src \<Longrightarrow> memcpy_at b 0 src = src"
  by (simp add: memcpy_at_def)

lemma take_memcpy_at_0: "take (length src) (memcpy_at b 0 src) = src"
  by (simp add: memcpy_at_def)

lemma bytes_at_prefix: "bytes_at (xs @ ys) 0 (length xs) = xs"
  by (simp add: bytes_at_def)

lemma bytes_at_exact: "bytes_at (xs @ ys) (length xs) (length ys) = ys"
  by (simp add: bytes_at_def)

lemma length_cpu_to_le32 [simp]: "length (cpu_to_le32 w) = 4"
  by (simp add: cpu_to_le32_def)

lemma le32_to_cpu_cpu_to_le32 [simp]: "le32_to_cpu (cpu_to_le32 w) = w"
proof (rule bit_word_eqI)
  fix n :: nat
  assume "n < LENGTH(32)"
  then have n: "n < 32" by simp
  have byte: "8 * k \<le> n \<Longrightarrow> n < 8 * k + 8 \<Longrightarrow> 8 * k + (n - 8 * k) = n" for k
    by simp
  consider "n < 8" | "8 \<le> n" "n < 16" | "16 \<le> n" "n < 24" | "24 \<le> n" "n < 32"
    using n by linarith
  then show "bit (le32_to_cpu (cpu_to_le32 w)) n \<longleftrightarrow> bit w n"
    by cases (auto simp: le32_to_cpu_def cpu_to_le32_def bit_simps)
qed

lemma reiserfs_get_page_ok: "no_fault sb \<Longrightarrow> reiserfs_get_page x n sb = Inr (x, n)"
  by (simp add: no_fault_def reiserfs_get_page_def read_cache_page_def Page_Uptodate_def PageError_def)

lemma page_of_pos:
  "PAGE_CACHE_SIZE dvd file_pos \<Longrightarrow>
   page_address (x, drop_bit PAGE_CACHE_SHIFT file_pos) = file_pos"
  by (auto simp: page_address_def drop_bit_eq_div PAGE_CACHE_SHIFT_def PAGE_CACHE_SIZE_def)

lemma page_offset_of_pos:
  "PAGE_CACHE_SIZE dvd file_pos \<Longrightarrow> file_pos AND (PAGE_CACHE_SIZE - 1) = 0"
proof -
  assume d: "PAGE_CACHE_SIZE dvd file_pos"
  have "file_pos AND (PAGE_CACHE_SIZE - 1) = file_pos AND mask 12"
    by (simp add: PAGE_CACHE_SIZE_def mask_eq_exp_minus_1)
  also have "\<dots> = file_pos mod 2 ^ 12"
    by (simp add: take_bit_eq_mask [symmetric] take_bit_eq_mod)
  also have "\<dots> = 0" using d by (simp add: PAGE_CACHE_SIZE_def)
  finally show ?thesis .
qed

lemma xattr_get_loop_tail:
  "no_fault sb \<Longrightarrow> iget sb x = Some xi \<Longrightarrow> 0 < file_pos \<Longrightarrow>
   PAGE_CACHE_SIZE dvd file_pos \<or> isize \<le> file_pos \<Longrightarrow>
     xattr_get_loop x isize file_pos buffer_pos hash b sb
       = (Inr hash,
          if file_pos < isize
          then memcpy_at b buffer_pos (bytes_at (i_data xi) file_pos (isize - file_pos))
          else b)"
proof (induction x isize file_pos buffer_pos hash b sb rule: xattr_get_loop.induct)
  case (1 xinode isize file_pos buffer_pos hash buffer sb)
  show ?case
  proof (cases "file_pos < isize")
    case False
    then show ?thesis by (simp add: xattr_get_loop.simps)
  next
    case True
    with 1 have dv: "PAGE_CACHE_SIZE dvd file_pos" by auto
    define chunk where "chunk = (if isize - file_pos > PAGE_CACHE_SIZE then PAGE_CACHE_SIZE
                   else isize - file_pos)"
    define b1 where "b1 = memcpy_at buffer buffer_pos (bytes_at (i_data xi) file_pos chunk)"
    have c: "0 < chunk" "file_pos + chunk \<le> isize"
      "PAGE_CACHE_SIZE dvd (file_pos + chunk) \<or> isize \<le> file_pos + chunk"
      using True dv by (auto simp: chunk_def PAGE_CACHE_SIZE_def)
    have it: "xattr_get_iter xinode isize file_pos buffer_pos hash buffer sb
       = Inr (file_pos + chunk, buffer_pos + chunk, hash, b1)"
      using 1(2,3,4) dv
      by (simp add: xattr_get_iter_def reiserfs_get_page_ok page_read_def page_of_pos chunk_def
          b1_def Let_def)
    have ih: "xattr_get_loop xinode isize (file_pos + chunk) (buffer_pos + chunk) hash b1 sb
       = (Inr hash,
          if file_pos + chunk < isize
          then memcpy_at b1 (buffer_pos + chunk)
                 (bytes_at (i_data xi) (file_pos + chunk) (isize - (file_pos + chunk)))
          else b1)"
      using 1(1) [OF True it refl refl refl 1(2,3)] c by simp
    have split: "bytes_at (i_data xi) file_pos (isize - file_pos)
       = bytes_at (i_data xi) file_pos chunk
         @ bytes_at (i_data xi) (file_pos + chunk) (isize - (file_pos + chunk))"
      using c(2) bytes_at_append [of "i_data xi" file_pos chunk "isize - (file_pos + chunk)"]
      by simp
    have "xattr_get_loop xinode isize file_pos buffer_pos hash buffer sb
       = xattr_get_loop xinode isize (file_pos + chunk) (buffer_pos + chunk) hash b1 sb"
      using True it by (subst xattr_get_loop.simps) simp
    also have "\<dots> = (Inr hash,
         memcpy_at buffer buffer_pos (bytes_at (i_data xi) file_pos (isize - file_pos)))"
    proof (cases "file_pos + chunk < isize")
      case True
      then show ?thesis
        unfolding ih split
        using memcpy_at_append [of buffer buffer_pos "bytes_at (i_data xi) file_pos chunk"]
        by (simp add: b1_def)
    next
      case False
      with c(2) have "isize - file_pos = chunk" by simp
      with False show ?thesis unfolding ih by (simp add: b1_def)
    qed
    finally show ?thesis using True by simp
  qed
qed

lemma xattr_get_loop_first:
  assumes nf: "no_fault sb" and ig: "iget sb x = Some xi" and sz: "8 \<le> isize"
  shows "xattr_get_loop x isize 0 0 0 b sb =
     (if bytes_at (i_data xi) 0 4 \<noteq> cpu_to_le32 REISERFS_XATTR_MAGIC then (Inl EIO, b)
      else (Inr (le32_to_cpu (bytes_at (i_data xi) 4 4)),
            memcpy_at b 0 (bytes_at (i_data xi) 8 (isize - 8))))"
proof (cases "bytes_at (i_data xi) 0 4 \<noteq> cpu_to_le32 REISERFS_XATTR_MAGIC")
  case True
  then have "xattr_get_iter x isize 0 0 0 b sb = Inl EIO"
    using nf ig
    by (simp add: xattr_get_iter_def reiserfs_get_page_ok page_read_def page_address_def Let_def)
  then show ?thesis using True sz by (subst xattr_get_loop.simps) simp
next
  case False
  define chunk where "chunk = (if isize > PAGE_CACHE_SIZE then PAGE_CACHE_SIZE else isize)"
  define b1 where "b1 = memcpy_at b 0 (bytes_at (i_data xi) 8 (chunk - 8))"
  have c: "8 \<le> chunk" "chunk \<le> isize" "PAGE_CACHE_SIZE dvd chunk \<or> isize \<le> chunk"
    using sz by (auto simp: chunk_def PAGE_CACHE_SIZE_def)
  have it: "xattr_get_iter x isize 0 0 0 b sb
     = Inr (chunk, chunk - 8, le32_to_cpu (bytes_at (i_data xi) 4 4), b1)"
    using nf ig False c(1) sz
    by (simp add: xattr_get_iter_def reiserfs_get_page_ok page_read_def page_address_def Let_def
        chunk_def b1_def size_sub_def sizeof_reiserfs_xattr_header_def PAGE_CACHE_SIZE_def)
  have "xattr_get_loop x isize 0 0 0 b sb
     = xattr_get_loop x isize chunk (chunk - 8) (le32_to_cpu (bytes_at (i_data xi) 4 4)) b1 sb"
    using it sz by (subst xattr_get_loop.simps) simp
  also have "\<dots> = (Inr (le32_to_cpu (bytes_at (i_data xi) 4 4)),
          if chunk < isize
          then memcpy_at b1 (chunk - 8) (bytes_at (i_data xi) chunk (isize - chunk))
          else b1)"
    using c by (intro xattr_get_loop_tail [OF nf ig]) auto
  also have "(if chunk < isize
          then memcpy_at b1 (chunk - 8) (bytes_at (i_data xi) chunk (isize - chunk))
          else b1) = memcpy_at b 0 (bytes_at (i_data xi) 8 (isize - 8))"
  proof (cases "chunk < isize")
    case True
    have "bytes_at (i_data xi) 8 (isize - 8)
       = bytes_at (i_data xi) 8 (chunk - 8) @ bytes_at (i_data xi) chunk (isize - chunk)"
      using c bytes_at_append [of "i_data xi" 8 "chunk - 8" "isize - chunk"] by simp
    then show ?thesis
      using True memcpy_at_append [of b 0 "bytes_at (i_data xi) 8 (chunk - 8)"]
      by (simp add: b1_def)
  next
    case False
    with c have "chunk = isize" by simp
    then show ?thesis by (simp add: b1_def)
  qed
  finally show ?thesis using False by simp
qed

subsection \<open>The checksum tells a changed byte\<close>

lemma csum_words_bound: "w \<in> set (csum_words bs) \<Longrightarrow> w < 65536"
proof (induction bs arbitrary: w rule: csum_words.induct)
  case (1 a b r)
  have "unat a < 256" "unat b < 256" using unsigned_less [of a, where ?'a = nat] unsigned_less [of b, where ?'a = nat] by simp_all
  with 1 show ?case by auto
next
  case (2 a)
  have "unat a < 256" using unsigned_less [of a, where ?'a = nat] by simp
  with 2 show ?case by auto
qed simp

lemma unat_of_nat_u32: "t < 4294967296 \<Longrightarrow> unat (word_of_nat t :: u32) = t"
  by (simp only: unat_of_nat) simp

lemma csum_add_mod:
  assumes "w < 65536"
  shows "unat (csum_add w s) mod 4294967295 = (unat s + w) mod 4294967295"
proof -
  have s: "unat s < 4294967296" using unsigned_less [of s, where ?'a = nat] by simp
  have p: "(2::nat) ^ 32 = 4294967296" by simp
  have d: "csum_add w s = word_of_nat (if unat s + w < 4294967296 then unat s + w
                                       else unat s + w - 4294967296 + 1)"
    unfolding csum_add_def Let_def p ..
  show ?thesis
  proof (cases "unat s + w < 4294967296")
    case True
    with d have "csum_add w s = word_of_nat (unat s + w)" by (simp only: if_True)
    then show ?thesis using True by (simp only: unat_of_nat_u32)
  next
    case False
    with d have "csum_add w s = word_of_nat (unat s + w - 4294967296 + 1)"
      by (simp only: if_False)
    moreover from False s assms have "unat s + w - 4294967296 + 1 < 4294967296" by simp
    ultimately have "unat (csum_add w s) = unat s + w - 4294967296 + 1"
      by (simp only: unat_of_nat_u32)
    moreover have "(unat s + w - 4294967296 + 1) mod 4294967295 = (unat s + w) mod 4294967295"
    proof -
      from False have "unat s + w = (unat s + w - 4294967296 + 1) + 1 * 4294967295" by simp
      then show ?thesis by (metis mod_mult_self1)
    qed
    ultimately show ?thesis by simp
  qed
qed

lemma fold_csum_add_mod:
  "(\<And>w. w \<in> set ws \<Longrightarrow> w < 65536) \<Longrightarrow>
   unat (fold csum_add ws s) mod 4294967295 = (unat s + sum_list ws) mod 4294967295"
proof (induction ws arbitrary: s)
  case Nil
  then show ?case by simp
next
  case (Cons w ws)
  have "unat (fold csum_add ws (csum_add w s)) mod 4294967295
          = (unat (csum_add w s) + sum_list ws) mod 4294967295"
    using Cons by simp
  also have "\<dots> = ((unat s + w) + sum_list ws) mod 4294967295"
    using Cons.prems by (intro mod_add_cong csum_add_mod refl) simp
  finally show ?case by (simp add: add.assoc)
qed

lemma sum_csum_words_update:
  "i < length bs \<Longrightarrow>
   sum_list (csum_words (bs[i := v])) + unat (bs ! i) * byte_weight i
     = sum_list (csum_words bs) + unat v * byte_weight i"
proof (induction bs arbitrary: i rule: csum_words.induct)
  case (1 a b r)
  show ?case
  proof (cases i)
    case 0
    then show ?thesis by (simp add: byte_weight_def)
  next
    case (Suc j)
    show ?thesis
    proof (cases j)
      case 0
      with Suc show ?thesis by (simp add: byte_weight_def)
    next
      case (Suc k)
      with \<open>i = Suc j\<close> 1 have "k < length r" by simp
      from 1(1) [OF this] Suc \<open>i = Suc j\<close> show ?thesis by (simp add: byte_weight_def)
    qed
  qed
next
  case (2 a)
  then show ?case by (simp add: byte_weight_def)
qed simp

lemma mod_add_cancel:
  assumes "(x + p) mod m = (x + q) mod (m::nat)"
  shows "p mod m = q mod m"
proof -
  have "(int x + int p) mod int m = (int x + int q) mod int m"
    using assms by (metis of_nat_add of_nat_mod)
  then have "int m dvd (int x + int p) - (int x + int q)"
    by (simp only: mod_eq_dvd_iff)
  then have "int m dvd int p - int q" by simp
  then have "int p mod int m = int q mod int m"
    by (simp only: mod_eq_dvd_iff)
  then show ?thesis by (metis of_nat_mod of_nat_eq_iff)
qed

lemma xattr_hash_single_byte:
  assumes i: "i < length P" and v: "v \<noteq> P ! i"
  shows "xattr_hash (P[i := v]) (length P) \<noteq> xattr_hash P (length P)"
proof
  assume eq: "xattr_hash (P[i := v]) (length P) = xattr_hash P (length P)"
  let ?S = "sum_list (csum_words P)" and ?S' = "sum_list (csum_words (P[i := v]))"
  let ?w = "byte_weight i"
  have "unat (xattr_hash P (length P)) mod 4294967295 = ?S mod 4294967295"
    using fold_csum_add_mod [of "csum_words P" 0] csum_words_bound
    by (simp add: xattr_hash_def csum_partial_def)
  moreover have "unat (xattr_hash (P[i := v]) (length P)) mod 4294967295 = ?S' mod 4294967295"
    using fold_csum_add_mod [of "csum_words (P[i := v])" 0] csum_words_bound
    by (simp add: xattr_hash_def csum_partial_def)
  ultimately have m: "?S' mod 4294967295 = ?S mod 4294967295" using eq by simp
  have u: "?S' + unat (P ! i) * ?w = ?S + unat v * ?w"
    using sum_csum_words_update [OF i] .
  have "(?S + unat (P ! i) * ?w) mod 4294967295 = (?S' + unat (P ! i) * ?w) mod 4294967295"
    using m by (intro mod_add_cong refl) simp
  with u have "(?S + unat (P ! i) * ?w) mod 4294967295 = (?S + unat v * ?w) mod 4294967295"
    by simp
  then have "(unat (P ! i) * ?w) mod 4294967295 = (unat v * ?w) mod 4294967295"
    by (rule mod_add_cancel)
  moreover have "unat (P ! i) < 256" "unat v < 256"
    using unsigned_less [of "P ! i", where ?'a = nat] unsigned_less [of v, where ?'a = nat] by simp_all
  then have "unat (P ! i) * ?w < 4294967295" "unat v * ?w < 4294967295"
    by (auto simp: byte_weight_def)
  ultimately have "unat (P ! i) * ?w = unat v * ?w" by simp
  then have "unat (P ! i) = unat v" by (simp add: byte_weight_def split: if_splits)
  with v show False by (simp add: word_unat_eq_iff)
qed

subsection \<open>What reading returns\<close>

lemma xattr_hash_memcpy:
  "length src = n \<Longrightarrow> xattr_hash (memcpy_at b 0 src) n = xattr_hash src n"
  by (simp add: xattr_hash_def csum_partial_def memcpy_at_def)

lemma reiserfs_xattr_get_eq:
  assumes v: "\<not> sd_version_v1 inode"
    and o: "open_xa_file inode name FL_READONLY sb = (Inr fp, sb1)"
    and x: "d_inode fp = Some x" and xi: "iget sb1 x = Some xi"
    and nf: "no_fault sb1"
    and sz: "8 \<le> i_size xi" "i_size xi < 2 ^ 32"
  shows "reiserfs_xattr_get inode name (Some b) buffer_size sb =
     (if buffer_size < i_size xi - 8 then (Inl ERANGE, Some b, sb1)
      else if bytes_at (i_data xi) 0 4 \<noteq> cpu_to_le32 REISERFS_XATTR_MAGIC
      then (Inl EIO, Some b, sb1)
      else if xattr_hash (bytes_at (i_data xi) 8 (i_size xi - 8)) (i_size xi - 8)
                \<noteq> le32_to_cpu (bytes_at (i_data xi) 4 4)
      then (Inl EIO, Some (memcpy_at b 0 (bytes_at (i_data xi) 8 (i_size xi - 8))), sb1)
      else (Inr (ssize_of (i_size xi - 8)),
            Some (memcpy_at b 0 (bytes_at (i_data xi) 8 (i_size xi - 8))), sb1))"
proof -
  have m: "i_size xi mod 4294967296 = i_size xi" using sz by simp
  have s: "size_sub (i_size xi) sizeof_reiserfs_xattr_header = i_size xi - 8"
    using sz by (simp add: size_sub_def sizeof_reiserfs_xattr_header_def)
  note l = xattr_get_loop_first [OF nf xi sz(1), of b]
  show ?thesis
    unfolding reiserfs_xattr_get_def
    using v o x xi
    by (simp add: Let_def m s l xattr_hash_memcpy del: One_nat_def)
qed

lemma ex_magic: "cpu_to_le32 REISERFS_XATTR_MAGIC = [0x41, 0x58, 0x46, 0x52]"
  by (simp add: cpu_to_le32_def REISERFS_XATTR_MAGIC_def)

lemma ex_no_fault [simp]: "no_fault ex_sb" "no_fault ex_sb1"
  by (simp_all add: no_fault_def ex_sb_def ex_sb1_def)

lemma ex_iget:
  "iget ex_sb1 4 = Some (ex_file 4 True 1 ex_attr)"
  "iget ex_sb1 7 = Some (ex_file 7 True 2 ex_attr)"
  "iget ex_sb1 8 = Some (ex_file 8 True 1 ex_badmagic)"
  "iget ex_sb1 9 = Some (ex_file 9 True 1 ex_rotten)"
  by (simp_all add: ex_sb1_def ex_sb_def iget_def)

lemma ex_lookup2:
  "lookup_one_len ''user.badmagic'' ex_xadir ex_sb
     = Inr \<lparr>d_name = ''user.badmagic'', d_inode = Some 8\<rparr>"
  "lookup_one_len ''user.rotten'' ex_xadir ex_sb
     = Inr \<lparr>d_name = ''user.rotten'', d_inode = Some 9\<rparr>"
  by (simp_all add: ex_defs)

lemma ex_open_xa_file:
  "open_xa_file ex_inode ''user.a'' FL_READONLY ex_sb
     = (Inr \<lparr>d_name = ''user.a'', d_inode = Some 4\<rparr>, ex_sb1)"
  "open_xa_file ex_inode ''user.badmagic'' FL_READONLY ex_sb
     = (Inr \<lparr>d_name = ''user.badmagic'', d_inode = Some 8\<rparr>, ex_sb1)"
  "open_xa_file ex_inode ''user.rotten'' FL_READONLY ex_sb
     = (Inr \<lparr>d_name = ''user.rotten'', d_inode = Some 9\<rparr>, ex_sb1)"
  using ex_no_fault(2)
  by (simp_all add: open_xa_file_def get_xa_file_dentry_def ex_open_xa_dir ex_lookup ex_lookup2
      dentry_open_def no_fault_def)

lemma ex_sizes:
  "length ex_attr = 11" "length ex_badmagic = 11" "length ex_rotten = 11"
  by (simp_all add: ex_attr_def ex_badmagic_def ex_rotten_def ex_payload_def)

lemma t1: "bytes_at ex_badmagic 0 4 \<noteq> cpu_to_le32 REISERFS_XATTR_MAGIC"
  by (simp add: ex_badmagic_def bytes_at_def ex_magic)

lemma bytes_at_header:
  assumes "length h1 = 4" and "length h2 = 4"
  shows "bytes_at (h1 @ h2 @ P) 0 4 = h1" and "bytes_at (h1 @ h2 @ P) 4 4 = h2"
    and "bytes_at (h1 @ h2 @ P) 8 (length P) = P"
  using assms by (simp_all add: bytes_at_def)

text \<open>
  C2, amended.  Reading a stored attribute (a file of at least the 8 bytes of the
  header) into a buffer that is large enough for its value fails with \<open>EIO\<close> when the
  magic of the header is wrong, and fails with \<open>EIO\<close> when the checksum of the value
  read differs from the checksum in the header.  So it fails with \<open>EIO\<close> when one byte
  of a value \<open>P\<close> stored with its checksum has been changed.
\<close>

theorem reiserfs_xattr_get_corrupt:
  assumes "\<not> sd_version_v1 inode"
    and "open_xa_file inode name FL_READONLY sb = (Inr fp, sb1)"
    and "d_inode fp = Some x" and "iget sb1 x = Some xi"
    and "no_fault sb1"
    and "8 \<le> i_size xi" and "i_size xi < 2 ^ 32"
    and "i_size xi - 8 \<le> buffer_size"
  shows "(bytes_at (i_data xi) 0 4 \<noteq> cpu_to_le32 REISERFS_XATTR_MAGIC
            \<longrightarrow> fst (reiserfs_xattr_get inode name (Some b) buffer_size sb) = Inl EIO)
       \<and> (xattr_hash (bytes_at (i_data xi) 8 (i_size xi - 8)) (i_size xi - 8)
              \<noteq> le32_to_cpu (bytes_at (i_data xi) 4 4)
            \<longrightarrow> fst (reiserfs_xattr_get inode name (Some b) buffer_size sb) = Inl EIO)
       \<and> (i_data xi = cpu_to_le32 REISERFS_XATTR_MAGIC @ cpu_to_le32 (xattr_hash P (length P))
                        @ P[i := c]
            \<and> i_size xi = 8 + length P \<and> i < length P \<and> c \<noteq> P ! i
            \<longrightarrow> fst (reiserfs_xattr_get inode name (Some b) buffer_size sb) = Inl EIO)"
proof -
  note g = reiserfs_xattr_get_eq [OF assms(1-7), of b buffer_size]
  have 1: "fst (reiserfs_xattr_get inode name (Some b) buffer_size sb) = Inl EIO"
    if "bytes_at (i_data xi) 0 4 \<noteq> cpu_to_le32 REISERFS_XATTR_MAGIC"
    using that assms(8) by (simp add: g)
  have 2: "fst (reiserfs_xattr_get inode name (Some b) buffer_size sb) = Inl EIO"
    if "xattr_hash (bytes_at (i_data xi) 8 (i_size xi - 8)) (i_size xi - 8)
              \<noteq> le32_to_cpu (bytes_at (i_data xi) 4 4)"
    using that assms(8) by (simp add: g)
  have 3: "fst (reiserfs_xattr_get inode name (Some b) buffer_size sb) = Inl EIO"
    if d: "i_data xi = cpu_to_le32 REISERFS_XATTR_MAGIC @ cpu_to_le32 (xattr_hash P (length P))
                        @ P[i := c]"
      and s: "i_size xi = 8 + length P" and i: "i < length P" and c: "c \<noteq> P ! i"
  proof (rule 2)
    have "bytes_at (i_data xi) 8 (i_size xi - 8) = P[i := c]"
      using bytes_at_header(3) [of "cpu_to_le32 REISERFS_XATTR_MAGIC"
          "cpu_to_le32 (xattr_hash P (length P))" "P[i := c]"]
      by (simp add: d s)
    moreover have "le32_to_cpu (bytes_at (i_data xi) 4 4) = xattr_hash P (length P)"
      by (simp add: d bytes_at_header(2))
    ultimately show "xattr_hash (bytes_at (i_data xi) 8 (i_size xi - 8)) (i_size xi - 8)
              \<noteq> le32_to_cpu (bytes_at (i_data xi) 4 4)"
      using xattr_hash_single_byte [OF i c] by (simp add: s)
  qed
  from 1 2 3 show ?thesis by blast
qed

theorem reiserfs_xattr_get_corrupt_witness:
  "bytes_at ex_badmagic 0 4 \<noteq> cpu_to_le32 REISERFS_XATTR_MAGIC
   \<and> fst (reiserfs_xattr_get ex_inode ''user.badmagic'' (Some [0, 0, 0]) 3 ex_sb) = Inl EIO
   \<and> ex_rotten = cpu_to_le32 REISERFS_XATTR_MAGIC @ cpu_to_le32 (xattr_hash ex_payload 3)
                   @ ex_payload[1 := 0x6f]
   \<and> xattr_hash (bytes_at ex_rotten 8 3) 3 \<noteq> le32_to_cpu (bytes_at ex_rotten 4 4)
   \<and> fst (reiserfs_xattr_get ex_inode ''user.rotten'' (Some [0, 0, 0]) 3 ex_sb) = Inl EIO"
proof -
  have v: "\<not> sd_version_v1 ex_inode" by (simp add: ex_inode_def ex_file_def)
  have s8: "8 \<le> i_size (ex_file 8 True 1 ex_badmagic)"
    "i_size (ex_file 8 True 1 ex_badmagic) < 2 ^ 32"
    "i_size (ex_file 8 True 1 ex_badmagic) - 8 \<le> 3"
    and s9: "8 \<le> i_size (ex_file 9 True 1 ex_rotten)"
    "i_size (ex_file 9 True 1 ex_rotten) < 2 ^ 32"
    "i_size (ex_file 9 True 1 ex_rotten) - 8 \<le> 3"
    by (simp_all add: ex_file_def ex_sizes)
  have di: "d_inode \<lparr>d_name = n, d_inode = Some k\<rparr> = Some k" for n k by simp
  have m: "bytes_at ex_badmagic 0 4 \<noteq> cpu_to_le32 REISERFS_XATTR_MAGIC"
    by (simp add: ex_badmagic_def bytes_at_def ex_magic)
  have r: "ex_rotten = cpu_to_le32 REISERFS_XATTR_MAGIC @ cpu_to_le32 (xattr_hash ex_payload 3)
                   @ ex_payload[1 := 0x6f]"
    by (simp add: ex_rotten_def)
  have p: "length ex_payload = 3" "(1::nat) < length ex_payload" "0x6f \<noteq> ex_payload ! 1"
    by (simp_all add: ex_payload_def)
  note c8 = reiserfs_xattr_get_corrupt [OF v ex_open_xa_file(2) di ex_iget(3) ex_no_fault(2) s8,
      where b = "[0, 0, 0]"]
  note c9 = reiserfs_xattr_get_corrupt [OF v ex_open_xa_file(3) di ex_iget(4) ex_no_fault(2) s9,
      where P = ex_payload and i = 1 and c = "0x6f" and b = "[0, 0, 0]"]
  have i8: "i_data (ex_file 8 True 1 ex_badmagic) = ex_badmagic"
    and i9: "i_data (ex_file 9 True 1 ex_rotten) = ex_rotten"
    "i_size (ex_file 9 True 1 ex_rotten) = 8 + length ex_payload"
    by (simp_all add: ex_file_def ex_sizes p)
  have h: "xattr_hash (bytes_at ex_rotten 8 3) 3 \<noteq> le32_to_cpu (bytes_at ex_rotten 4 4)"
    using xattr_hash_single_byte [OF p(2,3)]
      bytes_at_header(2,3) [of "cpu_to_le32 REISERFS_XATTR_MAGIC"
          "cpu_to_le32 (xattr_hash ex_payload 3)" "ex_payload[1 := 0x6f]"]
    by (simp add: r p)
  from c8 m i8 have "fst (reiserfs_xattr_get ex_inode ''user.badmagic'' (Some [0, 0, 0]) 3 ex_sb)
      = Inl EIO" by simp
  moreover from c9 i9 r p have
    "fst (reiserfs_xattr_get ex_inode ''user.rotten'' (Some [0, 0, 0]) 3 ex_sb) = Inl EIO"
    by simp
  ultimately show ?thesis using m r h by blast
qed

text \<open>
  The claim as it is written asks for a buffer that is not null, and no more.  With a
  buffer that is too small for the value the size check comes first and the call fails
  with \<open>ERANGE\<close>, whatever the magic is.
\<close>

theorem reiserfs_xattr_get_corrupt_counterexample:
  "open_xa_file ex_inode ''user.badmagic'' FL_READONLY ex_sb
     = (Inr \<lparr>d_name = ''user.badmagic'', d_inode = Some 8\<rparr>, ex_sb1)
   \<and> map_option i_data (iget ex_sb1 8) = Some ex_badmagic
   \<and> bytes_at ex_badmagic 0 4 \<noteq> cpu_to_le32 REISERFS_XATTR_MAGIC
   \<and> reiserfs_xattr_get ex_inode ''user.badmagic'' (Some [0, 0]) 2 ex_sb
       = (Inl ERANGE, Some [0, 0], ex_sb1)"
proof -
  have v: "\<not> sd_version_v1 ex_inode" by (simp add: ex_inode_def ex_file_def)
  have s8: "8 \<le> i_size (ex_file 8 True 1 ex_badmagic)"
    "i_size (ex_file 8 True 1 ex_badmagic) < 2 ^ 32"
    by (simp_all add: ex_file_def ex_sizes)
  have di: "d_inode \<lparr>d_name = n, d_inode = Some k\<rparr> = Some k" for n k by simp
  have m: "bytes_at ex_badmagic 0 4 \<noteq> cpu_to_le32 REISERFS_XATTR_MAGIC"
    by (simp add: ex_badmagic_def bytes_at_def ex_magic)
  have "reiserfs_xattr_get ex_inode ''user.badmagic'' (Some [0, 0]) 2 ex_sb
       = (Inl ERANGE, Some [0, 0], ex_sb1)"
    using reiserfs_xattr_get_eq [OF v ex_open_xa_file(2) di ex_iget(3) ex_no_fault(2) s8,
        where b = "[0, 0]" and buffer_size = 2]
    by (simp add: ex_file_def ex_sizes)
  with m ex_open_xa_file(2) ex_iget(3) show ?thesis by (simp add: ex_file_def)
qed

subsection \<open>What writing leaves in the file\<close>

lemma alist_update_twice: "alist_update k v (alist_update k u ps) = alist_update k v ps"
  by (induction ps) auto

lemma alist_update_same: "map_of ps k = Some v \<Longrightarrow> alist_update k v ps = ps"
  by (induction ps) (auto split: if_splits)

lemma iput_iput [simp]: "iput n i (iput n j sb) = iput n i sb"
  by (simp add: iput_def alist_update_twice)

lemma iput_same: "iget sb n = Some i \<Longrightarrow> iput n i sb = sb"
  by (simp add: iput_def iget_def alist_update_same)

lemma no_fault_iput [simp]: "no_fault (iput n i sb) = no_fault sb"
  by (simp add: no_fault_def iput_fields)

lemma prepare_write_ok: "no_fault sb \<Longrightarrow> prepare_write pg from to sb = Inr ()"
  by (simp add: prepare_write_def no_fault_def)

lemma commit_write_ok:
  "no_fault sb \<Longrightarrow> iget sb x = Some xi \<Longrightarrow>
   commit_write (x, n) from to sb
     = (Inr (), iput x (xi\<lparr>i_size := max (i_size xi) (page_address (x, n) + to)\<rparr>) sb)"
  by (simp add: commit_write_def no_fault_def)

lemma page_write_ok:
  "iget sb x = Some xi \<Longrightarrow>
   page_write (x, n) off src sb
     = iput x (xi\<lparr>i_data := memcpy_at (i_data xi) (page_address (x, n) + off) src\<rparr>) sb"
  by (simp add: page_write_def)

lemma xattr_set_iter_tail:
  assumes nf: "no_fault sb" and xi: "iget sb x = Some xi"
    and d: "PAGE_CACHE_SIZE dvd file_pos" and p: "0 < file_pos"
  shows "xattr_set_iter x (Some P) buffer_size h file_pos buffer_pos sb =
     (let chunk = (if buffer_size - buffer_pos > PAGE_CACHE_SIZE then PAGE_CACHE_SIZE
                   else buffer_size - buffer_pos)
      in (Inr (), file_pos + chunk, buffer_pos + chunk,
          iput x (xi\<lparr>i_data := memcpy_at (i_data xi) file_pos (take chunk (drop buffer_pos P)),
                     i_size := max (i_size xi) (file_pos + chunk)\<rparr>) sb))"
  using nf xi p
  by (simp add: xattr_set_iter_def Let_def reiserfs_get_page_ok page_offset_of_pos [OF d]
      page_of_pos [OF d] prepare_write_ok page_write_ok commit_write_ok iget_iput
      del: One_nat_def)

lemma xattr_set_iter_first:
  assumes nf: "no_fault sb" and xi: "iget sb x = Some xi"
  shows "xattr_set_iter x (Some P) buffer_size h 0 0 sb =
     (let chunk = (if buffer_size > PAGE_CACHE_SIZE - 8 then PAGE_CACHE_SIZE - 8
                   else buffer_size)
      in (Inr (), 8 + chunk, chunk,
          iput x (xi\<lparr>i_data := memcpy_at (i_data xi) 0
                                 (cpu_to_le32 REISERFS_XATTR_MAGIC @ cpu_to_le32 h
                                  @ take chunk P),
                     i_size := max (i_size xi) (8 + chunk)\<rparr>) sb))"
proof -
  have a: "memcpy_at (memcpy_at D 0 (cpu_to_le32 REISERFS_XATTR_MAGIC @ cpu_to_le32 h)) 8 ys
     = memcpy_at D 0 (cpu_to_le32 REISERFS_XATTR_MAGIC @ cpu_to_le32 h @ ys)" for D ys
    using memcpy_at_append [of D 0 "cpu_to_le32 REISERFS_XATTR_MAGIC @ cpu_to_le32 h" ys]
    by simp
  show ?thesis
    using nf xi
    by (auto simp: xattr_set_iter_def Let_def reiserfs_get_page_ok prepare_write_ok page_write_ok
        commit_write_ok iget_iput page_address_def sizeof_reiserfs_xattr_header_def a
        PAGE_CACHE_SIZE_def add.commute)
qed

lemma xattr_set_loop_tail:
  "no_fault sb \<Longrightarrow> iget sb x = Some xi \<Longrightarrow> 0 < buffer_pos \<Longrightarrow> buffer_pos \<le> length P \<Longrightarrow>
   file_pos = 8 + buffer_pos \<Longrightarrow> PAGE_CACHE_SIZE dvd file_pos \<or> length P \<le> buffer_pos \<Longrightarrow>
   length hdr = 8 \<Longrightarrow> i_data xi = memcpy_at D0 0 (hdr @ take buffer_pos P) \<Longrightarrow>
   i_size xi = max S0 (8 + buffer_pos) \<Longrightarrow>
   xattr_set_loop x (Some P) (length P) h file_pos buffer_pos sb
     = (Inr (), iput x (xi\<lparr>i_data := memcpy_at D0 0 (hdr @ P),
                            i_size := max S0 (8 + length P)\<rparr>) sb)"
proof (induction x "Some P" "length P" h file_pos buffer_pos sb arbitrary: xi
       rule: xattr_set_loop.induct)
  case (1 xinode xahash file_pos buffer_pos sb)
  show ?case
  proof (cases "buffer_pos < length P")
    case False
    with 1 have e: "buffer_pos = length P" by simp
    have "xi\<lparr>i_data := memcpy_at D0 0 (hdr @ P), i_size := max S0 (8 + length P)\<rparr> = xi"
      using 1(9,10) e by simp
    then show ?thesis
      using 1(3) 1(4) e by (subst xattr_set_loop.simps) (simp add: iput_same)
  next
    case True
    with 1 have dv: "PAGE_CACHE_SIZE dvd file_pos" and fp: "0 < file_pos" by auto
    define chunk where "chunk = (if length P - buffer_pos > PAGE_CACHE_SIZE then PAGE_CACHE_SIZE
                   else length P - buffer_pos)"
    define xi1 where "xi1 = xi\<lparr>i_data := memcpy_at (i_data xi) file_pos
                                            (take chunk (drop buffer_pos P)),
                     i_size := max (i_size xi) (file_pos + chunk)\<rparr>"
    have c: "0 < chunk" "buffer_pos + chunk \<le> length P"
      "PAGE_CACHE_SIZE dvd (file_pos + chunk) \<or> length P \<le> buffer_pos + chunk"
      using True dv by (auto simp: chunk_def PAGE_CACHE_SIZE_def)
    have it: "xattr_set_iter xinode (Some P) (length P) xahash file_pos buffer_pos sb
       = (Inr (), file_pos + chunk, buffer_pos + chunk, iput xinode xi1 sb)"
      using xattr_set_iter_tail [OF 1(2,3) dv fp] by (simp add: Let_def chunk_def xi1_def)
    have d1: "i_data xi1 = memcpy_at D0 0 (hdr @ take (buffer_pos + chunk) P)"
    proof -
      have "file_pos = 0 + length (hdr @ take buffer_pos P)"
        using 1(5,6,8) by simp
      then have "i_data xi1 = memcpy_at D0 0 ((hdr @ take buffer_pos P)
                                                @ take chunk (drop buffer_pos P))"
        using memcpy_at_append [of D0 0 "hdr @ take buffer_pos P" "take chunk (drop buffer_pos P)"]
        by (simp add: xi1_def 1(9))
      then show ?thesis by (simp add: take_add)
    qed
    have s1: "i_size xi1 = max S0 (8 + (buffer_pos + chunk))"
      using 1(6,10) by (simp add: xi1_def)
    have ne: "P \<noteq> []" using True by auto
    have ih: "xattr_set_loop xinode (Some P) (length P) xahash (file_pos + chunk)
                (buffer_pos + chunk) (iput xinode xi1 sb)
       = (Inr (), iput xinode (xi1\<lparr>i_data := memcpy_at D0 0 (hdr @ P),
                            i_size := max S0 (8 + length P)\<rparr>) (iput xinode xi1 sb))"
      using 1(1) [of "Inr ()" "(file_pos + chunk, buffer_pos + chunk, iput xinode xi1 sb)"
                     "file_pos + chunk" "(buffer_pos + chunk, iput xinode xi1 sb)"
                     "buffer_pos + chunk" "iput xinode xi1 sb" xi1]
        True it c 1(2,6,8) d1 s1 ne
      by (simp add: iget_iput)
    have "xattr_set_loop xinode (Some P) (length P) xahash file_pos buffer_pos sb
       = xattr_set_loop xinode (Some P) (length P) xahash (file_pos + chunk)
                (buffer_pos + chunk) (iput xinode xi1 sb)"
      using True it ne by (subst xattr_set_loop.simps) simp
    also note ih
    finally show ?thesis by (simp add: xi1_def)
  qed
qed

lemma xattr_set_loop_full:
  assumes nf: "no_fault sb" and xi: "iget sb x = Some xi"
  shows "xattr_set_loop x (Some P) (length P) h 0 0 sb
     = (Inr (), iput x (xi\<lparr>i_data := memcpy_at (i_data xi) 0
                                        (cpu_to_le32 REISERFS_XATTR_MAGIC @ cpu_to_le32 h @ P),
                            i_size := max (i_size xi) (8 + length P)\<rparr>) sb)"
proof -
  define hdr where "hdr = cpu_to_le32 REISERFS_XATTR_MAGIC @ cpu_to_le32 h"
  define chunk where "chunk = (if length P > PAGE_CACHE_SIZE - 8 then PAGE_CACHE_SIZE - 8
                   else length P)"
  define xi1 where "xi1 = xi\<lparr>i_data := memcpy_at (i_data xi) 0 (hdr @ take chunk P),
                     i_size := max (i_size xi) (8 + chunk)\<rparr>"
  have it: "xattr_set_iter x (Some P) (length P) h 0 0 sb
       = (Inr (), 8 + chunk, chunk, iput x xi1 sb)"
    using xattr_set_iter_first [OF nf xi, of P "length P" h]
    by (simp add: Let_def chunk_def xi1_def hdr_def)
  show ?thesis
  proof (cases "P = []")
    case True
    then show ?thesis
      using it by (subst xattr_set_loop.simps) (simp add: xi1_def chunk_def hdr_def)
  next
    case False
    then have c: "0 < chunk" "chunk \<le> length P"
      "PAGE_CACHE_SIZE dvd (8 + chunk) \<or> length P \<le> chunk"
      by (auto simp: chunk_def PAGE_CACHE_SIZE_def)
    have "xattr_set_loop x (Some P) (length P) h 0 0 sb
       = xattr_set_loop x (Some P) (length P) h (8 + chunk) chunk (iput x xi1 sb)"
      using it False by (subst xattr_set_loop.simps) simp
    also have "\<dots> = (Inr (), iput x (xi1\<lparr>i_data := memcpy_at (i_data xi) 0 (hdr @ P),
                            i_size := max (i_size xi) (8 + length P)\<rparr>) (iput x xi1 sb))"
      using c nf
      by (intro xattr_set_loop_tail) (simp_all add: iget_iput xi1_def hdr_def)
    finally show ?thesis by (simp add: xi1_def hdr_def)
  qed
qed

lemmas ATTR_defs =
  ATTR_MODE_def ATTR_UID_def ATTR_GID_def ATTR_SIZE_def ATTR_ATIME_def ATTR_MTIME_def
  ATTR_CTIME_def

lemma xattr_set_write_ok:
  assumes nf: "no_fault sb" and x: "d_inode fp = Some x" and xi: "iget sb x = Some xi"
  shows "xattr_set_write fp x (Some P) (length P) h newattrs sb
     = (Inr (), iput x (xi\<lparr>i_size := 8 + length P,
                            i_data := cpu_to_le32 REISERFS_XATTR_MAGIC @ cpu_to_le32 h @ P,
                            i_ctime := ia_ctime newattrs\<rparr>) sb)"
proof -
  define xi0 where "xi0 = xi\<lparr>i_size := length P, i_data := take (length P) (i_data xi),
                             i_ctime := ia_ctime newattrs\<rparr>"
  have n: "notify_change fp (newattrs\<lparr>ia_size := length P,
                 ia_valid := ATTR_SIZE OR ATTR_CTIME\<rparr>) sb
             = (Inr (), iput x xi0 sb)"
    using nf x xi
    by (simp add: notify_change_def no_fault_def inode_setattr_def ATTR_defs Let_def xi0_def)
  have m: "memcpy_at (take (length P) D) 0 (hdr @ P) = hdr @ P" if "length hdr = 8" for D hdr
    using that by (simp add: memcpy_at_def)
  have "xattr_set_loop x (Some P) (length P) h 0 0 (iput x xi0 sb)
     = (Inr (), iput x (xi0\<lparr>i_data := memcpy_at (i_data xi0) 0
                                        (cpu_to_le32 REISERFS_XATTR_MAGIC @ cpu_to_le32 h @ P),
                            i_size := max (i_size xi0) (8 + length P)\<rparr>) (iput x xi0 sb))"
    using nf by (intro xattr_set_loop_full) (simp_all add: iget_iput)
  then show ?thesis
    using m [of "cpu_to_le32 REISERFS_XATTR_MAGIC @ cpu_to_le32 h" "i_data xi"]
    by (cases xi) (simp add: xattr_set_write_def Let_def n xi0_def)
qed

subsection \<open>Directories after a creation\<close>

lemma fold_max_ge: "(a::nat) \<le> fold max xs a"
  by (induction xs arbitrary: a) (auto intro: order_trans [OF max.cobounded2])

lemma fold_max_mem: "x \<in> set xs \<Longrightarrow> (x::nat) \<le> fold max xs a"
proof (induction xs arbitrary: a)
  case (Cons y ys)
  show ?case
  proof (cases "x = y")
    case True
    then show ?thesis using fold_max_ge [of "max y a" ys] by simp
  next
    case False
    with Cons show ?thesis by simp
  qed
qed simp

lemma new_objectid_fresh: "iget sb (new_objectid sb) = None"
proof (rule ccontr)
  assume "iget sb (new_objectid sb) \<noteq> None"
  then have "new_objectid sb \<in> set (map fst (s_inodes sb))"
    by (auto simp: iget_def dest: map_of_SomeD intro: rev_image_eqI)
  from fold_max_mem [OF this, of 0] show False by (simp add: new_objectid_def)
qed

lemma find_snoc:
  "find P (xs @ [e]) = (case find P xs of None \<Rightarrow> if P e then Some e else None | Some x \<Rightarrow> Some x)"
  by (induction xs) auto

lemma lookup_one_len_name:
  "lookup_one_len name base sb = Inr d \<Longrightarrow> d_name d = name"
  by (auto simp: lookup_one_len_def split: option.splits)

lemma lookup_iput_same_entries:
  assumes "iget sb x = Some xi" and "i_entries xi' = i_entries xi"
  shows "lookup_one_len n base (iput x xi' sb) = lookup_one_len n base sb"
  using assms
  by (auto simp: lookup_one_len_def iget_iput iput_fields split: option.splits)

lemma lookup_posD:
  assumes "lookup_one_len m base sb = Inr d" and "d_inode d = Some t"
  shows "\<exists>b bi e0. d_inode base = Some b \<and> iget sb b = Some bi
           \<and> s_fault sb (P_lookup b m) = None
           \<and> find (\<lambda>de. de_name de = m \<and> deh_visible de) (i_entries bi) = Some e0
           \<and> deh_objectid e0 = t \<and> iget sb t \<noteq> None \<and> d = \<lparr>d_name = m, d_inode = Some t\<rparr>"
  using assms by (auto simp: lookup_one_len_def split: option.splits)

lemma lookup_negD:
  assumes "lookup_one_len m base sb = Inr d" and "d_inode d = None"
  shows "\<exists>b bi. d_inode base = Some b \<and> iget sb b = Some bi
           \<and> s_fault sb (P_lookup b m) = None
           \<and> find (\<lambda>de. de_name de = m \<and> deh_visible de) (i_entries bi) = None
           \<and> d = \<lparr>d_name = m, d_inode = None\<rparr>"
  using assms by (auto simp: lookup_one_len_def split: option.splits)

lemma lookup_posI:
  assumes "d_inode base = Some b" and "iget sb b = Some bi"
    and "s_fault sb (P_lookup b m) = None"
    and "find (\<lambda>de. de_name de = m \<and> deh_visible de) (i_entries bi) = Some e0"
    and "iget sb (deh_objectid e0) \<noteq> None"
  shows "lookup_one_len m base sb = Inr \<lparr>d_name = m, d_inode = Some (deh_objectid e0)\<rparr>"
  using assms by (auto simp: lookup_one_len_def split: option.splits)

lemma lookup_added_pos:
  assumes di: "iget sb dir = Some di" and n: "iget sb n = None"
    and e: "i_entries di' = i_entries di @ [e]"
    and l: "lookup_one_len m base sb = Inr d" and p: "d_inode d \<noteq> None"
  shows "lookup_one_len m base (iput n ni (iput dir di' sb)) = Inr d"
proof -
  from p obtain t where t: "d_inode d = Some t" by auto
  from lookup_posD [OF l t] obtain b bi e0 where
    b: "d_inode base = Some b" "iget sb b = Some bi" "s_fault sb (P_lookup b m) = None"
    "find (\<lambda>de. de_name de = m \<and> deh_visible de) (i_entries bi) = Some e0"
    "deh_objectid e0 = t" "iget sb t \<noteq> None" "d = \<lparr>d_name = m, d_inode = Some t\<rparr>"
    by blast
  let ?s = "iput n ni (iput dir di' sb)"
  from b(2) n have bn: "b \<noteq> n" by auto
  obtain bi' where bi': "iget ?s b = Some bi'"
    "find (\<lambda>de. de_name de = m \<and> deh_visible de) (i_entries bi') = Some e0"
    using b(2,4) bn di e by (cases "b = dir") (auto simp: iget_iput find_snoc)
  have "iget ?s (deh_objectid e0) \<noteq> None" using b(5,6) by (auto simp: iget_iput)
  from lookup_posI [OF b(1) bi'(1) _ bi'(2) this] b(3,5,7) show ?thesis
    by (simp add: iput_fields)
qed

lemma lookup_added_new:
  assumes di: "iget sb dir = Some di" and n: "iget sb n = None"
    and e: "i_entries di' = i_entries di
           @ [\<lparr>deh_offset = off, deh_objectid = n, de_name = name, deh_visible = True\<rparr>]"
    and l: "lookup_one_len name base sb = Inr d" and p: "d_inode d = None"
    and base: "d_inode base = Some dir"
  shows "lookup_one_len name base (iput n ni (iput dir di' sb)) = Inr (d\<lparr>d_inode := Some n\<rparr>)"
proof -
  from lookup_negD [OF l p] base di have
    b: "s_fault sb (P_lookup dir name) = None"
    "find (\<lambda>de. de_name de = name \<and> deh_visible de) (i_entries di) = None"
    "d = \<lparr>d_name = name, d_inode = None\<rparr>"
    by auto
  let ?s = "iput n ni (iput dir di' sb)"
  let ?e = "\<lparr>deh_offset = off, deh_objectid = n, de_name = name, deh_visible = True\<rparr>"
  from di n have dn: "dir \<noteq> n" by auto
  have 1: "iget ?s dir = Some di'" using dn by (simp add: iget_iput)
  have 2: "find (\<lambda>de. de_name de = name \<and> deh_visible de) (i_entries di') = Some ?e"
    using b(2) by (simp add: e find_snoc)
  have 3: "iget ?s (deh_objectid ?e) \<noteq> None" by (simp add: iget_iput)
  from lookup_posI [OF base 1 _ 2 3] b(1,3) show ?thesis by (simp add: iput_fields)
qed

lemma i_op_mkdir_Inr:
  assumes "i_op_mkdir dir de mode sb = (Inr de', sb')"
  shows "\<exists>di di' ni. iget sb dir = Some di
     \<and> i_entries di' = i_entries di
          @ [\<lparr>deh_offset = new_offset (i_entries di), deh_objectid = new_objectid sb,
              de_name = d_name de, deh_visible = True\<rparr>]
     \<and> sb' = iput (new_objectid sb) ni (iput dir di' sb)
     \<and> de' = de\<lparr>d_inode := Some (new_objectid sb)\<rparr>"
proof -
  from assms obtain di where di: "iget sb dir = Some di"
    and r: "sb' = iput (new_objectid sb) (new_inode di (new_objectid sb) True mode)
              (iput dir ((add_entry (d_name de) (new_objectid sb) di)\<lparr>i_nlink := Suc (i_nlink di)\<rparr>) sb)"
      "de' = de\<lparr>d_inode := Some (new_objectid sb)\<rparr>"
    by (auto simp: i_op_mkdir_def Let_def split: option.splits)
  have "i_entries ((add_entry (d_name de) (new_objectid sb) di)\<lparr>i_nlink := Suc (i_nlink di)\<rparr>)
      = i_entries di
          @ [\<lparr>deh_offset = new_offset (i_entries di), deh_objectid = new_objectid sb,
              de_name = d_name de, deh_visible = True\<rparr>]"
    by (simp add: add_entry_def)
  with di r show ?thesis by blast
qed

lemma i_op_create_Inr:
  assumes "i_op_create dir de mode sb = (Inr de', sb')"
  shows "\<exists>di di'. iget sb dir = Some di
     \<and> i_entries di' = i_entries di
          @ [\<lparr>deh_offset = new_offset (i_entries di), deh_objectid = new_objectid sb,
              de_name = d_name de, deh_visible = True\<rparr>]
     \<and> sb' = iput (new_objectid sb) (new_inode di (new_objectid sb) False mode) (iput dir di' sb)
     \<and> de' = de\<lparr>d_inode := Some (new_objectid sb)\<rparr>"
proof -
  from assms obtain di where di: "iget sb dir = Some di"
    and r: "sb' = iput (new_objectid sb) (new_inode di (new_objectid sb) False mode)
              (iput dir (add_entry (d_name de) (new_objectid sb) di) sb)"
      "de' = de\<lparr>d_inode := Some (new_objectid sb)\<rparr>"
    by (auto simp: i_op_create_def Let_def split: option.splits)
  have "i_entries (add_entry (d_name de) (new_objectid sb) di)
      = i_entries di
          @ [\<lparr>deh_offset = new_offset (i_entries di), deh_objectid = new_objectid sb,
              de_name = d_name de, deh_visible = True\<rparr>]"
    by (simp add: add_entry_def)
  with di r show ?thesis by blast
qed

lemma i_op_mkdir_fields:
  assumes "i_op_mkdir dir de mode sb = (r, sb')"
  shows "s_fault sb' = s_fault sb" "xattr_root sb' = xattr_root sb" "priv_root sb' = priv_root sb"
  using assms by (auto simp: i_op_mkdir_def Let_def iput_fields split: option.splits)

lemma i_op_create_fields:
  assumes "i_op_create dir de mode sb = (r, sb')"
  shows "s_fault sb' = s_fault sb" "xattr_root sb' = xattr_root sb" "priv_root sb' = priv_root sb"
  using assms by (auto simp: i_op_create_def Let_def iput_fields split: option.splits)

lemma i_op_unlink_fields:
  assumes "i_op_unlink dir de sb = (r, sb')"
  shows "s_fault sb' = s_fault sb" "xattr_root sb' = xattr_root sb" "priv_root sb' = priv_root sb"
  using assms by (auto simp: i_op_unlink_def Let_def iput_fields split: option.splits)

text \<open>After \<open>open_xa_dir\<close> has returned a directory, that directory is resolved.\<close>

lemma open_xa_dir_root_cached:
  assumes "open_xa_dir_root flags sb = (Inr xaroot, sbR)"
  shows "xattr_root sbR = Some xaroot"
proof -
  obtain r0 sb0 where g: "get_xa_root sb = (r0, sb0)" by (cases "get_xa_root sb")
  show ?thesis
  proof (cases r0)
    case (Inl e)
    with assms g show ?thesis by (simp add: open_xa_dir_root_def)
  next
    case (Inr xo)
    show ?thesis
    proof (cases xo)
      case (Some x)
      with Inr assms g have "xaroot = x" "sbR = sb0" by (simp_all add: open_xa_dir_root_def)
      with get_xa_root_cases [OF g] Inr Some show ?thesis by auto
    next
      case None
      with Inr g get_xa_root_cases [OF g] have s: "sb0 = sb" "xattr_root sb = None" by auto
      with None Inr g have a: "get_xa_root_aux sb = (Inr None, sb)"
        by (simp add: get_xa_root_def)
      from None Inr assms g s have c: "create_xa_root sb = (Inr xaroot, sbR)"
        by (simp add: open_xa_dir_root_def split: if_splits)
      from a c show ?thesis
        by (auto simp: get_xa_root_aux_def create_xa_root_def
            split: option.splits sum.splits prod.splits)
    qed
  qed
qed

lemma open_xa_dir_root_fields:
  assumes "open_xa_dir_root flags sb = (r, sbR)"
  shows "s_fault sbR = s_fault sb" "priv_root sbR = priv_root sb"
proof -
  obtain r0 sb0 where g: "get_xa_root sb = (r0, sb0)" by (cases "get_xa_root sb")
  from get_xa_root_cases [OF g] have 0: "s_fault sb0 = s_fault sb \<and> priv_root sb0 = priv_root sb"
    by auto
  have "s_fault sbR = s_fault sb0 \<and> priv_root sbR = priv_root sb0"
    using assms g
    by (auto simp: open_xa_dir_root_def create_xa_root_def i_op_mkdir_fields
        split: option.splits sum.splits prod.splits if_splits)
  with 0 show "s_fault sbR = s_fault sb" "priv_root sbR = priv_root sb" by simp_all
qed

lemma open_xa_dir_resolved:
  assumes "open_xa_dir inode flags sb = (Inr xadir, sbA)"
  shows "xa_dir_resolved inode xadir sbA"
proof -
  from assms obtain xaroot sbR where
    r: "open_xa_dir_root flags sb = (Inr xaroot, sbR)"
    by (cases "open_xa_dir_root flags sb") (auto simp: open_xa_dir_def split: sum.splits)
  note c = open_xa_dir_root_cached [OF r]
  from assms r obtain xadir0 where l: "lookup_one_len (namebuf inode) xaroot sbR = Inr xadir0"
    by (cases "lookup_one_len (namebuf inode) xaroot sbR") (auto simp: open_xa_dir_def)
  show ?thesis
  proof (cases "d_inode xadir0")
    case (Some a)
    with assms r l have "xadir = xadir0" "sbA = sbR" by (simp_all add: open_xa_dir_def)
    with c l Some show ?thesis by (auto simp: xa_dir_resolved_def)
  next
    case None
    with assms r l obtain xr where xr: "d_inode xaroot = Some xr"
      and m: "i_op_mkdir xr xadir0 S_IRWXU sbR = (Inr xadir, sbA)"
      by (auto simp: open_xa_dir_def split: if_splits option.splits sum.splits prod.splits)
    from i_op_mkdir_Inr [OF m] obtain di di' ni where
      d: "iget sbR xr = Some di"
      "i_entries di' = i_entries di
          @ [\<lparr>deh_offset = new_offset (i_entries di), deh_objectid = new_objectid sbR,
              de_name = d_name xadir0, deh_visible = True\<rparr>]"
      "sbA = iput (new_objectid sbR) ni (iput xr di' sbR)"
      "xadir = xadir0\<lparr>d_inode := Some (new_objectid sbR)\<rparr>"
      by blast
    have n: "d_name xadir0 = namebuf inode" by (rule lookup_one_len_name [OF l])
    from lookup_added_new [OF d(1) new_objectid_fresh d(2) l [folded n] None xr, of ni]
    have "lookup_one_len (namebuf inode) xaroot sbA = Inr xadir"
      by (simp add: d(3,4) n)
    moreover have "xattr_root sbA = Some xaroot" using c i_op_mkdir_fields(2) [OF m] by simp
    ultimately show ?thesis by (auto simp: xa_dir_resolved_def d(4))
  qed
qed

lemma xa_dir_resolved_open:
  assumes "xa_dir_resolved inode xadir s"
  shows "open_xa_dir inode FL_READONLY s = (Inr xadir, s)"
  using assms
  by (auto simp: xa_dir_resolved_def open_xa_dir_ro get_xa_root_def)

lemma open_xa_dir_fields:
  assumes "open_xa_dir inode flags sb = (r, sbA)"
  shows "s_fault sbA = s_fault sb" "priv_root sbA = priv_root sb"
proof -
  obtain r0 sbR where g: "open_xa_dir_root flags sb = (r0, sbR)"
    by (cases "open_xa_dir_root flags sb")
  note 0 = open_xa_dir_root_fields [OF g]
  have "s_fault sbA = s_fault sbR \<and> priv_root sbA = priv_root sbR"
    using assms g
    by (auto simp: open_xa_dir_def i_op_mkdir_fields
        split: option.splits sum.splits prod.splits if_splits)
  with 0 show "s_fault sbA = s_fault sb" "priv_root sbA = priv_root sb" by simp_all
qed

lemma get_xa_file_dentry_fields:
  assumes "get_xa_file_dentry inode name flags sb = (r, sb1)"
  shows "s_fault sb1 = s_fault sb" "priv_root sb1 = priv_root sb"
proof -
  obtain r0 sbA where g: "open_xa_dir inode flags sb = (r0, sbA)"
    by (cases "open_xa_dir inode flags sb")
  note 0 = open_xa_dir_fields [OF g]
  have "s_fault sb1 = s_fault sbA \<and> priv_root sb1 = priv_root sbA"
    using assms g
    by (auto simp: get_xa_file_dentry_def i_op_create_fields
        split: option.splits sum.splits prod.splits if_splits)
  with 0 show "s_fault sb1 = s_fault sb" "priv_root sb1 = priv_root sb" by simp_all
qed

lemma open_xa_file_fields:
  assumes "open_xa_file inode name flags sb = (r, sb1)"
  shows "s_fault sb1 = s_fault sb" "priv_root sb1 = priv_root sb"
  using assms get_xa_file_dentry_fields [of inode name flags sb]
  by (auto simp: open_xa_file_def split: prod.splits sum.splits if_splits)

lemma xa_dir_resolved_added:
  assumes "xa_dir_resolved inode xadir s" and "iget s dir = Some di"
    and "i_entries di' = i_entries di @ [e]"
  shows "xa_dir_resolved inode xadir (iput (new_objectid s) ni (iput dir di' s))"
  using assms lookup_added_pos [OF assms(2) new_objectid_fresh assms(3)]
  by (auto simp: xa_dir_resolved_def iput_fields)

lemma xa_dir_resolved_iput:
  assumes "xa_dir_resolved inode xadir s" and "iget s x = Some xi"
    and "i_entries xi' = i_entries xi"
  shows "xa_dir_resolved inode xadir (iput x xi' s)"
  using assms lookup_iput_same_entries [OF assms(2,3)]
  by (auto simp: xa_dir_resolved_def iput_fields)

lemma xa_file_resolved_iput:
  assumes "xa_file_resolved inode name xafile s" and "iget s x = Some xi"
    and "i_entries xi' = i_entries xi"
  shows "xa_file_resolved inode name xafile (iput x xi' s)"
  using assms xa_dir_resolved_iput [OF _ assms(2,3)] lookup_iput_same_entries [OF assms(2,3)]
  by (auto simp: xa_file_resolved_def)

lemma get_xa_file_dentry_resolved:
  assumes g: "get_xa_file_dentry inode name flags sb = (Inr xafile, sb1)"
    and p: "d_inode xafile \<noteq> None"
  shows "xa_file_resolved inode name xafile sb1"
proof -
  from g obtain xadir sbA where o: "open_xa_dir inode flags sb = (Inr xadir, sbA)"
    by (cases "open_xa_dir inode flags sb") (auto simp: get_xa_file_dentry_def split: sum.splits)
  note rd = open_xa_dir_resolved [OF o]
  from rd obtain xd where xd: "d_inode xadir = Some xd" by (auto simp: xa_dir_resolved_def)
  from g o xd obtain xafile0 where l: "lookup_one_len name xadir sbA = Inr xafile0"
    by (cases "lookup_one_len name xadir sbA") (auto simp: get_xa_file_dentry_def)
  show ?thesis
  proof (cases "d_inode xafile0")
    case (Some a)
    with g o xd l have "xafile = xafile0" "sb1 = sbA"
      by (auto simp: get_xa_file_dentry_def split: if_splits)
    with rd l Some show ?thesis by (auto simp: xa_file_resolved_def)
  next
    case None
    with g o xd l p have c: "i_op_create xd xafile0 (S_IRWXU + S_IFREG) sbA = (Inr xafile, sb1)"
      by (auto simp: get_xa_file_dentry_def split: if_splits)
    from i_op_create_Inr [OF c] obtain di di' where
      d: "iget sbA xd = Some di"
      "i_entries di' = i_entries di
          @ [\<lparr>deh_offset = new_offset (i_entries di), deh_objectid = new_objectid sbA,
              de_name = d_name xafile0, deh_visible = True\<rparr>]"
      "sb1 = iput (new_objectid sbA) (new_inode di (new_objectid sbA) False (S_IRWXU + S_IFREG))
               (iput xd di' sbA)"
      "xafile = xafile0\<lparr>d_inode := Some (new_objectid sbA)\<rparr>"
      by blast
    have n: "d_name xafile0 = name" by (rule lookup_one_len_name [OF l])
    from lookup_added_new [OF d(1) new_objectid_fresh d(2) l [folded n] None xd]
    have "lookup_one_len name xadir sb1 = Inr xafile" by (simp add: d(3,4) n)
    moreover from xa_dir_resolved_added [OF rd d(1,2)]
    have "xa_dir_resolved inode xadir sb1" by (simp add: d(3))
    ultimately show ?thesis using p by (auto simp: xa_file_resolved_def)
  qed
qed

lemma xa_file_resolved_open:
  assumes "xa_file_resolved inode name xafile s"
  shows "open_xa_file inode name FL_READONLY s = (dentry_open xafile s, s)"
proof -
  from assms obtain xadir where
    d: "xa_dir_resolved inode xadir s" "lookup_one_len name xadir s = Inr xafile"
    "d_inode xafile \<noteq> None"
    by (auto simp: xa_file_resolved_def)
  from d(1) obtain xd where xd: "d_inode xadir = Some xd" by (auto simp: xa_dir_resolved_def)
  from xa_dir_resolved_open [OF d(1)] xd d(2,3)
  have "get_xa_file_dentry inode name FL_READONLY s = (Inr xafile, s)"
    by (simp add: get_xa_file_dentry_def)
  with d(3) show ?thesis by (auto simp: open_xa_file_def)
qed

lemma dentry_open_Inr: "dentry_open de sb = Inr fp \<Longrightarrow> fp = de"
  by (auto simp: dentry_open_def split: option.splits)

lemma open_xa_file_resolved:
  assumes "open_xa_file inode name flags sb = (Inr fp, sb1)"
  shows "xa_file_resolved inode name fp sb1" and "d_inode fp \<noteq> None"
    and "dentry_open fp sb1 = Inr fp"
proof -
  from assms obtain xafile where
    g: "get_xa_file_dentry inode name flags sb = (Inr xafile, sb1)"
    and p: "d_inode xafile \<noteq> None" and o: "dentry_open xafile sb1 = Inr fp"
    by (cases "get_xa_file_dentry inode name flags sb")
       (auto simp: open_xa_file_def split: sum.splits if_splits)
  from dentry_open_Inr [OF o] have e: "fp = xafile" .
  from get_xa_file_dentry_resolved [OF g p] e show "xa_file_resolved inode name fp sb1" by simp
  from p e show "d_inode fp \<noteq> None" by simp
  from o e show "dentry_open fp sb1 = Inr fp" by simp
qed

lemma reiserfs_xattr_del_fields:
  assumes "reiserfs_xattr_del inode name sb = (r, sb2)"
  shows "s_fault sb2 = s_fault sb" "priv_root sb2 = priv_root sb"
proof -
  obtain r0 sb1 where o: "open_xa_dir inode FL_READONLY sb = (r0, sb1)"
    by (cases "open_xa_dir inode FL_READONLY sb")
  note 0 = open_xa_dir_fields [OF o]
  have "s_fault sb2 = s_fault sb1 \<and> priv_root sb2 = priv_root sb1"
    using assms o
    by (auto simp: reiserfs_xattr_del_def reiserfs_xattr_del_aux_def i_op_unlink_fields
        split: sum.splits option.splits if_splits)
  with 0 show "s_fault sb2 = s_fault sb" "priv_root sb2 = priv_root sb" by simp_all
qed

lemma no_fault_cong: "s_fault sb' = s_fault sb \<Longrightarrow> no_fault sb' = no_fault sb"
  by (simp add: no_fault_def)

text \<open>What a successful \<open>reiserfs_xattr_set\<close> leaves behind.\<close>

lemma xattr_set_open_file_post:
  "xattr_set_open_file inode name buffer buffer_size h flags newattrs sb = Some y \<Longrightarrow>
     buffer = Some P \<Longrightarrow> buffer_size = length P \<Longrightarrow> fst y = Inr () \<Longrightarrow> no_fault sb \<Longrightarrow>
     \<exists>fp x xi. xa_file_resolved inode name fp (snd y) \<and> d_inode fp = Some x
        \<and> iget (snd y) x = Some xi \<and> i_size xi = 8 + length P
        \<and> i_data xi = cpu_to_le32 REISERFS_XATTR_MAGIC @ cpu_to_le32 h @ P
        \<and> no_fault (snd y)"
proof (induction inode name buffer buffer_size h flags newattrs sb y
    rule: xattr_set_open_file.raw_induct [rotated -1, consumes 1, case_names 1])
  case (1 f inode name buffer buffer_size xahash flags newattrs sb y)
  obtain r sb1 where o: "open_xa_file inode name flags sb = (r, sb1)"
    by (cases "open_xa_file inode name flags sb")
  from 1(2,5) o obtain fp where r: "r = Inr fp" by (cases r) auto
  note res = open_xa_file_resolved [OF o [unfolded r]]
  from res(2) obtain x where x: "d_inode fp = Some x" by auto
  have nf1: "no_fault sb1" using open_xa_file_fields(1) [OF o] 1(6) by (simp add: no_fault_def)
  from 1(2,5) o r x obtain xi where xi: "iget sb1 x = Some xi"
    by (cases "iget sb1 x") auto
  show ?case
  proof (cases "1 < i_nlink xi")
    case True
    obtain r2 sb2 where d: "reiserfs_xattr_del inode name sb1 = (r2, sb2)"
      by (cases "reiserfs_xattr_del inode name sb1")
    from 1(2,5) o r x xi True d obtain u where r2: "r2 = Inr u" by (cases r2) auto
    have nf2: "no_fault sb2" using reiserfs_xattr_del_fields(1) [OF d] nf1
      by (simp add: no_fault_def)
    from 1(2) o r x xi True d r2
    have "f inode name buffer buffer_size xahash
            (if flags AND XATTR_REPLACE \<noteq> 0 then flags AND NOT XATTR_REPLACE else flags)
            newattrs sb2
          = Some y" by simp
    from 1(1) [OF this 1(3,4,5) nf2] show ?thesis .
  next
    case False
    with 1(2) o r x xi
    have "y = xattr_set_write fp x buffer buffer_size xahash newattrs sb1" by simp
    with xattr_set_write_ok [OF nf1 x xi, of P xahash newattrs] 1(3,4)
    have y: "y = (Inr (), iput x (xi\<lparr>i_size := 8 + length P,
                            i_data := cpu_to_le32 REISERFS_XATTR_MAGIC @ cpu_to_le32 xahash @ P,
                            i_ctime := ia_ctime newattrs\<rparr>) sb1)" by simp
    let ?xi = "xi\<lparr>i_size := 8 + length P,
                 i_data := cpu_to_le32 REISERFS_XATTR_MAGIC @ cpu_to_le32 xahash @ P,
                 i_ctime := ia_ctime newattrs\<rparr>"
    have "xa_file_resolved inode name fp (iput x ?xi sb1)"
      by (rule xa_file_resolved_iput [OF res(1) xi]) simp
    moreover have "iget (iput x ?xi sb1) x = Some ?xi" by (simp add: iget_iput)
    ultimately show ?thesis using nf1 x unfolding y snd_conv
      by (intro exI [of _ fp] exI [of _ x] exI [of _ ?xi]) simp
  qed
qed


lemma open_xa_file_ro_success:
  assumes "open_xa_file inode name FL_READONLY sb = (Inr fp, sb1)"
    and "flags AND XATTR_CREATE = 0"
  shows "open_xa_file inode name flags sb = (Inr fp, sb1)"
proof -
  obtain r0 sb0 where o: "open_xa_dir inode FL_READONLY sb = (r0, sb0)"
    by (cases "open_xa_dir inode FL_READONLY sb")
  from o assms(1) obtain xadir where r0: "r0 = Inr xadir"
    by (cases r0) (auto simp: open_xa_file_def get_xa_file_dentry_def)
  from open_xa_dir_ro_success [OF o [unfolded r0]]
  have o': "open_xa_dir inode flags sb = (Inr xadir, sb0)" .
  from assms o r0 o' show ?thesis
    by (auto simp: open_xa_file_def get_xa_file_dentry_def
        split: option.splits sum.splits if_splits)
qed

subsection \<open>A shared attribute file is copied off\<close>

lemma lookup_iput_other:
  assumes "d_inode base = Some b" and "b \<noteq> x" and "iget s x \<noteq> None"
  shows "lookup_one_len m base (iput x xi' s) = lookup_one_len m base s"
  using assms
  by (auto simp: lookup_one_len_def iget_iput iput_fields split: option.splits)

lemma i_op_unlink_ok:
  assumes "no_fault s" and "iget s d = Some di" and "d_inode fp = Some x"
    and "iget s x = Some xi" and "x \<noteq> d"
  shows "i_op_unlink d fp s
       = (Inr (), iput x (xi\<lparr>i_nlink := i_nlink xi - 1\<rparr>)
                   (iput d (di\<lparr>i_entries :=
                      filter (\<lambda>e. \<not> (de_name e = d_name fp \<and> deh_visible e)) (i_entries di)\<rparr>)
                    s))"
  using assms by (simp add: i_op_unlink_def no_fault_def Let_def iget_iput)

lemma lookup_unlinked:
  assumes "d_inode xadir = Some d" and "iget s d = Some di" and "no_fault s" and "x \<noteq> d"
  shows "lookup_one_len name xadir
           (iput x xi' (iput d (di\<lparr>i_entries :=
                      filter (\<lambda>e. \<not> (de_name e = name \<and> deh_visible e)) (i_entries di)\<rparr>) s))
         = Inr \<lparr>d_name = name, d_inode = None\<rparr>"
  using assms
  by (simp add: lookup_one_len_def iget_iput iput_fields no_fault_def find_filter_None)


lemma flags_after_del:
  fixes flags :: u32
  assumes "flags AND FL_READONLY = 0"
  defines "fl \<equiv> (if flags AND XATTR_REPLACE \<noteq> 0 then flags AND NOT XATTR_REPLACE else flags)"
  shows "fl AND XATTR_REPLACE = 0" and "fl AND FL_READONLY = 0"
proof -
  show "fl AND XATTR_REPLACE = 0" by (simp add: fl_def and.assoc)
  have "(flags AND NOT XATTR_REPLACE) AND FL_READONLY = (flags AND FL_READONLY) AND NOT XATTR_REPLACE"
    by (simp add: ac_simps)
  with assms(1) show "fl AND FL_READONLY = 0" by (simp add: fl_def)
qed

text \<open>
  C5.  When the attribute file that \<open>reiserfs_xattr_set\<close> has opened has more than one
  link, the call takes the delete path, \<open>reiserfs_xattr_del\<close>, which succeeds and after
  which an open with \<open>XATTR_REPLACE\<close> would find no attribute; it then goes back to
  \<open>open_file\<close> with \<open>XATTR_REPLACE\<close> cleared and succeeds.  Afterwards the name leads
  to a new file with one link that holds the header and the value, and the old file has
  kept its content and lost one link.  The file is a regular file of the private tree,
  the directory of the object is neither the attribute root nor the file itself, and no
  collaborator fails.
\<close>

theorem xattr_set_shared_copied:
  assumes v: "\<not> sd_version_v1 inode" and nf: "no_fault sb"
    and ro: "flags AND FL_READONLY = 0"
    and o: "open_xa_file inode name flags sb = (Inr fp, sb1)"
    and x: "d_inode fp = Some x" and xi: "iget sb1 x = Some xi"
    and shared: "1 < i_nlink xi" and reg: "\<not> i_isdir xi" and priv: "i_priv_object xi"
    and root: "xattr_root sb1 = Some xaroot" "d_inode xaroot = Some r"
    and dir: "lookup_one_len (namebuf inode) xaroot sb1 = Inr xadir" "d_inode xadir = Some d"
    and ne: "d \<noteq> r" "x \<noteq> d"
  shows "\<exists>sb2 sb' n xn.
           reiserfs_xattr_del inode name sb1 = (Inr (), sb2)
         \<and> open_xa_file inode name XATTR_REPLACE sb2 = (Inl ENODATA, sb2)
         \<and> reiserfs_xattr_set inode name (Some P) (length P) flags newattrs sb = Some (Inr (), sb')
         \<and> iget sb1 n = None
         \<and> open_xa_file inode name FL_READONLY sb'
             = (Inr \<lparr>d_name = name, d_inode = Some n\<rparr>, sb')
         \<and> iget sb' n = Some xn \<and> i_nlink xn = 1 \<and> i_size xn = 8 + length P
         \<and> i_data xn = cpu_to_le32 REISERFS_XATTR_MAGIC
               @ cpu_to_le32 (if P = [] then 0 else xattr_hash P (length P)) @ P
         \<and> iget sb' x = Some (xi\<lparr>i_nlink := i_nlink xi - 1\<rparr>)"
proof -
  define h where "h = (if P = [] then 0 else xattr_hash P (length P))"
  note r1 = open_xa_file_resolved [OF o]
  from r1(1) root dir have lf: "lookup_one_len name xadir sb1 = Inr fp"
    by (auto simp: xa_file_resolved_def xa_dir_resolved_def)
  have dres: "xa_dir_resolved inode xadir sb1"
    using root dir by (auto simp: xa_dir_resolved_def)
  have nf1: "no_fault sb1" using open_xa_file_fields(1) [OF o] nf by (simp add: no_fault_def)
  from lookup_posD [OF lf x] dir(2) obtain di where di: "iget sb1 d = Some di" by auto
  from lookup_one_len_name [OF lf] have nm: "d_name fp = name" .
  define di' where "di' = di\<lparr>i_entries :=
      filter (\<lambda>e. \<not> (de_name e = name \<and> deh_visible e)) (i_entries di)\<rparr>"
  define xi' where "xi' = xi\<lparr>i_nlink := i_nlink xi - 1\<rparr>"
  define s2 where "s2 = iput x xi' (iput d di' sb1)"
  have del: "reiserfs_xattr_del inode name sb1 = (Inr (), s2)"
    unfolding reiserfs_xattr_del_def xa_dir_resolved_open [OF dres]
    using i_op_unlink_ok [OF nf1 di x xi ne(2)]
    by (simp add: reiserfs_xattr_del_aux_def lf x xi reg priv dir(2) nm s2_def di'_def xi'_def)
  have nf2: "no_fault s2" using nf1 by (simp add: s2_def)
  have root2: "xattr_root s2 = Some xaroot" by (simp add: s2_def iput_fields root(1))
  have "lookup_one_len (namebuf inode) xaroot (iput d di' sb1) = Inr xadir"
    using lookup_iput_other [OF root(2), of d sb1 "namebuf inode" di'] ne(1) di dir(1) by auto
  moreover have ix: "iget (iput d di' sb1) x = Some xi" using ne(2) xi by (simp add: iget_iput)
  ultimately have dir2: "lookup_one_len (namebuf inode) xaroot s2 = Inr xadir"
    unfolding s2_def using lookup_iput_same_entries [OF ix, of xi' "namebuf inode" xaroot]
    by (simp add: xi'_def)
  have dres2: "xa_dir_resolved inode xadir s2"
    using root2 dir2 dir(2) by (auto simp: xa_dir_resolved_def)
  have neg: "lookup_one_len name xadir s2 = Inr \<lparr>d_name = name, d_inode = None\<rparr>"
    unfolding s2_def di'_def by (rule lookup_unlinked [OF dir(2) di nf1 ne(2)])
  define fl where "fl = (if flags AND XATTR_REPLACE \<noteq> 0 then flags AND NOT XATTR_REPLACE
                         else flags)"
  note fl = flags_after_del [OF ro, folded fl_def]
  have od2: "open_xa_dir inode fl s2 = (Inr xadir, s2)"
    by (rule open_xa_dir_ro_success [OF xa_dir_resolved_open [OF dres2]])
  have di2: "iget s2 d = Some di'" using ne(2) by (simp add: s2_def iget_iput)
  define n where "n = new_objectid s2"
  define ni where "ni = new_inode di' n False (S_IRWXU + S_IFREG)"
  define s3 where "s3 = iput n ni (iput d (add_entry name n di') s2)"
  define fp' where "fp' = \<lparr>d_name = name, d_inode = Some n\<rparr>"
  have cr: "i_op_create d \<lparr>d_name = name, d_inode = None\<rparr> (S_IRWXU + S_IFREG) s2 = (Inr fp', s3)"
    using nf2 by (simp add: i_op_create_def di2 no_fault_def Let_def n_def ni_def s3_def fp'_def)
  have g2: "get_xa_file_dentry inode name fl s2 = (Inr fp', s3)"
    by (simp add: get_xa_file_dentry_def od2 dir(2) neg fl cr)
  have nf3: "no_fault s3" using nf2 by (simp add: s3_def)
  have o2: "open_xa_file inode name fl s2 = (Inr fp', s3)"
    using nf3 by (simp add: open_xa_file_def g2 dentry_open_def no_fault_def fp'_def)
  have n3: "iget s3 n = Some ni" by (simp add: s3_def iget_iput)
  have nl: "i_nlink ni = 1" by (simp add: ni_def new_inode_def)
  have fx: "d_inode fp' = Some n" by (simp add: fp'_def)
  define xn where "xn = ni\<lparr>i_size := 8 + length P,
       i_data := cpu_to_le32 REISERFS_XATTR_MAGIC @ cpu_to_le32 h @ P,
       i_ctime := ia_ctime newattrs\<rparr>"
  define s4 where "s4 = iput n xn s3"
  have w: "xattr_set_write fp' n (Some P) (length P) h newattrs s3 = (Inr (), s4)"
    unfolding s4_def xn_def by (rule xattr_set_write_ok [OF nf3 fx n3])
  have "xattr_set_open_file inode name (Some P) (length P) h fl newattrs s2
          = Some (Inr (), s4)"
    by (subst xattr_set_open_file.simps) (simp add: o2 fx n3 nl w)
  then have "xattr_set_open_file inode name (Some P) (length P) h flags newattrs sb
               = Some (Inr (), s4)"
    using shared
    by (subst xattr_set_open_file.simps) (simp add: o x xi del fl_def)
  then have set: "reiserfs_xattr_set inode name (Some P) (length P) flags newattrs sb
                    = Some (Inr (), s4)"
    using v by (auto simp: reiserfs_xattr_set_def h_def)
  have "xa_file_resolved inode name fp' s4"
    unfolding s4_def
    by (rule xa_file_resolved_iput [OF open_xa_file_resolved(1) [OF o2] n3]) (simp add: xn_def)
  from xa_file_resolved_open [OF this]
  have o4: "open_xa_file inode name FL_READONLY s4 = (Inr fp', s4)"
    using nf3 by (simp add: dentry_open_def fp'_def s4_def no_fault_def iput_fields)
  have "iget s2 n = None" unfolding n_def by (rule new_objectid_fresh)
  then have fresh: "iget sb1 n = None" and nx: "n \<noteq> x" and nd: "n \<noteq> d"
    by (auto simp: s2_def iget_iput split: if_splits)
  have old: "iget s4 x = Some xi'"
    using nx ne(2) by (simp add: s4_def s3_def s2_def iget_iput)
  have new: "iget s4 n = Some xn" by (simp add: s4_def iget_iput)
  have "i_nlink xn = 1" "i_size xn = 8 + length P"
    "i_data xn = cpu_to_le32 REISERFS_XATTR_MAGIC @ cpu_to_le32 h @ P"
    by (simp_all add: xn_def nl)
  moreover have "open_xa_file inode name XATTR_REPLACE s2 = (Inl ENODATA, s2)"
    using open_xa_dir_ro_success [OF xa_dir_resolved_open [OF dres2], of XATTR_REPLACE]
    by (simp add: open_xa_file_def get_xa_file_dentry_def dir(2) neg XATTR_REPLACE_def
        XATTR_CREATE_def)
  ultimately show ?thesis using del set fresh o4 old new
    unfolding fp'_def xi'_def h_def by blast
qed


lemma ex_shared:
  "open_xa_file ex_inode ''user.shared'' FL_READONLY ex_sb
     = (Inr \<lparr>d_name = ''user.shared'', d_inode = Some 7\<rparr>, ex_sb1)"
  "xattr_root ex_sb1 = Some \<lparr>d_name = XAROOT_NAME, d_inode = Some 2\<rparr>"
  "lookup_one_len (namebuf ex_inode) \<lparr>d_name = XAROOT_NAME, d_inode = Some 2\<rparr> ex_sb1
     = Inr ex_xadir"
proof -
  show "open_xa_file ex_inode ''user.shared'' FL_READONLY ex_sb
     = (Inr \<lparr>d_name = ''user.shared'', d_inode = Some 7\<rparr>, ex_sb1)"
    using ex_no_fault(2)
    by (simp add: open_xa_file_def get_xa_file_dentry_def ex_open_xa_dir ex_lookup
        dentry_open_def no_fault_def)
  show r: "xattr_root ex_sb1 = Some \<lparr>d_name = XAROOT_NAME, d_inode = Some 2\<rparr>"
    by (simp add: ex_sb1_def)
  from open_xa_dir_resolved [OF ex_open_xa_dir] r
  show "lookup_one_len (namebuf ex_inode) \<lparr>d_name = XAROOT_NAME, d_inode = Some 2\<rparr> ex_sb1
     = Inr ex_xadir"
    by (auto simp: xa_dir_resolved_def)
qed

theorem xattr_set_shared_copied_witness:
  "open_xa_file ex_inode ''user.shared'' XATTR_REPLACE ex_sb
     = (Inr \<lparr>d_name = ''user.shared'', d_inode = Some 7\<rparr>, ex_sb1)
   \<and> iget ex_sb1 7 = Some (ex_file 7 True 2 ex_attr)
   \<and> 1 < i_nlink (ex_file 7 True 2 ex_attr)
   \<and> (\<exists>sb2 sb' n xn.
         reiserfs_xattr_del ex_inode ''user.shared'' ex_sb1 = (Inr (), sb2)
       \<and> open_xa_file ex_inode ''user.shared'' XATTR_REPLACE sb2 = (Inl ENODATA, sb2)
       \<and> reiserfs_xattr_set ex_inode ''user.shared'' (Some [1, 2, 3]) 3 XATTR_REPLACE ex_newattrs
             ex_sb
           = Some (Inr (), sb')
       \<and> iget ex_sb1 n = None
       \<and> open_xa_file ex_inode ''user.shared'' FL_READONLY sb'
           = (Inr \<lparr>d_name = ''user.shared'', d_inode = Some n\<rparr>, sb')
       \<and> iget sb' n = Some xn \<and> i_nlink xn = 1 \<and> i_size xn = 11
       \<and> i_data xn = cpu_to_le32 REISERFS_XATTR_MAGIC
               @ cpu_to_le32 (xattr_hash [1, 2, 3] 3) @ [1, 2, 3]
       \<and> iget sb' 7 = Some (ex_file 7 True 1 ex_attr))"
proof -
  let ?P = "[1, 2, 3] :: u8 list"
  have len: "length ?P = 3" by simp
  have v: "\<not> sd_version_v1 ex_inode" by (simp add: ex_inode_def ex_file_def)
  have f: "XATTR_REPLACE AND FL_READONLY = 0" "XATTR_REPLACE AND XATTR_CREATE = 0"
    by (simp_all add: XATTR_REPLACE_def FL_READONLY_def XATTR_CREATE_def)
  note o = open_xa_file_ro_success [OF ex_shared(1) f(2)]
  have x: "d_inode \<lparr>d_name = ''user.shared'', d_inode = Some 7\<rparr> = Some 7"
    and r: "d_inode \<lparr>d_name = XAROOT_NAME, d_inode = Some 2\<rparr> = Some 2" by simp_all
  have p: "1 < i_nlink (ex_file 7 True 2 ex_attr)" "\<not> i_isdir (ex_file 7 True 2 ex_attr)"
    "i_priv_object (ex_file 7 True 2 ex_attr)" by (simp_all add: ex_file_def)
  have ne: "(3::nat) \<noteq> 2" "(7::nat) \<noteq> 3" by simp_all
  have e: "(ex_file 7 True 2 ex_attr)\<lparr>i_nlink := i_nlink (ex_file 7 True 2 ex_attr) - 1\<rparr>
             = ex_file 7 True 1 ex_attr" by (simp add: ex_file_def)
  from xattr_set_shared_copied [OF v ex_no_fault(1) f(1) o x ex_iget(2) p ex_shared(2) r
      ex_shared(3) ex_xadir_inode ne, where P = ?P and newattrs = ex_newattrs]
  show ?thesis unfolding len e using o ex_iget(2) p(1) by simp
qed

subsection \<open>Listing when there is no attribute\<close>

lemma open_xa_dir_missing:
  assumes "xattr_root sb = Some xaroot"
    and "lookup_one_len (namebuf inode) xaroot sb = Inr xadir" and "d_inode xadir = None"
  shows "open_xa_dir inode FL_READONLY sb = (Inl ENODATA, sb)"
  using assms
  by (simp add: open_xa_dir_def open_xa_dir_root_def get_xa_root_def FL_READONLY_def
      XATTR_CREATE_def)

text \<open>
  C10.  When \<open>open_xa_dir\<close> finds no attribute directory for the object and answers
  \<open>ENODATA\<close>, \<open>reiserfs_listxattr\<close> returns 0, a success, whatever the buffer is, and
  leaves the buffer as it was.
\<close>

theorem reiserfs_listxattr_no_dir:
  assumes "s_xattrs sb" and "\<not> sd_version_v1 inode"
    and "open_xa_dir inode FL_READONLY sb = (Inl ENODATA, sb1)"
  shows "reiserfs_listxattr xattr_handlers mv small_buf (Some inode) buffer bsize sb
           = (Inr 0, buffer, sb1)"
  using assms by (simp add: reiserfs_listxattr_def)

theorem reiserfs_listxattr_no_dir_witness:
  "s_xattrs ex_sb \<and> \<not> sd_version_v1 (ex_file 48879 False 1 [])
   \<and> open_xa_dir (ex_file 48879 False 1 []) FL_READONLY ex_sb = (Inl ENODATA, ex_sb1)
   \<and> reiserfs_listxattr [] [] [] (Some (ex_file 48879 False 1 [])) (Some ''abc'') 3 ex_sb
        = (Inr 0, Some ''abc'', ex_sb1)"
proof -
  have s: "s_xattrs ex_sb" by (simp add: ex_sb_def)
  have v: "\<not> sd_version_v1 (ex_file 48879 False 1 [])" by (simp add: ex_file_def)
  have o: "open_xa_dir (ex_file 48879 False 1 []) FL_READONLY ex_sb = (Inl ENODATA, ex_sb1)"
    by (simp add: ex_defs ex_open_defs ex_sb1_def)
  from reiserfs_listxattr_no_dir [OF s v o] s v o show ?thesis by simp
qed

subsection \<open>Opening with creation\<close>

lemma hex_digits_length: "0 < length (hex_digits (Suc k) n)"
  by simp

lemma hex_digits_le: "length (hex_digits k n) \<le> k"
  by (induction k arbitrary: n) auto

lemma namebuf_length: "3 \<le> length (namebuf inode)"
proof -
  have e: "(8::nat) = Suc 7" by simp
  have p: "0 < length (fmt_X a)" for a unfolding fmt_X_def e
    by (rule hex_digits_length)
  have q: "length (fmt_X a) \<le> 8" for a unfolding fmt_X_def
    by (rule hex_digits_le)
  have "length (namebuf inode)
          = min 16 (length (fmt_X (k_objectid inode)) + 1 + length (fmt_X (i_generation inode)))"
    by (simp add: namebuf_def del: One_nat_def)
  with p [of "k_objectid inode"] p [of "i_generation inode"] q [of "k_objectid inode"]
  show ?thesis by linarith
qed

lemma namebuf_not_dot: "namebuf inode \<noteq> ''.''" "namebuf inode \<noteq> ''..''"
  using namebuf_length [of inode] by auto

text \<open>A directory that holds no more than \<open>.\<close> and \<open>..\<close>.\<close>

lemma lookup_in_new_dir:
  assumes "d_inode base = Some d" and "iget s d = Some di" and "no_fault s"
    and "\<And>e. e \<in> set (i_entries di) \<Longrightarrow> de_name e = ''.'' \<or> de_name e = ''..''"
    and "name \<noteq> ''.''" and "name \<noteq> ''..''"
  shows "lookup_one_len name base s = Inr \<lparr>d_name = name, d_inode = None\<rparr>"
proof -
  have "find (\<lambda>de. de_name de = name \<and> deh_visible de) (i_entries di) = None"
    using assms(4-6) by (auto simp: find_None_iff)
  with assms(1-3) show ?thesis by (simp add: lookup_one_len_def no_fault_def)
qed

lemma i_op_mkdir_ok:
  assumes "no_fault s" and "iget s d = Some di"
  shows "\<exists>n ni s'. i_op_mkdir d de mode s = (Inr (de\<lparr>d_inode := Some n\<rparr>), s')
        \<and> iget s' n = Some ni \<and> no_fault s' \<and> xattr_root s' = xattr_root s
        \<and> (\<forall>e \<in> set (i_entries ni). de_name e = ''.'' \<or> de_name e = ''..'')"
proof -
  let ?n = "new_objectid s"
  let ?ni = "new_inode di ?n True mode"
  let ?s' = "iput ?n ?ni
               (iput d ((add_entry (d_name de) ?n di)\<lparr>i_nlink := Suc (i_nlink di)\<rparr>) s)"
  have "i_op_mkdir d de mode s = (Inr (de\<lparr>d_inode := Some ?n\<rparr>), ?s')"
    using assms by (simp add: i_op_mkdir_def no_fault_def Let_def)
  moreover have "iget ?s' ?n = Some ?ni" by (simp add: iget_iput)
  moreover have "no_fault ?s'" using assms(1) by simp
  moreover have "xattr_root ?s' = xattr_root s" by (simp add: iput_fields)
  moreover have "\<forall>e \<in> set (i_entries ?ni). de_name e = ''.'' \<or> de_name e = ''..''"
    by (simp add: new_inode_def)
  ultimately show ?thesis by blast
qed

lemma i_op_create_ok:
  assumes "no_fault s" and "iget s d = Some di"
  shows "\<exists>n ni s'. i_op_create d de mode s = (Inr (de\<lparr>d_inode := Some n\<rparr>), s')
        \<and> iget s' n = Some ni \<and> no_fault s' \<and> i_nlink ni = 1"
proof -
  let ?n = "new_objectid s"
  let ?ni = "new_inode di ?n False mode"
  let ?s' = "iput ?n ?ni (iput d (add_entry (d_name de) ?n di) s)"
  have "i_op_create d de mode s = (Inr (de\<lparr>d_inode := Some ?n\<rparr>), ?s')"
    using assms by (simp add: i_op_create_def no_fault_def Let_def)
  moreover have "iget ?s' ?n = Some ?ni" by (simp add: iget_iput)
  moreover have "no_fault ?s'" using assms(1) by simp
  moreover have "i_nlink ?ni = 1" by (simp add: new_inode_def)
  ultimately show ?thesis by blast
qed

lemma no_fault_xattr_root [simp]: "no_fault (sb\<lparr>xattr_root := x\<rparr>) = no_fault sb"
  by (simp add: no_fault_def)

text \<open>The attribute root is made when there is none.\<close>

lemma open_xa_dir_root_create:
  assumes nf: "no_fault sb" and pr: "priv_root sb \<noteq> None"
    and g: "get_xa_root sb = (Inr None, sb0)"
  shows "\<exists>xaroot r ri sbR. open_xa_dir_root 0 sb = (Inr xaroot, sbR)
        \<and> d_inode xaroot = Some r \<and> iget sbR r = Some ri \<and> no_fault sbR
        \<and> (\<forall>e \<in> set (i_entries ri). de_name e = ''.'' \<or> de_name e = ''..'')"
proof -
  from pr obtain privroot where p: "priv_root sb = Some privroot" by auto
  from g p have s0: "sb0 = sb" and c: "xattr_root sb = None"
    by (auto simp: get_xa_root_def get_xa_root_aux_def split: option.splits sum.splits)
  from g p c obtain xaroot0 where l: "lookup_one_len XAROOT_NAME privroot sb = Inr xaroot0"
    and n: "d_inode xaroot0 = None"
    by (auto simp: get_xa_root_def get_xa_root_aux_def split: option.splits sum.splits)
  from lookup_negD [OF l n] obtain b bi where b: "d_inode privroot = Some b"
    and bi: "iget sb b = Some bi" by auto
  from i_op_mkdir_ok [OF nf bi, of xaroot0 S_IRWXU] obtain m ni s' where
    mk: "i_op_mkdir b xaroot0 S_IRWXU sb = (Inr (xaroot0\<lparr>d_inode := Some m\<rparr>), s')"
    and ni: "iget s' m = Some ni" and nf': "no_fault s'"
    and dots: "\<forall>e \<in> set (i_entries ni). de_name e = ''.'' \<or> de_name e = ''..''" by blast
  have "open_xa_dir_root 0 sb
          = (Inr (xaroot0\<lparr>d_inode := Some m\<rparr>),
             s'\<lparr>xattr_root := Some (xaroot0\<lparr>d_inode := Some m\<rparr>)\<rparr>)"
    by (simp add: open_xa_dir_root_def g s0 create_xa_root_def p l n b mk)
  with ni nf' dots show ?thesis by (intro exI conjI) (assumption | simp)+
qed

text \<open>The directory of the object is made when there is none.\<close>

lemma open_xa_dir_mkdir:
  assumes r: "open_xa_dir_root 0 sb = (Inr xaroot, sbR)" and nf: "no_fault sbR"
    and l: "lookup_one_len (namebuf inode) xaroot sbR = Inr xadir0"
    and n: "d_inode xadir0 = None"
  shows "\<exists>xadir d di sbA. open_xa_dir inode 0 sb = (Inr xadir, sbA)
        \<and> d_inode xadir = Some d \<and> iget sbA d = Some di \<and> no_fault sbA
        \<and> (\<forall>e \<in> set (i_entries di). de_name e = ''.'' \<or> de_name e = ''..'')"
proof -
  from lookup_negD [OF l n] obtain b bi where b: "d_inode xaroot = Some b"
    and bi: "iget sbR b = Some bi" by auto
  from i_op_mkdir_ok [OF nf bi, of xadir0 S_IRWXU] obtain m ni s' where
    mk: "i_op_mkdir b xadir0 S_IRWXU sbR = (Inr (xadir0\<lparr>d_inode := Some m\<rparr>), s')"
    and ni: "iget s' m = Some ni" and nf': "no_fault s'"
    and dots: "\<forall>e \<in> set (i_entries ni). de_name e = ''.'' \<or> de_name e = ''..''" by blast
  have "open_xa_dir inode 0 sb = (Inr (xadir0\<lparr>d_inode := Some m\<rparr>), s')"
    by (simp add: open_xa_dir_def r l n b mk)
  with ni nf' dots show ?thesis by (intro exI conjI) (assumption | simp)+
qed

text \<open>The attribute file is made when there is none.\<close>

lemma open_xa_file_create:
  assumes o: "open_xa_dir inode 0 sb = (Inr xadir, sbA)" and nf: "no_fault sbA"
    and l: "lookup_one_len name xadir sbA = Inr xafile0" and n: "d_inode xafile0 = None"
  shows "\<exists>fp x xi sb2. open_xa_file inode name 0 sb = (Inr fp, sb2)
        \<and> d_inode fp = Some x \<and> iget sb2 x = Some xi \<and> i_nlink xi = 1"
proof -
  from lookup_negD [OF l n] obtain b bi where b: "d_inode xadir = Some b"
    and bi: "iget sbA b = Some bi" by auto
  from i_op_create_ok [OF nf bi, of xafile0 "S_IRWXU + S_IFREG"] obtain m ni s' where
    mk: "i_op_create b xafile0 (S_IRWXU + S_IFREG) sbA = (Inr (xafile0\<lparr>d_inode := Some m\<rparr>), s')"
    and ni: "iget s' m = Some ni" and nf': "no_fault s'" and nl: "i_nlink ni = 1" by blast
  have "open_xa_file inode name 0 sb = (Inr (xafile0\<lparr>d_inode := Some m\<rparr>), s')"
    using nf'
    by (simp add: open_xa_file_def get_xa_file_dentry_def o b l n mk dentry_open_def no_fault_def)
  with ni nl show ?thesis by (intro exI conjI) (assumption | simp)+
qed


lemma lookup_one_len_err:
  assumes "no_fault s" and "lookup_one_len n b s = Inl e"
  shows "e \<noteq> ENODATA"
  using assms by (auto simp: lookup_one_len_def no_fault_def split: option.splits)

text \<open>
  When reading finds no attribute of the name, opening for writing makes what is
  missing: the attribute root, the directory of the object and the file.
\<close>

lemma open_xa_file_absent:
  assumes nf: "no_fault sb" and pr: "priv_root sb \<noteq> None"
    and nm: "name \<noteq> ''.''" "name \<noteq> ''..''"
    and ro: "open_xa_file inode name FL_READONLY sb = (Inl ENODATA, sb1)"
  shows "\<exists>fp x xi sb2. open_xa_file inode name 0 sb = (Inr fp, sb2)
        \<and> d_inode fp = Some x \<and> iget sb2 x = Some xi \<and> i_nlink xi = 1"
proof -
  obtain r0 sb0 where g: "get_xa_root sb = (r0, sb0)" by (cases "get_xa_root sb")
  from get_xa_root_cases [OF g] nf have nf0: "no_fault sb0" by auto
  note defs = open_xa_file_def get_xa_file_dentry_def open_xa_dir_ro
  show ?thesis
  proof (cases r0)
    case (Inl e)
    with g ro have "e = ENODATA" by (simp add: defs)
    moreover from g Inl nf have "e \<noteq> ENODATA"
      by (auto simp: get_xa_root_def get_xa_root_aux_def
          split: option.splits sum.splits dest: lookup_one_len_err)
    ultimately show ?thesis by simp
  next
    case (Inr ro0)
    show ?thesis
    proof (cases ro0)
      case None
      from open_xa_dir_root_create [OF nf pr g [unfolded Inr None]]
      obtain xaroot r ri sbR where rt: "open_xa_dir_root 0 sb = (Inr xaroot, sbR)"
        and r: "d_inode xaroot = Some r" and ri: "iget sbR r = Some ri" and nfR: "no_fault sbR"
        and dots: "\<forall>e \<in> set (i_entries ri). de_name e = ''.'' \<or> de_name e = ''..''"
        by blast
      from dots have l: "lookup_one_len (namebuf inode) xaroot sbR
                          = Inr \<lparr>d_name = namebuf inode, d_inode = None\<rparr>"
        by (intro lookup_in_new_dir [OF r ri nfR] namebuf_not_dot) simp
      from open_xa_dir_mkdir [OF rt nfR l]
      obtain xadir d di sbA where o: "open_xa_dir inode 0 sb = (Inr xadir, sbA)"
        and d: "d_inode xadir = Some d" and di: "iget sbA d = Some di" and nfA: "no_fault sbA"
        and dots': "\<forall>e \<in> set (i_entries di). de_name e = ''.'' \<or> de_name e = ''..''"
        by auto
      from dots' have l': "lookup_one_len name xadir sbA = Inr \<lparr>d_name = name, d_inode = None\<rparr>"
        by (intro lookup_in_new_dir [OF d di nfA] nm) simp
      from open_xa_file_create [OF o nfA l'] show ?thesis by simp
    next
      case (Some xaroot)
      from g Inr Some have rt: "open_xa_dir_root 0 sb = (Inr xaroot, sb0)"
        by (simp add: open_xa_dir_root_def)
      show ?thesis
      proof (cases "lookup_one_len (namebuf inode) xaroot sb0")
        case (Inl e)
        with g Inr Some ro have "e = ENODATA" by (simp add: defs)
        with lookup_one_len_err [OF nf0 Inl] show ?thesis by simp
      next
        case l: (Inr xadir)
        show ?thesis
        proof (cases "d_inode xadir")
          case None
          from open_xa_dir_mkdir [OF rt nf0 l None]
          obtain xadir1 d di sbA where o: "open_xa_dir inode 0 sb = (Inr xadir1, sbA)"
            and d: "d_inode xadir1 = Some d" and di: "iget sbA d = Some di"
            and nfA: "no_fault sbA"
            and dots': "\<forall>e \<in> set (i_entries di). de_name e = ''.'' \<or> de_name e = ''..''"
            by auto
          from dots' have l': "lookup_one_len name xadir1 sbA
                                = Inr \<lparr>d_name = name, d_inode = None\<rparr>"
            by (intro lookup_in_new_dir [OF d di nfA] nm) simp
          from open_xa_file_create [OF o nfA l'] show ?thesis by simp
        next
          case (Some d)
          from g Inr \<open>ro0 = Some xaroot\<close> l Some
          have oro: "open_xa_dir inode FL_READONLY sb = (Inr xadir, sb0)"
            by (simp add: open_xa_dir_ro)
          note o = open_xa_dir_ro_success [OF oro, of 0]
          show ?thesis
          proof (cases "lookup_one_len name xadir sb0")
            case (Inl e)
            with oro Some ro have "e = ENODATA" by (simp add: open_xa_file_def get_xa_file_dentry_def)
            with lookup_one_len_err [OF nf0 Inl] show ?thesis by simp
          next
            case lf: (Inr xafile)
            have "d_inode xafile = None"
            proof (rule ccontr)
              assume "d_inode xafile \<noteq> None"
              with oro Some lf ro nf0 show False
                by (auto simp: open_xa_file_def get_xa_file_dentry_def dentry_open_def
                    no_fault_def)
            qed
            from open_xa_file_create [OF o nf0 lf this] show ?thesis .
          qed
        qed
      qed
    qed
  qed
qed


subsection \<open>Writing and reading back\<close>

text \<open>Setting an attribute that reading does not find succeeds.\<close>

lemma reiserfs_xattr_set_absent:
  assumes v: "\<not> sd_version_v1 inode" and nf: "no_fault sb" and pr: "priv_root sb \<noteq> None"
    and nm: "name \<noteq> ''.''" "name \<noteq> ''..''"
    and ro: "open_xa_file inode name FL_READONLY sb = (Inl ENODATA, sb1)"
  shows "\<exists>sb'. reiserfs_xattr_set inode name (Some P) (length P) 0 newattrs sb
                = Some (Inr (), sb')"
proof -
  from open_xa_file_absent [OF nf pr nm ro]
  obtain fp x xi sb2 where o: "open_xa_file inode name 0 sb = (Inr fp, sb2)"
    and x: "d_inode fp = Some x" and xi: "iget sb2 x = Some xi" and nl: "i_nlink xi = 1"
    by blast
  have nf2: "no_fault sb2" using open_xa_file_fields(1) [OF o] nf by (simp add: no_fault_def)
  show ?thesis
    unfolding reiserfs_xattr_set_def Let_def
    by (subst xattr_set_open_file.simps)
       (simp add: v o x xi nl xattr_set_write_ok [OF nf2 x xi])
qed

text \<open>Overwriting an attribute whose file is not shared succeeds.\<close>

lemma reiserfs_xattr_set_existing:
  assumes "\<not> sd_version_v1 inode" and "flags AND XATTR_CREATE = 0"
    and "open_xa_file inode name FL_READONLY sb = (Inr fp, sb1)"
    and "d_inode fp = Some x" and "iget sb1 x = Some xi" and "i_nlink xi \<le> 1"
    and "no_fault sb"
  shows "reiserfs_xattr_set inode name (Some P) (length P) flags newattrs sb
       = Some (Inr (), iput x (xi\<lparr>i_size := 8 + length P,
            i_data := cpu_to_le32 REISERFS_XATTR_MAGIC
                      @ cpu_to_le32 (if P = [] then 0 else xattr_hash P (length P)) @ P,
            i_ctime := ia_ctime newattrs\<rparr>) sb1)"
proof -
  note o = open_xa_file_ro_success [OF assms(3,2)]
  have nf1: "no_fault sb1" using open_xa_file_fields(1) [OF o] assms(7)
    by (simp add: no_fault_def)
  show ?thesis
    unfolding reiserfs_xattr_set_def Let_def
    by (subst xattr_set_open_file.simps)
       (use assms(1,4,5,6) in \<open>simp add: o xattr_set_write_ok [OF nf1 assms(4,5)]\<close>)
qed

text \<open>Reading after a successful \<open>reiserfs_xattr_set\<close> gives the value back.\<close>

lemma reiserfs_xattr_get_after_set:
  assumes "reiserfs_xattr_set inode name (Some P) (length P) flags newattrs sb
             = Some (Inr (), sb')"
    and "no_fault sb" and "length P < 2 ^ 31" and "length b = length P"
  shows "\<exists>sb''. reiserfs_xattr_get inode name (Some b) (length P) sb'
                 = (Inr (int (length P)), Some P, sb'')"
proof -
  define h where "h = (if length P \<noteq> 0 then xattr_hash P (length P) else 0)"
  from assms(1) have v: "\<not> sd_version_v1 inode"
    by (auto simp: reiserfs_xattr_set_def split: if_splits)
  with assms(1) have
    "xattr_set_open_file inode name (Some P) (length P) h flags newattrs sb
       = Some (Inr (), sb')"
    by (simp add: reiserfs_xattr_set_def h_def)
  from xattr_set_open_file_post [OF this refl refl _ assms(2)]
  obtain fp x xi where res: "xa_file_resolved inode name fp sb'"
    and x: "d_inode fp = Some x" and xi: "iget sb' x = Some xi"
    and sz: "i_size xi = 8 + length P"
    and dt: "i_data xi = cpu_to_le32 REISERFS_XATTR_MAGIC @ cpu_to_le32 h @ P"
    and nf: "no_fault sb'" by auto
  have d: "dentry_open fp sb' = Inr fp"
    using nf x xi by (simp add: dentry_open_def no_fault_def)
  from xa_file_resolved_open [OF res] d
  have o: "open_xa_file inode name FL_READONLY sb' = (Inr fp, sb')" by simp
  have h0: "xattr_hash P (length P) = h"
    by (auto simp: h_def xattr_hash_def csum_partial_def csum_words.simps)
  from assms(3) have lt: "i_size xi < 2 ^ 32" by (simp add: sz)
  have l8: "8 \<le> i_size xi" by (simp add: sz)
  have s: "ssize_of (length P) = int (length P)" using assms(3) by (simp add: ssize_of_def)
  show ?thesis
    unfolding reiserfs_xattr_get_eq [OF v o x xi nf l8 lt]
    by (simp add: sz dt bytes_at_header h0 s memcpy_at_0_full assms(4))
qed

text \<open>
  C1.  An object can have attributes, the file system has its private root and no
  collaborator fails.  Reading finds either no attribute of the name, or an attribute
  whose file is not shared.  Then \<open>reiserfs_xattr_set\<close> without flags returns, and
  returns success, for every value \<open>P\<close> whose length fits \<open>ssize_t\<close> (empty, shorter
  than a page, or of many pages with a last part of any length); it makes the attribute
  root, the directory of the object and the file where they are missing.  After it
  \<open>reiserfs_xattr_get\<close> of the name with a buffer of \<open>length P\<close> bytes returns
  \<open>length P\<close> and leaves exactly \<open>P\<close> in the buffer.
\<close>

theorem reiserfs_xattr_set_get_roundtrip:
  assumes v: "\<not> sd_version_v1 inode" and nf: "no_fault sb" and pr: "priv_root sb \<noteq> None"
    and nm: "name \<noteq> ''.''" "name \<noteq> ''..''"
    and ro: "open_xa_file inode name FL_READONLY sb = (r, sb1)"
    and r: "r = Inl ENODATA
            \<or> (\<exists>fp x xi. r = Inr fp \<and> d_inode fp = Some x \<and> iget sb1 x = Some xi
                  \<and> i_nlink xi \<le> 1)"
    and len: "length P < 2 ^ 31" "length b = length P"
  shows "\<exists>sb' sb''.
           reiserfs_xattr_set inode name (Some P) (length P) 0 newattrs sb = Some (Inr (), sb')
         \<and> reiserfs_xattr_get inode name (Some b) (length P) sb'
             = (Inr (int (length P)), Some P, sb'')"
proof -
  have "\<exists>sb'. reiserfs_xattr_set inode name (Some P) (length P) 0 newattrs sb
                = Some (Inr (), sb')"
  proof (cases r)
    case (Inl e)
    with r ro have "open_xa_file inode name FL_READONLY sb = (Inl ENODATA, sb1)" by auto
    from reiserfs_xattr_set_absent [OF v nf pr nm this] show ?thesis .
  next
    case (Inr fp)
    with r obtain x xi where x: "d_inode fp = Some x" and xi: "iget sb1 x = Some xi"
      and nl: "i_nlink xi \<le> 1" by auto
    have f: "(0::u32) AND XATTR_CREATE = 0" by simp
    from reiserfs_xattr_set_existing [OF v f ro [unfolded Inr] x xi nl nf]
    show ?thesis by blast
  qed
  then obtain sb' where
    s: "reiserfs_xattr_set inode name (Some P) (length P) 0 newattrs sb = Some (Inr (), sb')" ..
  from reiserfs_xattr_get_after_set [OF s nf len] s show ?thesis by blast
qed


lemma ex_fresh_facts:
  "no_fault ex_fresh" "priv_root ex_fresh \<noteq> None"
  "open_xa_file ex_inode ''user.new'' FL_READONLY ex_fresh = (Inl ENODATA, ex_fresh)"
proof -
  show "no_fault ex_fresh" "priv_root ex_fresh \<noteq> None"
    by (simp_all add: no_fault_def ex_fresh_def)
  have p: "priv_root ex_fresh = Some \<lparr>d_name = PRIVROOT_NAME, d_inode = Some 1\<rparr>"
    and x: "xattr_root ex_fresh = None" by (simp_all add: ex_fresh_def)
  have "lookup_one_len XAROOT_NAME \<lparr>d_name = PRIVROOT_NAME, d_inode = Some 1\<rparr> ex_fresh
          = Inr \<lparr>d_name = XAROOT_NAME, d_inode = None\<rparr>"
    by (simp add: lookup_one_len_def ex_fresh_def iget_def ex_dir_def XAROOT_NAME_def)
  then have "get_xa_root ex_fresh = (Inr None, ex_fresh)"
    by (simp add: get_xa_root_def get_xa_root_aux_def p x)
  then show "open_xa_file ex_inode ''user.new'' FL_READONLY ex_fresh = (Inl ENODATA, ex_fresh)"
    by (simp add: open_xa_file_def get_xa_file_dentry_def open_xa_dir_ro)
qed

theorem reiserfs_xattr_set_get_roundtrip_witness:
  "no_fault ex_fresh
   \<and> open_xa_file ex_inode ''user.new'' FL_READONLY ex_fresh = (Inl ENODATA, ex_fresh)
   \<and> (\<exists>sb' sb''.
         reiserfs_xattr_set ex_inode ''user.new'' (Some [1, 2, 3, 4, 5]) 5 0 ex_newattrs ex_fresh
           = Some (Inr (), sb')
       \<and> reiserfs_xattr_get ex_inode ''user.new'' (Some [0, 0, 0, 0, 0]) 5 sb'
           = (Inr 5, Some [1, 2, 3, 4, 5], sb''))
   \<and> open_xa_file ex_inode ''user.a'' FL_READONLY ex_sb
       = (Inr \<lparr>d_name = ''user.a'', d_inode = Some 4\<rparr>, ex_sb1)
   \<and> (\<exists>sb' sb''.
         reiserfs_xattr_set ex_inode ''user.a'' (Some []) 0 0 ex_newattrs ex_sb
           = Some (Inr (), sb')
       \<and> reiserfs_xattr_get ex_inode ''user.a'' (Some []) 0 sb' = (Inr 0, Some [], sb''))"
proof -
  let ?P = "[1, 2, 3, 4, 5] :: u8 list"
  let ?b = "[0, 0, 0, 0, 0] :: u8 list"
  have len: "length ?P = 5" "length ?b = 5" "length ([] :: u8 list) = 0" by simp_all
  have v: "\<not> sd_version_v1 ex_inode" by (simp add: ex_inode_def ex_file_def)
  have nm: "''user.new'' \<noteq> ''.''" "''user.new'' \<noteq> ''..''"
    "''user.a'' \<noteq> ''.''" "''user.a'' \<noteq> ''..''" by simp_all
  have r1: "(Inl ENODATA :: errno + dentry) = Inl ENODATA
            \<or> (\<exists>fp x xi. (Inl ENODATA :: errno + dentry) = Inr fp \<and> d_inode fp = Some x
                  \<and> iget ex_fresh x = Some xi \<and> i_nlink xi \<le> 1)" by simp
  have l1: "length ?P < 2 ^ 31" "length ?b = length ?P" unfolding len by simp_all
  have a: "\<exists>sb' sb''.
         reiserfs_xattr_set ex_inode ''user.new'' (Some ?P) 5 0 ex_newattrs ex_fresh
           = Some (Inr (), sb')
       \<and> reiserfs_xattr_get ex_inode ''user.new'' (Some ?b) 5 sb' = (Inr 5, Some ?P, sb'')"
    using reiserfs_xattr_set_get_roundtrip [OF v ex_fresh_facts(1,2) nm(1,2) ex_fresh_facts(3)
        r1 l1, of ex_newattrs]
    unfolding len by simp
  have pr: "priv_root ex_sb \<noteq> None" by (simp add: ex_sb_def)
  have r2: "(Inr \<lparr>d_name = ''user.a'', d_inode = Some 4\<rparr> :: errno + dentry) = Inl ENODATA
            \<or> (\<exists>fp x xi. (Inr \<lparr>d_name = ''user.a'', d_inode = Some 4\<rparr> :: errno + dentry) = Inr fp
                  \<and> d_inode fp = Some x \<and> iget ex_sb1 x = Some xi \<and> i_nlink xi \<le> 1)"
    using ex_iget(1) by (simp add: ex_file_def)
  have l2: "length ([] :: u8 list) < 2 ^ 31" "length ([] :: u8 list) = length ([] :: u8 list)"
    by simp_all
  have b: "\<exists>sb' sb''.
         reiserfs_xattr_set ex_inode ''user.a'' (Some []) 0 0 ex_newattrs ex_sb
           = Some (Inr (), sb')
       \<and> reiserfs_xattr_get ex_inode ''user.a'' (Some []) 0 sb' = (Inr 0, Some [], sb'')"
    using reiserfs_xattr_set_get_roundtrip [OF v ex_no_fault(1) pr nm(3,4) ex_open_xa_file(1)
        r2 l2, of ex_newattrs]
    unfolding len by simp
  from a b ex_fresh_facts(1,3) ex_open_xa_file(1) show ?thesis by simp
qed

subsection \<open>The enumeration when the item has moved\<close>




text \<open>One turn of the loop, by what the entry is.\<close>

lemma xattr_readdir_loop_end:
  "next_pos \<le> DOT_DOT_OFFSET \<Longrightarrow>
   xattr_readdir_loop dir filldir mv small_buf buf next_pos sb = (Inr (), buf, sb)"
  "search_by_entry_key dir next_pos sb = Inl e \<Longrightarrow> \<not> next_pos \<le> DOT_DOT_OFFSET \<Longrightarrow>
   xattr_readdir_loop dir filldir mv small_buf buf next_pos sb = (Inl EIO, buf, sb)"
  "search_by_entry_key dir next_pos sb = Inr None \<Longrightarrow>
   xattr_readdir_loop dir filldir mv small_buf buf next_pos sb = (Inr (), buf, sb)"
  "search_by_entry_key dir next_pos sb = Inr (Some deh) \<Longrightarrow>
   deh_offset deh \<le> DOT_DOT_OFFSET \<Longrightarrow>
   xattr_readdir_loop dir filldir mv small_buf buf next_pos sb = (Inr (), buf, sb)"
  by (subst xattr_readdir_loop.simps, simp)+

lemma xattr_readdir_loop_skip:
  assumes "search_by_entry_key dir next_pos sb = Inr (Some deh)"
    and "DOT_DOT_OFFSET < deh_offset deh" and "\<not> deh_reported deh sb"
  shows "xattr_readdir_loop dir filldir mv small_buf buf next_pos sb
       = xattr_readdir_loop dir filldir mv small_buf buf (deh_offset deh - 1) sb"
proof -
  from search_by_entry_key_le [OF assms(1)] assms(2)
  have "\<not> next_pos \<le> DOT_DOT_OFFSET" by simp
  with assms show ?thesis
    by (subst xattr_readdir_loop.simps) (auto simp: deh_reported_def)
qed

lemma xattr_readdir_loop_nomem:
  assumes "search_by_entry_key dir next_pos sb = Inr (Some deh)"
    and "DOT_DOT_OFFSET < deh_offset deh" and "deh_reported deh sb"
    and "32 < length (de_name deh)"
    and "s_fault sb (P_kmalloc (length (de_name deh))) \<noteq> None"
  shows "xattr_readdir_loop dir filldir mv small_buf buf next_pos sb = (Inl ENOMEM, buf, sb)"
proof -
  from search_by_entry_key_le [OF assms(1)] assms(2)
  have "\<not> next_pos \<le> DOT_DOT_OFFSET" by simp
  with assms show ?thesis
    by (subst xattr_readdir_loop.simps) (auto simp: deh_reported_def)
qed

lemma xattr_readdir_loop_moved:
  assumes "search_by_entry_key dir next_pos sb = Inr (Some deh)"
    and "DOT_DOT_OFFSET < deh_offset deh" and "deh_reported deh sb"
    and "32 < length (de_name deh)"
    and "s_fault sb (P_kmalloc (length (de_name deh))) = None"
  shows "xattr_readdir_loop dir filldir (True # mv) small_buf buf next_pos sb
       = xattr_readdir_loop dir filldir mv small_buf buf (deh_offset deh) sb"
proof -
  from search_by_entry_key_le [OF assms(1)] assms(2)
  have "\<not> next_pos \<le> DOT_DOT_OFFSET" by simp
  with assms show ?thesis
    by (subst xattr_readdir_loop.simps) (auto simp: deh_reported_def)
qed

lemma xattr_readdir_loop_deliver:
  assumes "search_by_entry_key dir next_pos sb = Inr (Some deh)"
    and "DOT_DOT_OFFSET < deh_offset deh" and "deh_reported deh sb"
    and "32 < length (de_name deh)
         \<longrightarrow> s_fault sb (P_kmalloc (length (de_name deh))) = None \<and> (mv = [] \<or> \<not> hd mv)"
  shows "xattr_readdir_loop dir filldir mv small_buf buf next_pos sb
       = (case filldir buf (local_buf_of small_buf (de_name deh)) (length (de_name deh))
                 (deh_offset deh) (deh_objectid deh) sb of
            (Inl _, buf1, sb1) \<Rightarrow> (Inr (), buf1, sb1)
          | (Inr _, buf1, sb1) \<Rightarrow>
              xattr_readdir_loop dir filldir
                (if length (de_name deh) > 32 then tl mv else mv)
                (if length (de_name deh) > 32 then small_buf
                 else local_buf_of small_buf (de_name deh))
                buf1 (deh_offset deh - 1) sb1)"
proof -
  from search_by_entry_key_le [OF assms(1)] assms(2)
  have "\<not> next_pos \<le> DOT_DOT_OFFSET" by simp
  with assms show ?thesis
    by (subst xattr_readdir_loop.simps) (auto simp: deh_reported_def)
qed




subsection \<open>Reasoning about the enumeration\<close>

text \<open>What one turn of the loop does.\<close>

lemma xattr_readdir_loop_cases
  [case_names low eio none dots skip nomem moved fail deliver]:
  obtains
    (low) "next_pos \<le> DOT_DOT_OFFSET"
      "xattr_readdir_loop dir filldir mv small_buf buf next_pos sb = (Inr (), buf, sb)"
  | (eio) e where "\<not> next_pos \<le> DOT_DOT_OFFSET"
      "search_by_entry_key dir next_pos sb = Inl e"
      "xattr_readdir_loop dir filldir mv small_buf buf next_pos sb = (Inl EIO, buf, sb)"
  | (none) "\<not> next_pos \<le> DOT_DOT_OFFSET"
      "search_by_entry_key dir next_pos sb = Inr None"
      "xattr_readdir_loop dir filldir mv small_buf buf next_pos sb = (Inr (), buf, sb)"
  | (dots) deh where "\<not> next_pos \<le> DOT_DOT_OFFSET"
      "search_by_entry_key dir next_pos sb = Inr (Some deh)"
      "deh_offset deh \<le> DOT_DOT_OFFSET"
      "xattr_readdir_loop dir filldir mv small_buf buf next_pos sb = (Inr (), buf, sb)"
  | (skip) deh where "\<not> next_pos \<le> DOT_DOT_OFFSET"
      "search_by_entry_key dir next_pos sb = Inr (Some deh)"
      "DOT_DOT_OFFSET < deh_offset deh" "\<not> deh_reported deh sb"
      "xattr_readdir_loop dir filldir mv small_buf buf next_pos sb
         = xattr_readdir_loop dir filldir mv small_buf buf (deh_offset deh - 1) sb"
  | (nomem) deh where "\<not> next_pos \<le> DOT_DOT_OFFSET"
      "search_by_entry_key dir next_pos sb = Inr (Some deh)"
      "DOT_DOT_OFFSET < deh_offset deh" "deh_reported deh sb"
      "32 < length (de_name deh)"
      "s_fault sb (P_kmalloc (length (de_name deh))) \<noteq> None"
      "xattr_readdir_loop dir filldir mv small_buf buf next_pos sb = (Inl ENOMEM, buf, sb)"
  | (moved) deh where "\<not> next_pos \<le> DOT_DOT_OFFSET"
      "search_by_entry_key dir next_pos sb = Inr (Some deh)"
      "DOT_DOT_OFFSET < deh_offset deh" "deh_reported deh sb"
      "32 < length (de_name deh)"
      "s_fault sb (P_kmalloc (length (de_name deh))) = None" "mv \<noteq> []" "hd mv"
      "xattr_readdir_loop dir filldir mv small_buf buf next_pos sb
         = xattr_readdir_loop dir filldir (tl mv) small_buf buf (deh_offset deh) sb"
  | (fail) deh e buf1 sb1 where "\<not> next_pos \<le> DOT_DOT_OFFSET"
      "search_by_entry_key dir next_pos sb = Inr (Some deh)"
      "DOT_DOT_OFFSET < deh_offset deh" "deh_reported deh sb"
      "32 < length (de_name deh)
         \<longrightarrow> s_fault sb (P_kmalloc (length (de_name deh))) = None \<and> (mv = [] \<or> \<not> hd mv)"
      "filldir buf (local_buf_of small_buf (de_name deh)) (length (de_name deh))
         (deh_offset deh) (deh_objectid deh) sb = (Inl e, buf1, sb1)"
      "xattr_readdir_loop dir filldir mv small_buf buf next_pos sb = (Inr (), buf1, sb1)"
  | (deliver) deh u buf1 sb1 where "\<not> next_pos \<le> DOT_DOT_OFFSET"
      "search_by_entry_key dir next_pos sb = Inr (Some deh)"
      "DOT_DOT_OFFSET < deh_offset deh" "deh_reported deh sb"
      "32 < length (de_name deh)
         \<longrightarrow> s_fault sb (P_kmalloc (length (de_name deh))) = None \<and> (mv = [] \<or> \<not> hd mv)"
      "filldir buf (local_buf_of small_buf (de_name deh)) (length (de_name deh))
         (deh_offset deh) (deh_objectid deh) sb = (Inr u, buf1, sb1)"
      "xattr_readdir_loop dir filldir mv small_buf buf next_pos sb
         = xattr_readdir_loop dir filldir
             (if length (de_name deh) > 32 then tl mv else mv)
             (if length (de_name deh) > 32 then small_buf
              else local_buf_of small_buf (de_name deh))
             buf1 (deh_offset deh - 1) sb1"
proof (cases "next_pos \<le> DOT_DOT_OFFSET")
  case True
  then show ?thesis by (intro low) (simp_all add: xattr_readdir_loop_end)
next
  case np: False
  show ?thesis
  proof (cases "search_by_entry_key dir next_pos sb")
    case (Inl e)
    with np show ?thesis by (intro eio [of e]) (simp_all add: xattr_readdir_loop_end)
  next
    case (Inr r)
    show ?thesis
    proof (cases r)
      case None
      with np Inr show ?thesis by (intro none) (simp_all add: xattr_readdir_loop_end)
    next
      case (Some deh)
      note s = Inr [unfolded Some]
      show ?thesis
      proof (cases "deh_offset deh \<le> DOT_DOT_OFFSET")
        case True
        with np s show ?thesis by (intro dots [of deh]) (simp_all add: xattr_readdir_loop_end)
      next
        case False
        then have dp: "DOT_DOT_OFFSET < deh_offset deh" by simp
        show ?thesis
        proof (cases "deh_reported deh sb")
          case False
          with np s dp show ?thesis
            by (intro skip [of deh]) (simp_all add: xattr_readdir_loop_skip)
        next
          case rep: True
          show ?thesis
          proof (cases "32 < length (de_name deh)
              \<and> s_fault sb (P_kmalloc (length (de_name deh))) \<noteq> None")
            case True
            with np s dp rep show ?thesis
              by (intro nomem [of deh]) (simp_all add: xattr_readdir_loop_nomem)
          next
            case km: False
            show ?thesis
            proof (cases "32 < length (de_name deh) \<and> mv \<noteq> [] \<and> hd mv")
              case True
              then obtain mv' where mv: "mv = True # mv'" by (cases mv) auto
              from True km have k: "s_fault sb (P_kmalloc (length (de_name deh))) = None"
                by simp
              from xattr_readdir_loop_moved [OF s dp rep _ k, of filldir mv' small_buf buf] True
              have "xattr_readdir_loop dir filldir mv small_buf buf next_pos sb
                  = xattr_readdir_loop dir filldir (tl mv) small_buf buf (deh_offset deh) sb"
                by (simp add: mv)
              with np s dp rep True k show ?thesis by (intro moved [of deh]) simp_all
            next
              case nm: False
              from km nm have c: "32 < length (de_name deh)
                \<longrightarrow> s_fault sb (P_kmalloc (length (de_name deh))) = None
                    \<and> (mv = [] \<or> \<not> hd mv)" by auto
              note d = xattr_readdir_loop_deliver [OF s dp rep c, of filldir small_buf buf]
              obtain x buf1 sb1 where
                r: "filldir buf (local_buf_of small_buf (de_name deh)) (length (de_name deh))
                      (deh_offset deh) (deh_objectid deh) sb = (x, buf1, sb1)"
                by (cases "filldir buf (local_buf_of small_buf (de_name deh))
                      (length (de_name deh)) (deh_offset deh) (deh_objectid deh) sb")
              show ?thesis
              proof (cases x)
                case (Inl e)
                from d r Inl
                have "xattr_readdir_loop dir filldir mv small_buf buf next_pos sb
                        = (Inr (), buf1, sb1)" by simp
                with np s dp rep c r Inl show ?thesis by (intro fail [of deh e buf1 sb1]) simp_all
              next
                case (Inr u)
                from d r Inr
                have "xattr_readdir_loop dir filldir mv small_buf buf next_pos sb
                  = xattr_readdir_loop dir filldir
                     (if length (de_name deh) > 32 then tl mv else mv)
                     (if length (de_name deh) > 32 then small_buf
                      else local_buf_of small_buf (de_name deh))
                     buf1 (deh_offset deh - 1) sb1" by simp
                with np s dp rep c r Inr show ?thesis
                  by (intro deliver [of deh u buf1 sb1]) simp_all
              qed
            qed
          qed
        qed
      qed
    qed
  qed
qed

text \<open>Induction on the turns of the loop, for a directory and a filler.\<close>

lemma xattr_readdir_loop_induct [case_names turn]:
  fixes filldir :: "'b filldir_t"
  assumes "\<And>mv small_buf buf next_pos sb.
      (\<And>deh. search_by_entry_key dir next_pos sb = Inr (Some deh) \<Longrightarrow>
          DOT_DOT_OFFSET < deh_offset deh \<Longrightarrow> \<not> deh_reported deh sb \<Longrightarrow>
          P mv small_buf buf (deh_offset deh - 1) sb) \<Longrightarrow>
      (\<And>deh. search_by_entry_key dir next_pos sb = Inr (Some deh) \<Longrightarrow>
          DOT_DOT_OFFSET < deh_offset deh \<Longrightarrow> deh_reported deh sb \<Longrightarrow>
          32 < length (de_name deh) \<Longrightarrow>
          s_fault sb (P_kmalloc (length (de_name deh))) = None \<Longrightarrow> mv \<noteq> [] \<Longrightarrow> hd mv \<Longrightarrow>
          P (tl mv) small_buf buf (deh_offset deh) sb) \<Longrightarrow>
      (\<And>deh u buf1 sb1. search_by_entry_key dir next_pos sb = Inr (Some deh) \<Longrightarrow>
          DOT_DOT_OFFSET < deh_offset deh \<Longrightarrow> deh_reported deh sb \<Longrightarrow>
          (32 < length (de_name deh)
             \<longrightarrow> s_fault sb (P_kmalloc (length (de_name deh))) = None
                 \<and> (mv = [] \<or> \<not> hd mv)) \<Longrightarrow>
          filldir buf (local_buf_of small_buf (de_name deh)) (length (de_name deh))
            (deh_offset deh) (deh_objectid deh) sb = (Inr u, buf1, sb1) \<Longrightarrow>
          P (if length (de_name deh) > 32 then tl mv else mv)
            (if length (de_name deh) > 32 then small_buf
             else local_buf_of small_buf (de_name deh))
            buf1 (deh_offset deh - 1) sb1) \<Longrightarrow>
      P mv small_buf buf next_pos sb"
  shows "P mv small_buf buf next_pos sb"
proof -
  have "dir' = dir \<longrightarrow> filldir' = filldir \<longrightarrow> P mv small_buf buf next_pos sb"
    for dir' filldir'
  proof (induction dir' filldir' mv small_buf buf next_pos sb rule: xattr_readdir_loop.induct)
    case (1 dir' filldir' mv small_buf buf next_pos sb)
    show ?case
    proof (intro impI)
      assume e: "dir' = dir" "filldir' = filldir"
      show "P mv small_buf buf next_pos sb"
      proof (rule assms)
        fix deh
        assume s: "search_by_entry_key dir next_pos sb = Inr (Some deh)"
          and dp: "DOT_DOT_OFFSET < deh_offset deh" and nr: "\<not> deh_reported deh sb"
        from search_by_entry_key_le [OF s] dp have np: "\<not> next_pos \<le> DOT_DOT_OFFSET" by simp
        from dp have dn: "\<not> deh_offset deh \<le> DOT_DOT_OFFSET" by simp
        show "P mv small_buf buf (deh_offset deh - 1) sb"
        proof (cases "deh_visible deh")
          case v: False
          from "1.IH"(1) [OF np s [folded e(1)] refl dn v] e show ?thesis by simp
        next
          case v: True
          show ?thesis
          proof (cases "length (de_name deh) > s_max_name sb")
            case l: True
            from "1.IH"(2) [OF np s [folded e(1)] refl dn _ l] v e show ?thesis by simp
          next
            case l: False
            with nr v have p: "is_privroot_deh deh sb" by (simp add: deh_reported_def)
            from "1.IH"(3) [OF np s [folded e(1)] refl dn _ l p] v e show ?thesis by simp
          qed
        qed
      next
        fix deh
        assume s: "search_by_entry_key dir next_pos sb = Inr (Some deh)"
          and dp: "DOT_DOT_OFFSET < deh_offset deh" and rep: "deh_reported deh sb"
          and m: "32 < length (de_name deh)"
            "s_fault sb (P_kmalloc (length (de_name deh))) = None" "mv \<noteq> []" "hd mv"
        from search_by_entry_key_le [OF s] dp have np: "\<not> next_pos \<le> DOT_DOT_OFFSET" by simp
        from dp have dn: "\<not> deh_offset deh \<le> DOT_DOT_OFFSET" by simp
        from rep have rp: "deh_visible deh" "\<not> length (de_name deh) > s_max_name sb"
          "\<not> is_privroot_deh deh sb" by (simp_all add: deh_reported_def)
        from "1.IH"(4) [OF np s [folded e(1)] refl dn] rp m e
        show "P (tl mv) small_buf buf (deh_offset deh) sb" by simp
      next
        fix deh u buf1 sb1
        assume s: "search_by_entry_key dir next_pos sb = Inr (Some deh)"
          and dp: "DOT_DOT_OFFSET < deh_offset deh" and rep: "deh_reported deh sb"
          and c: "32 < length (de_name deh)
             \<longrightarrow> s_fault sb (P_kmalloc (length (de_name deh))) = None
                 \<and> (mv = [] \<or> \<not> hd mv)"
          and f: "filldir buf (local_buf_of small_buf (de_name deh)) (length (de_name deh))
            (deh_offset deh) (deh_objectid deh) sb = (Inr u, buf1, sb1)"
        from search_by_entry_key_le [OF s] dp have np: "\<not> next_pos \<le> DOT_DOT_OFFSET" by simp
        from dp have dn: "\<not> deh_offset deh \<le> DOT_DOT_OFFSET" by simp
        from rep have rp: "deh_visible deh" "\<not> length (de_name deh) > s_max_name sb"
          "\<not> is_privroot_deh deh sb" by (simp_all add: deh_reported_def)
        from c have c1: "\<not> (32 < length (de_name deh)
              \<and> s_fault sb (P_kmalloc (length (de_name deh))) \<noteq> None)"
          and c2: "\<not> (32 < length (de_name deh) \<and> mv \<noteq> [] \<and> hd mv)" by auto
        from "1.IH"(5) [OF np s [folded e(1)] refl dn _ _ _ c1 c2
            f [folded e(2), symmetric] refl refl] rp e
        show "P (if length (de_name deh) > 32 then tl mv else mv)
            (if length (de_name deh) > 32 then small_buf
             else local_buf_of small_buf (de_name deh))
            buf1 (deh_offset deh - 1) sb1" by simp
      qed
    qed
  qed
  then show ?thesis by simp
qed

subsection \<open>The change of ownership\<close>

lemma inode_setattr_chown:
  "inode_setattr (chown_attrs a) i
     = i\<lparr>i_uid := (if ia_valid a AND ATTR_UID \<noteq> 0 then ia_uid a else i_uid i),
         i_gid := (if ia_valid a AND ATTR_GID \<noteq> 0 then ia_gid a else i_gid i),
         i_ctime := (if ia_valid a AND ATTR_CTIME \<noteq> 0 then ia_ctime a else i_ctime i)\<rparr>"
proof -
  have m: "(v AND (ATTR_UID OR ATTR_GID OR ATTR_CTIME)) AND ATTR_MODE = 0"
    "(v AND (ATTR_UID OR ATTR_GID OR ATTR_CTIME)) AND ATTR_SIZE = 0"
    "(v AND (ATTR_UID OR ATTR_GID OR ATTR_CTIME)) AND ATTR_ATIME = 0"
    "(v AND (ATTR_UID OR ATTR_GID OR ATTR_CTIME)) AND ATTR_MTIME = 0"
    "(v AND (ATTR_UID OR ATTR_GID OR ATTR_CTIME)) AND ATTR_UID = v AND ATTR_UID"
    "(v AND (ATTR_UID OR ATTR_GID OR ATTR_CTIME)) AND ATTR_GID = v AND ATTR_GID"
    "(v AND (ATTR_UID OR ATTR_GID OR ATTR_CTIME)) AND ATTR_CTIME = v AND ATTR_CTIME"
    for v :: u32
    by (simp_all add: ATTR_defs and.assoc)
  show ?thesis
    by (cases i) (simp add: inode_setattr_def chown_attrs_def m Let_def)
qed

lemma owner_frame_refl [simp]: "owner_frame i i"
  by (simp add: owner_frame_def)

lemma owner_frame_trans: "owner_frame i j \<Longrightarrow> owner_frame j k \<Longrightarrow> owner_frame i k"
  by (cases i, cases j, cases k) (simp add: owner_frame_def)

lemma owner_frame_setattr: "owner_frame i (inode_setattr (chown_attrs a) i)"
  by (cases i) (simp add: owner_frame_def inode_setattr_chown)

lemma chown_frame_refl [simp]: "chown_frame sb sb"
  by (simp add: chown_frame_def split: option.splits)

lemma chown_frame_trans:
  assumes "chown_frame a b" and "chown_frame b c"
  shows "chown_frame a c"
  unfolding chown_frame_def
proof
  fix n
  from assms(1) [unfolded chown_frame_def, rule_format, of n]
       assms(2) [unfolded chown_frame_def, rule_format, of n]
  show "case iget a n of None \<Rightarrow> iget c n = None
        | Some i \<Rightarrow> (case iget c n of None \<Rightarrow> False | Some i' \<Rightarrow> owner_frame i i')"
    by (auto split: option.splits intro: owner_frame_trans)
qed

lemma chown_frame_inodes: "s_inodes sb' = s_inodes sb \<Longrightarrow> chown_frame sb sb'"
  by (simp add: chown_frame_def iget_def split: option.splits)

lemma chown_frame_notify:
  assumes "notify_change de (chown_attrs a) sb = (r, sb')"
  shows "chown_frame sb sb'"
proof (cases r)
  case (Inl e)
  with assms have "sb' = sb" by (auto simp: notify_change_def split: option.splits)
  then show ?thesis by simp
next
  case (Inr u)
  with assms obtain n i where i: "iget sb n = Some i"
    and s: "sb' = iput n (inode_setattr (chown_attrs a) i) sb"
    by (auto simp: notify_change_def split: option.splits)
  show ?thesis unfolding s chown_frame_def
    using i owner_frame_setattr [of i a] by (auto simp: iget_iput split: option.splits)
qed

lemma reiserfs_chown_xattrs_filler_frame:
  assumes "reiserfs_chown_xattrs_filler b name namelen off ino s = (r, b', s')"
    and "cb_attrs b = chown_attrs a"
  shows "b' = b \<and> chown_frame s s'"
  using assms chown_frame_notify [of _ a s]
  by (auto simp: reiserfs_chown_xattrs_filler_def split: sum.splits option.splits if_splits
      prod.splits)

text \<open>What the filler keeps, the enumeration keeps.\<close>

lemma xattr_readdir_loop_invariant:
  fixes filldir :: "'b filldir_t"
  assumes step: "\<And>b n l off i s r b' s'.
      Q b s \<Longrightarrow> filldir b n l off i s = (r, b', s') \<Longrightarrow> Q b' s'"
  shows "Q buf sb \<Longrightarrow>
         xattr_readdir_loop dir filldir mv small_buf buf next_pos sb = (r, buf', sb') \<Longrightarrow>
         Q buf' sb'"
proof (induction mv small_buf buf next_pos sb rule: xattr_readdir_loop_induct [of dir _ filldir])
  case (turn mv small_buf buf next_pos sb)
  show ?case
  proof (cases rule: xattr_readdir_loop_cases [of next_pos dir filldir mv small_buf buf sb])
    case low
    with turn.prems show ?thesis by simp
  next
    case (eio e)
    with turn.prems show ?thesis by simp
  next
    case none
    with turn.prems show ?thesis by simp
  next
    case (dots deh)
    with turn.prems show ?thesis by simp
  next
    case (skip deh)
    from turn.IH(1) [OF skip(2-4) turn.prems(1)] turn.prems(2) skip(5) show ?thesis by simp
  next
    case (nomem deh)
    with turn.prems show ?thesis by simp
  next
    case (moved deh)
    from turn.IH(2) [OF moved(2-8) turn.prems(1)] turn.prems(2) moved(9) show ?thesis by simp
  next
    case (fail deh e buf1 sb1)
    from step [OF turn.prems(1) fail(6)] turn.prems(2) fail(7) show ?thesis by simp
  next
    case (deliver deh u buf1 sb1)
    from turn.IH(3) [OF deliver(2-6) step [OF turn.prems(1) deliver(6)]] turn.prems(2) deliver(7)
    show ?thesis by simp
  qed
qed

lemma xattr_readdir_cases [case_names loop err]:
  obtains (loop) dir di where "d_inode fp = Some dir" "iget sb dir = Some di" "i_isdir di"
      "\<not> i_deaddir di"
      "xattr_readdir fp filler buf mv small_buf sb
         = xattr_readdir_loop dir filler mv small_buf buf max_reiserfs_offset sb"
  | (err) e where "xattr_readdir fp filler buf mv small_buf sb = (Inl e, buf, sb)"
proof (cases "d_inode fp")
  case None
  then show ?thesis by (intro err [of OOPS]) (simp add: xattr_readdir_def)
next
  case (Some dir)
  show ?thesis
  proof (cases "iget sb dir")
    case None
    with Some show ?thesis by (intro err [of OOPS]) (simp add: xattr_readdir_def)
  next
    case di: (Some di)
    show ?thesis
    proof (cases "i_isdir di \<and> \<not> i_deaddir di")
      case True
      with Some di show ?thesis by (intro loop [of dir di]) (simp_all add: xattr_readdir_def)
    next
      case False
      with Some di show ?thesis
        by (intro err [of "if \<not> i_isdir di then ENOTDIR else ENOENT"])
           (auto simp: xattr_readdir_def)
    qed
  qed
qed

lemma reiserfs_chown_xattrs_frame:
  assumes "reiserfs_chown_xattrs mv small_buf inode attrs sb = (r, attrs', sb')"
  shows "attrs' = attrs" and "chown_frame sb sb'"
proof -
  have "attrs' = attrs \<and> chown_frame sb sb'"
  proof (cases "i_priv_object inode \<or> sd_version_v1 inode \<or> \<not> s_xattrs sb")
    case True
    with assms show ?thesis by (auto simp: reiserfs_chown_xattrs_def Let_def)
  next
    case c: False
    obtain r0 sb1 where o: "open_xa_dir inode FL_READONLY sb = (r0, sb1)"
      by (cases "open_xa_dir inode FL_READONLY sb")
    from open_xa_dir_ro_cache [OF o] have f1: "chown_frame sb sb1"
      by (auto intro: chown_frame_inodes)
    have v: "attrs\<lparr>ia_valid := ia_valid attrs\<rparr> = attrs"
      "(chown_attrs attrs)\<lparr>ia_valid := ia_valid attrs\<rparr> = attrs"
      by (simp_all add: chown_attrs_def)
    show ?thesis
    proof (cases r0)
      case (Inl e)
      with assms c o f1 show ?thesis by (auto simp: reiserfs_chown_xattrs_def v Let_def)
    next
      case (Inr dir)
      show ?thesis
      proof (cases "d_inode dir = None \<or> (\<exists>e. dentry_open dir sb1 = Inl e)")
        case True
        with assms c o f1 Inr show ?thesis
          by (auto simp: reiserfs_chown_xattrs_def v Let_def split: sum.splits if_splits)
      next
        case False
        then obtain fp where fp: "dentry_open dir sb1 = Inr fp" and dn: "d_inode dir \<noteq> None"
          by (cases "dentry_open dir sb1") auto
        let ?buf = "\<lparr>cb_inode = inode, cb_xadir = dir, cb_attrs = chown_attrs attrs\<rparr>"
        obtain r1 buf1 sb2 where
          rd: "xattr_readdir fp reiserfs_chown_xattrs_filler ?buf mv small_buf sb1
                 = (r1, buf1, sb2)"
          by (cases "xattr_readdir fp reiserfs_chown_xattrs_filler ?buf mv small_buf sb1")
        have "cb_attrs buf1 = chown_attrs attrs \<and> chown_frame sb sb2"
        proof (cases rule: xattr_readdir_cases [of fp sb1 reiserfs_chown_xattrs_filler ?buf mv
              small_buf])
          case (loop dd ddi)
          with rd have
            l: "xattr_readdir_loop dd reiserfs_chown_xattrs_filler mv small_buf ?buf
                max_reiserfs_offset sb1 = (r1, buf1, sb2)" by simp
          show ?thesis
          proof (rule xattr_readdir_loop_invariant [where Q = "\<lambda>b s.
              cb_attrs b = chown_attrs attrs \<and> chown_frame sb s", OF _ _ l])
            fix b n l off i s r b' s'
            assume q: "cb_attrs b = chown_attrs attrs \<and> chown_frame sb s"
              and f: "reiserfs_chown_xattrs_filler b n l off i s = (r, b', s')"
            from q have qa: "cb_attrs b = chown_attrs attrs" and qf: "chown_frame sb s"
              by simp_all
            from reiserfs_chown_xattrs_filler_frame [OF f qa]
            have "b' = b" and "chown_frame s s'" by simp_all
            with qa chown_frame_trans [OF qf]
            show "cb_attrs b' = chown_attrs attrs \<and> chown_frame sb s'" by simp
          next
            show "cb_attrs ?buf = chown_attrs attrs \<and> chown_frame sb sb1" using f1 by simp
          qed
        next
          case (err e)
          with rd have "buf1 = ?buf \<and> sb2 = sb1" by simp
          with f1 show ?thesis by simp
        qed
        then have f2: "chown_frame sb sb2" ..
        show ?thesis
        proof (cases r1)
          case (Inl e)
          with assms c o Inr fp dn rd f2 show ?thesis
            by (simp add: reiserfs_chown_xattrs_def v Let_def chown_attrs_def [symmetric])
        next
          case r1: (Inr u)
          obtain r3 sb3 where n: "notify_change dir (chown_attrs attrs) sb2 = (r3, sb3)"
            by (cases "notify_change dir (chown_attrs attrs) sb2")
          from chown_frame_trans [OF f2 chown_frame_notify [OF n]] assms c o Inr fp dn rd r1 n
          show ?thesis
            by (simp add: reiserfs_chown_xattrs_def v Let_def chown_attrs_def [symmetric])
        qed
      qed
    qed
  qed
  then show "attrs' = attrs" and "chown_frame sb sb'" by simp_all
qed

lemma entry_at_or_before_mem:
  "entry_at_or_before es pos = Some e \<Longrightarrow> e \<in> set es"
  by (induction es arbitrary: e) (auto split: option.splits if_splits)

lemma entry_at_or_before_max:
  "entry_at_or_before es pos = Some m \<Longrightarrow> e \<in> set es \<Longrightarrow> deh_offset e \<le> pos \<Longrightarrow>
   deh_offset e \<le> deh_offset m"
proof (induction es arbitrary: m)
  case Nil
  then show ?case by simp
next
  case (Cons e0 es)
  show ?case
  proof (cases "entry_at_or_before es pos")
    case None
    show ?thesis
    proof (cases "e = e0")
      case True
      with Cons.prems None show ?thesis by (auto split: if_splits)
    next
      case False
      with Cons.prems have "e \<in> set es" by simp
      have "entry_at_or_before es pos \<noteq> None"
        using \<open>e \<in> set es\<close> Cons.prems(3)
        by (induction es) (auto split: option.splits if_splits)
      with None show ?thesis by simp
    qed
  next
    case (Some m')
    show ?thesis
    proof (cases "e = e0")
      case True
      with Cons.prems Some show ?thesis by (auto split: if_splits)
    next
      case False
      with Cons.prems have "e \<in> set es" by simp
      from Cons.IH [OF Some this Cons.prems(3)] Cons.prems(1) Some
      show ?thesis by (auto split: if_splits)
    qed
  qed
qed

lemma entry_at_or_before_NoneD:
  "entry_at_or_before es pos = None \<Longrightarrow> e \<in> set es \<Longrightarrow> pos < deh_offset e"
  by (induction es) (auto split: option.splits if_splits)

lemma take_local_buf_of [simp]: "take (length name) (local_buf_of small_buf name) = name"
  by (simp add: local_buf_of_def)

lemma find_distinct:
  "distinct (map f (filter P xs)) \<Longrightarrow> x \<in> set xs \<Longrightarrow> P x \<Longrightarrow>
   find (\<lambda>y. f y = f x \<and> P y) xs = Some x"
  by (induction xs) (auto simp: image_iff split: if_splits)

lemma chown_done_fields:
  assumes "chown_done a es p s0 s"
  shows "s_fault s = s_fault s0" "priv_root s = priv_root s0" "s_max_name s = s_max_name s0"
    "s_xattrs s = s_xattrs s0" "s_old_format_only s = s_old_format_only s0"
proof -
  from assms have e: "s\<lparr>s_inodes := s_inodes s0\<rparr> = s0" by (simp add: chown_done_def)
  have "s_fault (s\<lparr>s_inodes := s_inodes s0\<rparr>) = s_fault s"
    "priv_root (s\<lparr>s_inodes := s_inodes s0\<rparr>) = priv_root s"
    "s_max_name (s\<lparr>s_inodes := s_inodes s0\<rparr>) = s_max_name s"
    "s_xattrs (s\<lparr>s_inodes := s_inodes s0\<rparr>) = s_xattrs s"
    "s_old_format_only (s\<lparr>s_inodes := s_inodes s0\<rparr>) = s_old_format_only s"
    by simp_all
  then show "s_fault s = s_fault s0" "priv_root s = priv_root s0"
    "s_max_name s = s_max_name s0"
    "s_xattrs s = s_xattrs s0" "s_old_format_only s = s_old_format_only s0"
    unfolding e by simp_all
qed

lemma deh_reported_cong:
  "priv_root s = priv_root s0 \<Longrightarrow> s_max_name s = s_max_name s0 \<Longrightarrow>
   s_xattrs s = s_xattrs s0 \<Longrightarrow> s_old_format_only s = s_old_format_only s0 \<Longrightarrow>
   deh_reported e s = deh_reported e s0"
  by (simp add: deh_reported_def is_privroot_deh_def)

lemma inode_setattr_chown_idem:
  "inode_setattr (chown_attrs a) (inode_setattr (chown_attrs a) i)
     = inode_setattr (chown_attrs a) i"
  by (cases i) (simp add: inode_setattr_chown)

lemma inode_setattr_chown_isdir [simp]:
  "i_isdir (inode_setattr (chown_attrs a) i) = i_isdir i"
  by (simp add: inode_setattr_chown)


lemma chown_done_cong:
  assumes "\<And>e. e \<in> set es \<Longrightarrow> DOT_DOT_OFFSET < deh_offset e \<Longrightarrow>
             (q < deh_offset e) = (p < deh_offset e)"
  shows "chown_done a es q s0 s = chown_done a es p s0 s"
proof -
  have "filter (\<lambda>e. q < deh_offset e) (chown_entries es s0)
      = filter (\<lambda>e. p < deh_offset e) (chown_entries es s0)"
    using assms by (intro filter_cong refl) (auto simp: chown_entries_def)
  then show ?thesis by (simp add: chown_done_def)
qed

text \<open>
  The filler on an entry that the enumeration has found, in a state of the change.
\<close>

lemma reiserfs_chown_xattrs_filler_ok:
  assumes xd: "d_inode (cb_xadir buf) = Some d" and ba: "cb_attrs buf = chown_attrs a"
    and d: "iget s d = Some di" and nf: "no_fault s"
    and dn: "distinct (map de_name (filter deh_visible (i_entries di)))"
    and m: "deh \<in> set (i_entries di)" and v: "deh_visible deh"
    and x: "iget s (deh_objectid deh) = Some fi"
  shows "reiserfs_chown_xattrs_filler buf (local_buf_of small_buf (de_name deh))
           (length (de_name deh)) off ino s
       = (Inr (), buf,
          if i_isdir fi then s
          else iput (deh_objectid deh) (inode_setattr (chown_attrs a) fi) s)"
proof -
  from find_distinct [OF dn m v]
  have "find (\<lambda>y. de_name y = de_name deh \<and> deh_visible y) (i_entries di) = Some deh" .
  with xd d nf x have l: "lookup_one_len (de_name deh) (cb_xadir buf) s
      = Inr \<lparr>d_name = de_name deh, d_inode = Some (deh_objectid deh)\<rparr>"
    by (simp add: lookup_one_len_def no_fault_def)
  show ?thesis
    using nf x
    by (simp add: reiserfs_chown_xattrs_filler_def l notify_change_def no_fault_def ba)
qed

lemma chown_loop:
  assumes d0: "iget s0 d = Some di" and isd: "i_isdir di"
    and nf: "no_fault s0" and dof: "distinct (map deh_offset (i_entries di))"
    and dn: "distinct (map de_name (filter deh_visible (i_entries di)))"
    and ex: "\<And>e. e \<in> set (i_entries di) \<Longrightarrow> iget s0 (deh_objectid e) \<noteq> None"
  shows "d_inode (cb_xadir buf) = Some d \<Longrightarrow> cb_attrs buf = chown_attrs a \<Longrightarrow>
     chown_done a (i_entries di) next_pos s0 sb \<Longrightarrow>
     \<exists>sb'. xattr_readdir_loop d reiserfs_chown_xattrs_filler mv small_buf buf next_pos sb
              = (Inr (), buf, sb')
          \<and> chown_done a (i_entries di) DOT_DOT_OFFSET s0 sb'"
proof (induction mv small_buf buf next_pos sb
    rule: xattr_readdir_loop_induct [of d _ reiserfs_chown_xattrs_filler])
  case (turn mv small_buf buf next_pos sb)
  let ?es = "i_entries di"
  let ?g = "inode_setattr (chown_attrs a)"
  note xd = turn.prems(1) and ba = turn.prems(2) and inv = turn.prems(3)
  note fl = chown_done_fields [OF inv]
  have nfs: "no_fault sb" using nf fl(1) by (simp add: no_fault_def)
  have rep: "deh_reported e sb = deh_reported e s0" for e
    by (rule deh_reported_cong [OF fl(2-5)])
  from inv have ig: "iget sb n =
       (if n \<in> deh_objectid ` set (filter (\<lambda>e. next_pos < deh_offset e) (chown_entries ?es s0))
        then map_option ?g (iget s0 n) else iget s0 n)" for n
    by (simp add: chown_done_def)
  have dnt: "d \<notin> deh_objectid ` set (chown_entries ?es s0)"
    using d0 isd by (auto simp: chown_entries_def)
  have dsb: "iget sb d = Some di" using dnt d0 by (auto simp: ig)
  have se: "search_by_entry_key d p sb = Inr (entry_at_or_before ?es p)" for p
    using dsb nfs by (simp add: search_by_entry_key_def no_fault_def)
  have found: "deh \<in> set ?es" "deh_offset deh \<le> next_pos"
    "\<And>e. e \<in> set ?es \<Longrightarrow> deh_offset e \<le> next_pos \<Longrightarrow> deh_offset e \<le> deh_offset deh"
    "\<And>e. e \<in> set ?es \<Longrightarrow> deh_offset e = deh_offset deh \<Longrightarrow> e = deh"
    "\<And>e. e \<in> set ?es \<Longrightarrow>
           next_pos < deh_offset e \<or> deh_offset e < deh_offset deh \<or> e = deh"
    if "search_by_entry_key d next_pos sb = Inr (Some deh)" for deh
  proof -
    from that se have e: "entry_at_or_before ?es next_pos = Some deh" by simp
    show m: "deh \<in> set ?es" by (rule entry_at_or_before_mem [OF e])
    show "deh_offset deh \<le> next_pos" by (rule entry_at_or_before_le [OF e])
    show "deh_offset e \<le> deh_offset deh" if "e \<in> set ?es" "deh_offset e \<le> next_pos" for e
      by (rule entry_at_or_before_max [OF e that])
    show u: "e = deh" if "e \<in> set ?es" "deh_offset e = deh_offset deh" for e
      using dof that m by (auto simp: distinct_map inj_on_def)
    show "next_pos < deh_offset e \<or> deh_offset e < deh_offset deh \<or> e = deh"
      if "e \<in> set ?es" for e
    proof (cases "deh_offset e \<le> next_pos")
      case True
      from entry_at_or_before_max [OF e that True] u [OF that] show ?thesis
        by (cases "deh_offset e = deh_offset deh") simp_all
    next
      case False
      then show ?thesis by simp
    qed
  qed
  show ?case
  proof (cases rule: xattr_readdir_loop_cases
      [of next_pos d reiserfs_chown_xattrs_filler mv small_buf buf sb])
    case low
    have "chown_done a ?es next_pos s0 sb = chown_done a ?es DOT_DOT_OFFSET s0 sb"
      using low(1) by (intro chown_done_cong) auto
    with inv low(2) show ?thesis by simp
  next
    case (eio e)
    with se show ?thesis by simp
  next
    case none
    with se have "entry_at_or_before ?es next_pos = None" by simp
    from entry_at_or_before_NoneD [OF this]
    have "chown_done a ?es next_pos s0 sb = chown_done a ?es DOT_DOT_OFFSET s0 sb"
      by (intro chown_done_cong) auto
    with inv none(3) show ?thesis by simp
  next
    case (dots deh)
    note f = found [OF dots(2)]
    have "(next_pos < deh_offset e) = (DOT_DOT_OFFSET < deh_offset e)"
      if "e \<in> set ?es" for e
      using f(5) [OF that] f(2) dots(1,3) by auto
    then have "chown_done a ?es next_pos s0 sb = chown_done a ?es DOT_DOT_OFFSET s0 sb"
      by (intro chown_done_cong)
    with inv dots(4) show ?thesis by simp
  next
    case (skip deh)
    note f = found [OF skip(2)]
    have "deh \<notin> set (chown_entries ?es s0)"
      using skip(4) by (simp add: chown_entries_def rep)
    then have "(deh_offset deh - 1 < deh_offset e) = (next_pos < deh_offset e)"
      if "e \<in> set (chown_entries ?es s0)" for e
    proof -
      from that have m: "e \<in> set ?es" by (simp add: chown_entries_def)
      from that \<open>deh \<notin> set (chown_entries ?es s0)\<close> have "e \<noteq> deh" by auto
      with f(5) [OF m] f(2) show ?thesis by auto
    qed
    then have "filter (\<lambda>e. deh_offset deh - 1 < deh_offset e) (chown_entries ?es s0)
        = filter (\<lambda>e. next_pos < deh_offset e) (chown_entries ?es s0)"
      by (intro filter_cong refl)
    with inv have "chown_done a ?es (deh_offset deh - 1) s0 sb" by (simp add: chown_done_def)
    from turn.IH(1) [OF skip(2-4) xd ba this] skip(5) show ?thesis by simp
  next
    case (nomem deh)
    with nfs show ?thesis by (simp add: no_fault_def)
  next
    case (moved deh)
    note f = found [OF moved(2)]
    have "(deh_offset deh < deh_offset e) = (next_pos < deh_offset e)"
      if "e \<in> set ?es" for e
      using f(5) [OF that] f(2) by auto
    then have "chown_done a ?es (deh_offset deh) s0 sb = chown_done a ?es next_pos s0 sb"
      by (intro chown_done_cong)
    with inv have "chown_done a ?es (deh_offset deh) s0 sb" by simp
    from turn.IH(2) [OF moved(2-8) xd ba this] moved(9) show ?thesis by simp
  next
    case (fail deh e buf1 sb1)
    note f = found [OF fail(2)]
    from fail(4) have v: "deh_visible deh" by (simp add: deh_reported_def)
    from ex [OF f(1)] obtain i0 where "iget s0 (deh_objectid deh) = Some i0" by auto
    then have "iget sb (deh_objectid deh) \<noteq> None" by (simp add: ig)
    then obtain fi where "iget sb (deh_objectid deh) = Some fi" by auto
    from reiserfs_chown_xattrs_filler_ok [OF xd ba dsb nfs dn f(1) v this] fail(6)
    show ?thesis by simp
  next
    case (deliver deh u buf1 sb1)
    note f = found [OF deliver(2)]
    let ?x = "deh_objectid deh"
    from deliver(4) have v: "deh_visible deh" by (simp add: deh_reported_def)
    from ex [OF f(1)] obtain i0 where i0: "iget s0 ?x = Some i0" by auto
    define fi where "fi = (if ?x \<in> deh_objectid ` set (filter (\<lambda>e. next_pos < deh_offset e)
                               (chown_entries ?es s0)) then ?g i0 else i0)"
    have fi: "iget sb ?x = Some fi" by (simp add: ig i0 fi_def)
    have dir: "i_isdir fi = i_isdir i0" by (simp add: fi_def)
    have gfi: "?g fi = ?g i0" by (simp add: fi_def inode_setattr_chown_idem)
    from reiserfs_chown_xattrs_filler_ok [OF xd ba dsb nfs dn f(1) v fi] deliver(6)
    have b1: "buf1 = buf" and s1: "sb1 = (if i_isdir fi then sb else iput ?x (?g fi) sb)"
      by simp_all
    have mem: "deh \<in> set (chown_entries ?es s0) \<longleftrightarrow> \<not> i_isdir i0"
      using f(1) deliver(3,4) by (simp add: chown_entries_def rep i0)
    have st: "set (filter (\<lambda>e. deh_offset deh - 1 < deh_offset e) (chown_entries ?es s0))
        = set (filter (\<lambda>e. next_pos < deh_offset e) (chown_entries ?es s0))
          \<union> (if i_isdir i0 then {} else {deh})"
    proof -
      have "(deh_offset deh - 1 < deh_offset e) = (next_pos < deh_offset e \<or> e = deh)"
        if "e \<in> set ?es" for e
        using f(2) f(5) [OF that] deliver(3) by (auto simp: DOT_DOT_OFFSET_def)
      then have "set (filter (\<lambda>e. deh_offset deh - 1 < deh_offset e) (chown_entries ?es s0))
        = set (filter (\<lambda>e. next_pos < deh_offset e \<or> e = deh) (chown_entries ?es s0))"
        by (auto simp: chown_entries_def)
      with mem show ?thesis by auto
    qed
    have "chown_done a ?es (deh_offset deh - 1) s0 sb1"
      unfolding chown_done_def st
    proof (intro conjI allI)
      from inv show "sb1\<lparr>s_inodes := s_inodes s0\<rparr> = s0"
        by (simp add: s1 chown_done_def iput_def)
      fix n
      show "iget sb1 n =
         (if n \<in> deh_objectid ` (set (filter (\<lambda>e. next_pos < deh_offset e) (chown_entries ?es s0))
                   \<union> (if i_isdir i0 then {} else {deh}))
          then map_option ?g (iget s0 n) else iget s0 n)"
        by (cases "i_isdir i0") (auto simp: s1 dir iget_iput ig gfi i0)
    qed
    from turn.IH(3) [OF deliver(2-6) xd [folded b1] ba [folded b1] this] deliver(7) b1
    show ?thesis by simp
  qed
qed

lemma chown_entries_cong:
  assumes "s_inodes s = s_inodes s0" and "priv_root s = priv_root s0"
    and "s_max_name s = s_max_name s0" and "s_xattrs s = s_xattrs s0"
    and "s_old_format_only s = s_old_format_only s0"
  shows "chown_entries es s = chown_entries es s0"
  using assms deh_reported_cong [OF assms(2-5)]
  by (simp add: chown_entries_def iget_def)

lemma open_xa_dir_ro_state:
  assumes "open_xa_dir inode FL_READONLY sb = (r, sb1)"
  shows "s_inodes sb1 = s_inodes sb" "priv_root sb1 = priv_root sb"
    "s_max_name sb1 = s_max_name sb" "s_xattrs sb1 = s_xattrs sb"
    "s_old_format_only sb1 = s_old_format_only sb" "s_fault sb1 = s_fault sb"
  using open_xa_dir_ro_cache [OF assms] by auto

text \<open>The change reaches every entry and then the directory.\<close>

lemma reiserfs_chown_xattrs_applied:
  assumes c: "\<not> i_priv_object inode" "\<not> sd_version_v1 inode" "s_xattrs sb"
    and nf: "no_fault sb"
    and o: "open_xa_dir inode FL_READONLY sb = (Inr dir, sb1)"
    and xd: "d_inode dir = Some d" and d0: "iget sb d = Some di"
    and isd: "i_isdir di" "\<not> i_deaddir di"
    and dof: "distinct (map deh_offset (i_entries di))"
    and dn: "distinct (map de_name (filter deh_visible (i_entries di)))"
    and ex: "\<forall>e \<in> set (i_entries di).
               deh_offset e \<le> max_reiserfs_offset \<and> iget sb (deh_objectid e) \<noteq> None"
  shows "\<exists>sb'. reiserfs_chown_xattrs mv small_buf inode attrs sb = (Inr (), attrs, sb')
      \<and> (\<forall>n. iget sb' n =
            (if n = d \<or> n \<in> deh_objectid ` set (chown_entries (i_entries di) sb)
             then map_option (inode_setattr (chown_attrs attrs)) (iget sb n)
             else iget sb n))"
proof -
  let ?es = "i_entries di"
  let ?g = "inode_setattr (chown_attrs attrs)"
  let ?buf = "\<lparr>cb_inode = inode, cb_xadir = dir, cb_attrs = chown_attrs attrs\<rparr>"
  note st = open_xa_dir_ro_state [OF o]
  have ig1: "iget sb1 = iget sb" by (simp add: iget_def st fun_eq_iff)
  have nf1: "no_fault sb1" using nf st(6) by (simp add: no_fault_def)
  have ce: "chown_entries ?es sb1 = chown_entries ?es sb"
    by (rule chown_entries_cong [OF st(1-5)])
  have d1: "iget sb1 d = Some di" by (simp add: ig1 d0)
  have ex1: "iget sb1 (deh_objectid e) \<noteq> None" if "e \<in> set ?es" for e
    using ex that by (simp add: ig1)
  have "filter (\<lambda>e. max_reiserfs_offset < deh_offset e) (chown_entries ?es sb1) = []"
    using ex by (auto simp: filter_empty_conv chown_entries_def)
  then have inv: "chown_done attrs ?es max_reiserfs_offset sb1 sb1"
    by (simp add: chown_done_def)
  from chown_loop [OF d1 isd(1) nf1 dof dn ex1, of ?buf attrs max_reiserfs_offset sb1 mv
      small_buf] xd inv
  obtain sb2 where
    l: "xattr_readdir_loop d reiserfs_chown_xattrs_filler mv small_buf ?buf
          max_reiserfs_offset sb1 = (Inr (), ?buf, sb2)"
    and dn2: "chown_done attrs ?es DOT_DOT_OFFSET sb1 sb2" by auto
  have fe: "filter (\<lambda>e. DOT_DOT_OFFSET < deh_offset e) (chown_entries ?es sb1)
          = chown_entries ?es sb1"
    by (auto simp: chown_entries_def intro: filter_cong)
  from dn2 have "\<forall>n. iget sb2 n =
       (if n \<in> deh_objectid ` set (filter (\<lambda>e. DOT_DOT_OFFSET < deh_offset e)
                                      (chown_entries ?es sb1))
        then map_option ?g (iget sb1 n) else iget sb1 n)"
    unfolding chown_done_def by (rule conjunct2)
  then have ig2: "iget sb2 n =
       (if n \<in> deh_objectid ` set (chown_entries ?es sb) then map_option ?g (iget sb n)
        else iget sb n)" for n
    unfolding ce fe [unfolded ce] ig1 by (rule spec)
  have nf2: "no_fault sb2" using chown_done_fields(1) [OF dn2] nf1 by (simp add: no_fault_def)
  have dnt: "d \<notin> deh_objectid ` set (chown_entries ?es sb)"
    using d0 isd(1) by (auto simp: chown_entries_def)
  have d2: "iget sb2 d = Some di" using dnt d0 by (simp add: ig2)
  have rd: "xattr_readdir dir reiserfs_chown_xattrs_filler ?buf mv small_buf sb1
              = (Inr (), ?buf, sb2)"
    using isd by (simp add: xattr_readdir_def xd d1 l)
  have op: "dentry_open dir sb1 = Inr dir"
    using nf1 by (simp add: dentry_open_def xd no_fault_def)
  have nc: "notify_change dir (chown_attrs attrs) sb2 = (Inr (), iput d (?g di) sb2)"
    using nf2 by (simp add: notify_change_def xd d2 no_fault_def)
  have v: "(chown_attrs attrs)\<lparr>ia_valid := ia_valid attrs\<rparr> = attrs"
    by (simp add: chown_attrs_def)
  have "reiserfs_chown_xattrs mv small_buf inode attrs sb
          = (Inr (), attrs, iput d (?g di) sb2)"
    using c by (simp add: reiserfs_chown_xattrs_def Let_def o xd op
        chown_attrs_def [symmetric] rd nc v)
  moreover have "iget (iput d (?g di) sb2) n =
            (if n = d \<or> n \<in> deh_objectid ` set (chown_entries ?es sb)
             then map_option ?g (iget sb n) else iget sb n)" for n
    using d0 by (simp add: iget_iput ig2)
  ultimately show ?thesis by blast
qed


text \<open>
  C8.  Whatever \<open>reiserfs_chown_xattrs\<close> returns, the structure \<open>attrs\<close> of the caller
  is afterwards what it was, \<open>ia_valid\<close> included, and every inode of the file system is
  what it was but for its owner, its group and its change time: no other field of the
  attribute-change set is applied to anything.  When the object has an attribute
  directory, that directory is well formed (offsets and visible names are distinct, the
  offsets are within the key format, every entry leads to an inode) and no collaborator
  fails, the call returns 0 and has applied \<open>attrs\<close>, restricted to \<open>ATTR_UID\<close>,
  \<open>ATTR_GID\<close> and \<open>ATTR_CTIME\<close>, to the inode of every entry that the enumeration
  reports and that is no directory, and to the directory itself, and to no other inode.
\<close>

theorem reiserfs_chown_xattrs_effect:
  assumes "reiserfs_chown_xattrs mv small_buf inode attrs sb = (r, attrs', sb')"
  shows "attrs' = attrs \<and> chown_frame sb sb'
       \<and> (\<not> i_priv_object inode \<and> \<not> sd_version_v1 inode \<and> s_xattrs sb \<and> no_fault sb
           \<and> open_xa_dir inode FL_READONLY sb = (Inr dir, sb1)
           \<and> d_inode dir = Some d \<and> iget sb d = Some di \<and> i_isdir di \<and> \<not> i_deaddir di
           \<and> distinct (map deh_offset (i_entries di))
           \<and> distinct (map de_name (filter deh_visible (i_entries di)))
           \<and> (\<forall>e \<in> set (i_entries di).
                 deh_offset e \<le> max_reiserfs_offset \<and> iget sb (deh_objectid e) \<noteq> None)
          \<longrightarrow> r = Inr ()
              \<and> (\<forall>n. iget sb' n =
                   (if n = d \<or> n \<in> deh_objectid ` set (chown_entries (i_entries di) sb)
                    then map_option (inode_setattr (chown_attrs attrs)) (iget sb n)
                    else iget sb n)))"
proof (intro conjI impI)
  show "attrs' = attrs" by (rule reiserfs_chown_xattrs_frame(1) [OF assms])
  show "chown_frame sb sb'" by (rule reiserfs_chown_xattrs_frame(2) [OF assms])
next
  assume h: "\<not> i_priv_object inode \<and> \<not> sd_version_v1 inode \<and> s_xattrs sb \<and> no_fault sb
           \<and> open_xa_dir inode FL_READONLY sb = (Inr dir, sb1)
           \<and> d_inode dir = Some d \<and> iget sb d = Some di \<and> i_isdir di \<and> \<not> i_deaddir di
           \<and> distinct (map deh_offset (i_entries di))
           \<and> distinct (map de_name (filter deh_visible (i_entries di)))
           \<and> (\<forall>e \<in> set (i_entries di).
                 deh_offset e \<le> max_reiserfs_offset \<and> iget sb (deh_objectid e) \<noteq> None)"
  then have "\<exists>s. reiserfs_chown_xattrs mv small_buf inode attrs sb = (Inr (), attrs, s)
      \<and> (\<forall>n. iget s n =
            (if n = d \<or> n \<in> deh_objectid ` set (chown_entries (i_entries di) sb)
             then map_option (inode_setattr (chown_attrs attrs)) (iget sb n)
             else iget sb n))"
    by (intro reiserfs_chown_xattrs_applied [where dir = dir and ?sb1.0 = sb1]) simp_all
  with assms show "r = Inr ()"
    and "\<forall>n. iget sb' n =
            (if n = d \<or> n \<in> deh_objectid ` set (chown_entries (i_entries di) sb)
             then map_option (inode_setattr (chown_attrs attrs)) (iget sb n)
             else iget sb n)"
    by auto
qed

lemma ex_chown_facts:
  "\<not> i_priv_object ex_inode" "\<not> sd_version_v1 ex_inode" "s_xattrs ex_sb"
  "iget ex_sb 3 = Some (ex_dir 3 2 3
               [ex_entry 3 ''user.a'' 4, ex_entry 4 ''sub'' 5, ex_entry 5 ''user.alien'' 6,
                ex_entry 6 ''user.shared'' 7, ex_entry 7 ''user.badmagic'' 8,
                ex_entry 8 ''user.rotten'' 9])"
  "i_isdir (ex_dir 3 2 3 es)" "\<not> i_deaddir (ex_dir 3 2 3 es)"
  by (simp_all add: ex_inode_def ex_file_def ex_sb_def iget_def ex_dir_def)

lemma ex_chown_dir:
  fixes es defines "es \<equiv> i_entries (ex_dir 3 2 3
               [ex_entry 3 ''user.a'' 4, ex_entry 4 ''sub'' 5, ex_entry 5 ''user.alien'' 6,
                ex_entry 6 ''user.shared'' 7, ex_entry 7 ''user.badmagic'' 8,
                ex_entry 8 ''user.rotten'' 9])"
  shows "distinct (map deh_offset es)"
    "distinct (map de_name (filter deh_visible es))"
    "\<forall>e \<in> set es. deh_offset e \<le> max_reiserfs_offset \<and> iget ex_sb (deh_objectid e) \<noteq> None"
    "deh_objectid ` set (chown_entries es ex_sb) = {4, 6, 7, 8, 9}"
  by (simp_all add: es_def ex_dir_def ex_entry_def DOT_OFFSET_def DOT_DOT_OFFSET_def
      max_reiserfs_offset_def ex_sb_def iget_def chown_entries_def deh_reported_def
      is_privroot_deh_def ex_file_def)


theorem reiserfs_chown_xattrs_effect_witness:
  "fst (snd (reiserfs_chown_xattrs [True] (replicate 32 NUL) ex_inode ex_newattrs ex_sb))
     = ex_newattrs
   \<and> chown_frame ex_sb
        (snd (snd (reiserfs_chown_xattrs [True] (replicate 32 NUL) ex_inode ex_newattrs ex_sb)))
   \<and> no_fault ex_sb
   \<and> open_xa_dir ex_inode FL_READONLY ex_sb = (Inr ex_xadir, ex_sb1)
   \<and> fst (reiserfs_chown_xattrs [True] (replicate 32 NUL) ex_inode ex_newattrs ex_sb) = Inr ()
   \<and> (\<forall>n. iget (snd (snd (reiserfs_chown_xattrs [True] (replicate 32 NUL) ex_inode
                              ex_newattrs ex_sb))) n =
          (if n = 3 \<or> n \<in> {4, 6, 7, 8, 9}
           then map_option (inode_setattr (chown_attrs ex_newattrs)) (iget ex_sb n)
           else iget ex_sb n))"
proof -
  let ?X = "reiserfs_chown_xattrs [True] (replicate 32 NUL) ex_inode ex_newattrs ex_sb"
  let ?di = "ex_dir 3 2 3
               [ex_entry 3 ''user.a'' 4, ex_entry 4 ''sub'' 5, ex_entry 5 ''user.alien'' 6,
                ex_entry 6 ''user.shared'' 7, ex_entry 7 ''user.badmagic'' 8,
                ex_entry 8 ''user.rotten'' 9]"
  have e: "?X = (fst ?X, fst (snd ?X), snd (snd ?X))" by simp
  note t = reiserfs_chown_xattrs_effect [OF e, of ex_xadir ex_sb1 3 ?di,
      unfolded ex_chown_dir(4)]
  have h: "\<not> i_priv_object ex_inode \<and> \<not> sd_version_v1 ex_inode \<and> s_xattrs ex_sb
      \<and> no_fault ex_sb
      \<and> open_xa_dir ex_inode FL_READONLY ex_sb = (Inr ex_xadir, ex_sb1)
      \<and> d_inode ex_xadir = Some 3 \<and> iget ex_sb 3 = Some ?di \<and> i_isdir ?di
      \<and> \<not> i_deaddir ?di
      \<and> distinct (map deh_offset (i_entries ?di))
      \<and> distinct (map de_name (filter deh_visible (i_entries ?di)))
      \<and> (\<forall>e \<in> set (i_entries ?di).
            deh_offset e \<le> max_reiserfs_offset \<and> iget ex_sb (deh_objectid e) \<noteq> None)"
    by (intro conjI ex_chown_facts ex_chown_dir(1-3) ex_no_fault(1) ex_open_xa_dir
        ex_xadir_inode)
  from t h show ?thesis by blast
qed

end
